(* ===== verification/Go_Prelude.thy ===== *)
theory Go_Prelude
  imports
    Main
    "HOL-Library.Word"
    "HOL-Library.Multiset"
    "HOL-Library.List_Lexorder"
    "HOL-Library.Char_ord"
begin

text \<open>
  What the components share: the Go values the signer computes with (byte slices, strings,
  errors, calls that return an error or panic), the parts of the Go standard library its code
  relies on (\<open>fmt\<close> decimal printing, \<open>big.Int.SetString\<close>, \<open>strings.Split\<close>, \<open>big.Int.SetBytes\<close>,
  \<open>sort.Sort\<close>), and the generic lemmas about them. Two interfaces are stated as locales: a
  comparison sort over a \<open>Less\<close> function, and an event loop that keeps an invariant.
\<close>

named_theorems res_simps \<open>inversion of calls that return an error or panic\<close>
named_theorems str_simps \<open>printing, parsing and splitting of strings\<close>

section \<open>Go values\<close>

type_synonym byte = "8 word"
type_synonym bytes = "8 word list"
type_synonym uint64 = "64 word"

text \<open>\<open>peer.ID\<close> is a Go string holding the raw multihash of the peer's key.\<close>

type_synonym peer = string

text \<open>
  Errors are values: \<open>Errorf\<close> for the text of \<open>errors.New\<close> and \<open>fmt.Errorf\<close>, \<open>Wrapf\<close> for an error
  formatted or wrapped inside another, and one constructor for every error type that the code
  tells apart with \<open>errors.Is\<close> or \<open>errors.As\<close>.
\<close>

datatype go_error =
    Errorf string
  | Wrapf string go_error
  | ErrProcessStarted
  | SubsetError peer
  | CommunicationError peer go_error

text \<open>A call returns a value, returns an error, or panics.\<close>

datatype 'a res = Ok 'a | Fail go_error | Panic string

fun res_bind :: "'a res \<Rightarrow> ('a \<Rightarrow> 'b res) \<Rightarrow> 'b res" where
  "res_bind (Ok x) f = f x"
| "res_bind (Fail e) f = Fail e"
| "res_bind (Panic m) f = Panic m"

definition res_guard :: "bool \<Rightarrow> go_error \<Rightarrow> unit res" where
  "res_guard b e = (if b then Ok () else Fail e)"

fun of_option :: "go_error \<Rightarrow> 'a option \<Rightarrow> 'a res" where
  "of_option e None = Fail e"
| "of_option e (Some x) = Ok x"

text \<open>Dereferencing a pointer that may be nil.\<close>

fun deref :: "'a option \<Rightarrow> 'a res" where
  "deref None = Panic ''nil pointer dereference''"
| "deref (Some x) = Ok x"

text \<open>Indexing a slice.\<close>

definition at_index :: "'a list \<Rightarrow> nat \<Rightarrow> 'a res" where
  "at_index xs i = (if i < length xs then Ok (xs ! i) else Panic ''index out of range'')"

fun res_map :: "('a \<Rightarrow> 'b res) \<Rightarrow> 'a list \<Rightarrow> 'b list res" where
  "res_map f [] = Ok []"
| "res_map f (x # xs) = res_bind (f x) (\<lambda>y. res_bind (res_map f xs) (\<lambda>ys. Ok (y # ys)))"

lemma res_bind_Ok_iff [res_simps]: "res_bind m f = Ok y \<longleftrightarrow> (\<exists>x. m = Ok x \<and> f x = Ok y)"
  by (cases m) auto

lemma res_bind_Fail_iff [res_simps]:
  "res_bind m f = Fail e \<longleftrightarrow> m = Fail e \<or> (\<exists>x. m = Ok x \<and> f x = Fail e)"
  by (cases m) auto

lemma res_bind_Panic_iff [res_simps]:
  "res_bind m f = Panic e \<longleftrightarrow> m = Panic e \<or> (\<exists>x. m = Ok x \<and> f x = Panic e)"
  by (cases m) auto

lemma res_guard_iff [res_simps]:
  "res_guard b e = Ok u \<longleftrightarrow> b"
  "res_guard b e = Fail e' \<longleftrightarrow> \<not> b \<and> e' = e"
  "res_guard b e \<noteq> Panic p"
  by (auto simp: res_guard_def)

lemma of_option_iff [res_simps]:
  "of_option e m = Ok x \<longleftrightarrow> m = Some x"
  "of_option e m = Fail e' \<longleftrightarrow> m = None \<and> e' = e"
  "of_option e m \<noteq> Panic p"
  by (cases m; auto)+

lemma deref_iff [res_simps]:
  "deref m = Ok x \<longleftrightarrow> m = Some x"
  "deref m \<noteq> Fail e"
  by (cases m; auto)+

lemma at_index_iff [res_simps]:
  "at_index xs i = Ok x \<longleftrightarrow> i < length xs \<and> xs ! i = x"
  "at_index xs i \<noteq> Fail e"
  by (auto simp: at_index_def)

lemma res_map_Ok_length: "res_map f xs = Ok ys \<Longrightarrow> length ys = length xs"
  by (induction xs arbitrary: ys) (auto simp: res_simps)

lemma res_map_all_Ok: "(\<And>x. x \<in> set xs \<Longrightarrow> f x = Ok (g x)) \<Longrightarrow> res_map f xs = Ok (map g xs)"
  by (induction xs) auto

section \<open>Strings and numbers\<close>

text \<open>\<open>[]byte(s)\<close>: the bytes of a Go string.\<close>

definition string_bytes :: "string \<Rightarrow> bytes" where
  "string_bytes s = map of_char s"

text \<open>\<open>fmt.Sprintf("%d", n)\<close>, \<open>strconv.Itoa\<close>, \<open>big.Int.String()\<close>.\<close>

definition digit_char :: "nat \<Rightarrow> char" where
  "digit_char d = char_of (48 + d)"

fun show_nat :: "nat \<Rightarrow> string" where
  "show_nat n =
     (if n < 10 then [digit_char n] else show_nat (n div 10) @ [digit_char (n mod 10)])"

declare show_nat.simps [simp del]

definition show_int :: "int \<Rightarrow> string" where
  "show_int i = (if i < 0 then CHR ''-'' # show_nat (nat (- i)) else show_nat (nat i))"

definition digit_val :: "char \<Rightarrow> nat option" where
  "digit_val c =
     (let n = of_char c in if (48::nat) \<le> n \<and> n \<le> 57 then Some (n - 48) else None)"

fun parse_digits :: "nat \<Rightarrow> string \<Rightarrow> nat option" where
  "parse_digits acc [] = Some acc"
| "parse_digits acc (c # cs) =
     (case digit_val c of None \<Rightarrow> None | Some d \<Rightarrow> parse_digits (10 * acc + d) cs)"

definition parse_dec :: "string \<Rightarrow> nat option" where
  "parse_dec s = (if s = [] then None else parse_digits 0 s)"

text \<open>\<open>new(big.Int).SetString(s, 10)\<close>: an optional sign and at least one decimal digit.\<close>

definition set_string10 :: "string \<Rightarrow> int option" where
  "set_string10 s =
     (case s of
        [] \<Rightarrow> None
      | c # r \<Rightarrow>
          (if c = CHR ''-'' then map_option (\<lambda>n. - int n) (parse_dec r)
           else if c = CHR ''+'' then map_option int (parse_dec r)
           else map_option int (parse_dec s)))"

text \<open>\<open>strings.Split(s, sep)\<close> for a separator of one character.\<close>

fun split_on :: "char \<Rightarrow> string \<Rightarrow> string list" where
  "split_on c [] = [[]]"
| "split_on c (x # xs) =
     (if x = c then [] # split_on c xs
      else case split_on c xs of [] \<Rightarrow> [[x]] | w # ws \<Rightarrow> (x # w) # ws)"

text \<open>\<open>new(big.Int).SetBytes(b)\<close>: big-endian, unsigned.\<close>

definition be_nat :: "bytes \<Rightarrow> nat" where
  "be_nat b = foldl (\<lambda>a x. a * 256 + unat x) 0 b"

text \<open>\<open>big.Int.Uint64()\<close>: the low 64 bits of the absolute value.\<close>

definition big_uint64 :: "int \<Rightarrow> uint64" where
  "big_uint64 i = word_of_int \<bar>i\<bar>"

subsection \<open>Printing and parsing agree\<close>

lemma of_char_digit_char: "d < 10 \<Longrightarrow> (of_char (digit_char d) :: nat) = 48 + d"
  by (simp add: digit_char_def)

lemma digit_val_digit_char [simp]: "d < 10 \<Longrightarrow> digit_val (digit_char d) = Some d"
  by (simp add: digit_val_def of_char_digit_char Let_def)

lemma show_nat_nonempty [simp]: "show_nat n \<noteq> []"
  by (subst show_nat.simps) simp

lemma parse_digits_append:
  "parse_digits acc (s @ t) =
     (case parse_digits acc s of None \<Rightarrow> None | Some a \<Rightarrow> parse_digits a t)"
  by (induction s arbitrary: acc) (auto split: option.splits)

lemma parse_digits_show_nat: "parse_digits 0 (show_nat n) = Some n"
proof (induction n rule: show_nat.induct)
  case (1 n)
  show ?case
  proof (cases "n < 10")
    case True
    then show ?thesis by (simp add: show_nat.simps [of n])
  next
    case False
    with "1.IH" show ?thesis
      by (simp add: show_nat.simps [of n] parse_digits_append)
  qed
qed

lemma parse_dec_show_nat [str_simps]: "parse_dec (show_nat n) = Some n"
  by (simp add: parse_dec_def parse_digits_show_nat)

lemma show_nat_inj [simp]: "show_nat m = show_nat n \<longleftrightarrow> m = n"
  by (metis option.inject parse_dec_show_nat)

definition all_digits :: "string \<Rightarrow> bool" where
  "all_digits s \<longleftrightarrow> (\<forall>c \<in> set s. digit_val c \<noteq> None)"

lemma all_digits_show_nat: "all_digits (show_nat n)"
proof (induction n rule: show_nat.induct)
  case (1 n)
  then show ?case
    by (cases "n < 10") (auto simp: show_nat.simps [of n] all_digits_def)
qed

lemma digit_val_dash [simp]: "digit_val (CHR ''-'') = None" "digit_val (CHR ''+'') = None"
  by (simp_all add: digit_val_def)

lemma dash_notin_show_nat [simp]: "CHR ''-'' \<notin> set (show_nat n)" "CHR ''+'' \<notin> set (show_nat n)"
  using all_digits_show_nat [of n] by (auto simp: all_digits_def)

lemma set_string10_show_nat [str_simps]: "set_string10 (show_nat n) = Some (int n)"
proof -
  obtain c r where s: "show_nat n = c # r"
    by (cases "show_nat n") auto
  with dash_notin_show_nat [of n] have "c \<noteq> CHR ''-''" "c \<noteq> CHR ''+''"
    by auto
  with s parse_dec_show_nat [of n] show ?thesis
    by (simp add: set_string10_def)
qed

subsection \<open>Splitting\<close>

lemma split_on_nonempty [simp]: "split_on c s \<noteq> []"
  by (cases s) (auto split: list.splits)

lemma length_split_on [str_simps]: "length (split_on c s) = Suc (count_list s c)"
  by (induction s) (auto split: list.splits)

lemma split_on_notin [str_simps]: "c \<notin> set s \<Longrightarrow> split_on c s = [s]"
  by (induction s) auto

lemma split_on_append [str_simps]:
  "c \<notin> set s \<Longrightarrow> split_on c (s @ c # t) = s # split_on c t"
  by (induction s) auto

text \<open>A decimal prefix before a dash is determined by the whole string.\<close>

lemma dash_prefix_inj:
  assumes "CHR ''-'' \<notin> set a" and "CHR ''-'' \<notin> set b"
    and "a @ CHR ''-'' # s = b @ CHR ''-'' # t"
  shows "a = b \<and> s = t"
  using assms
proof (induction a arbitrary: b)
  case Nil
  then show ?case by (cases b) auto
next
  case (Cons x a)
  then show ?case by (cases b) auto
qed

section \<open>Sorting by a Less function\<close>

text \<open>
  \<open>sort.Sort\<close> on a slice of at most twelve elements is Go's \<open>insertionSort\<close>: every element is
  swapped towards the front of the sorted prefix while it is less than its left neighbour. The
  sorted prefix is kept reversed here, so that its last element is the head.
\<close>

fun swap_left :: "('a \<Rightarrow> 'a \<Rightarrow> bool) \<Rightarrow> 'a \<Rightarrow> 'a list \<Rightarrow> 'a list" where
  "swap_left lt x [] = [x]"
| "swap_left lt x (y # ys) = (if lt x y then y # swap_left lt x ys else x # y # ys)"

definition insertion_sort :: "('a \<Rightarrow> 'a \<Rightarrow> bool) \<Rightarrow> 'a list \<Rightarrow> 'a list" where
  "insertion_sort lt xs = rev (fold (swap_left lt) xs [])"

text \<open>
  The contract of \<open>sort.Sort\<close>, whatever algorithm it runs: the result is a permutation in which
  no element is less than an earlier one. Under a comparison by a key whose values are distinct
  the result is unique, so it does not depend on the order of the input.
\<close>

locale key_sort =
  fixes key :: "'a \<Rightarrow> 'b :: linorder"
    and srt :: "'a list \<Rightarrow> 'a list"
  assumes srt_mset: "mset (srt xs) = mset xs"
    and srt_sorted: "sorted_wrt (\<lambda>x y. \<not> key x < key y) (srt xs)"
begin

lemma srt_set: "set (srt xs) = set xs"
  using srt_mset [of xs] by (metis set_mset_mset)

lemma srt_length: "length (srt xs) = length xs"
  using srt_mset [of xs] by (metis size_mset)

lemma srt_distinct: "distinct (srt xs) = distinct xs"
  using srt_mset [of xs] mset_eq_imp_distinct_iff by blast

lemma rev_sorted: "sorted (map key (rev (srt xs)))"
  using srt_sorted [of xs]
  by (simp add: sorted_wrt_map sorted_wrt_rev rev_map [symmetric] not_less)

lemma sorted_desc_unique:
  assumes "mset xs = mset ys" and "inj_on key (set xs)"
    and "sorted (map key (rev xs))" and "sorted (map key (rev ys))"
  shows "xs = ys"
proof -
  have "mset (map key (rev xs)) = mset (map key (rev ys))"
    using assms(1) by simp
  then have "map key (rev xs) = map key (rev ys)"
    using assms(3,4) by (metis properties_for_sort)
  moreover have "set (rev xs) = set (rev ys)"
    using assms(1) by (metis set_mset_mset set_rev)
  ultimately have "rev xs = rev ys"
    using assms(2) by (metis inj_on_map_eq_map set_rev sup.idem)
  then show ?thesis by simp
qed

lemma srt_permutation_invariant:
  assumes "mset xs = mset ys" and "inj_on key (set xs)"
  shows "srt xs = srt ys"
  by (rule sorted_desc_unique) (use assms srt_mset srt_set rev_sorted in auto)

lemma srt_hd_max:
  assumes "xs \<noteq> []"
  shows "hd (srt xs) \<in> set xs \<and> (\<forall>y \<in> set xs. key y \<le> key (hd (srt xs)))"
proof -
  obtain z zs where z: "srt xs = z # zs"
    using assms srt_length [of xs] by (cases "srt xs") auto
  then have "\<forall>y \<in> set zs. key y \<le> key z"
    using srt_sorted [of xs] by (auto simp: not_less)
  then show ?thesis
    using z srt_set [of xs] by auto
qed

end

lemma mset_swap_left: "mset (swap_left lt x ys) = add_mset x (mset ys)"
  by (induction ys) auto

lemma mset_fold_swap_left: "mset (fold (swap_left lt) xs acc) = mset xs + mset acc"
  by (induction xs arbitrary: acc) (auto simp: mset_swap_left)

lemma sorted_swap_left:
  fixes key :: "'a \<Rightarrow> 'b :: linorder"
  shows "sorted (map key ys) \<Longrightarrow> sorted (map key (swap_left (\<lambda>a b. key b < key a) x ys))"
proof (induction ys)
  case (Cons y ys)
  have "set (swap_left (\<lambda>a b. key b < key a) x ys) = insert x (set ys)"
    using mset_swap_left [of "\<lambda>a b. key b < key a" x ys] by (metis set_mset_mset set_mset_add_mset_insert)
  with Cons show ?case by auto
qed simp

lemma sorted_fold_swap_left:
  fixes key :: "'a \<Rightarrow> 'b :: linorder"
  shows "sorted (map key acc) \<Longrightarrow> sorted (map key (fold (swap_left (\<lambda>a b. key b < key a)) xs acc))"
  by (induction xs arbitrary: acc) (auto simp: sorted_swap_left)

lemma mset_insertion_sort: "mset (insertion_sort lt xs) = mset xs"
  by (simp add: insertion_sort_def mset_fold_swap_left)

lemma sorted_insertion_sort:
  fixes key :: "'a \<Rightarrow> 'b :: linorder"
  shows "sorted_wrt (\<lambda>x y. \<not> key x < key y) (insertion_sort (\<lambda>a b. key b < key a) xs)"
  using sorted_fold_swap_left [of key "[]" xs]
  by (simp add: insertion_sort_def sorted_wrt_rev sorted_wrt_map not_less)

section \<open>Event loops\<close>

text \<open>
  A goroutine that runs \<open>for { select { ... } }\<close> is a step function over the events it receives.
  An invariant that every event keeps holds after every sequence of events, whatever order the
  scheduler delivers them in.
\<close>

locale event_loop =
  fixes step :: "'s \<Rightarrow> 'e \<Rightarrow> 's"
    and I :: "'s \<Rightarrow> bool"
  assumes step_keeps: "I s \<Longrightarrow> I (step s e)"
begin

lemma run_keeps: "I s \<Longrightarrow> I (foldl step s es)"
  by (induction es arbitrary: s) (auto simp: step_keeps)

end

end
