(* ===== verification/Go_Json.thy ===== *)
theory Go_Json
  imports Go_Prelude
begin

text \<open>
  \<open>encoding/json\<close> as the signer uses it. A document is a tree; the text of a document is left to
  the two functions \<open>jrender\<close> and \<open>jparse\<close> of the record \<open>json_text\<close>, which stand for the scanner and
  printer of the library, and so are \<open>base64.StdEncoding\<close>'s two directions. Everything above
  the text level is written out: how a struct becomes an object with the names of its tags, and
  how \<open>json.Unmarshal\<close> fills a struct from an object (missing and null members leave the zero
  value, names match without regard to case, a later duplicate wins, a member of the wrong
  kind is an error).
\<close>

datatype json =
    JNull
  | JBool bool
  | JNum int
  | JReal string
  | JStr string
  | JArr "json list"
  | JObj "(string \<times> json) list"

record json_text =
  jrender :: "json \<Rightarrow> bytes"
  jparse :: "bytes \<Rightarrow> json option"
  b64enc :: "bytes \<Rightarrow> string"
  b64dec :: "string \<Rightarrow> bytes option"

abbreviation bad_json :: go_error where
  "bad_json \<equiv> Errorf ''json: cannot unmarshal''"

definition json_unmarshal_tree :: "json_text \<Rightarrow> bytes \<Rightarrow> json res" where
  "json_unmarshal_tree J b = of_option (Errorf ''json: syntax error'') (jparse J b)"

text \<open>The text level loses nothing of a document, and base64 nothing of a byte slice.\<close>

definition text_ok :: "json_text \<Rightarrow> json \<Rightarrow> bool" where
  "text_ok J j \<longleftrightarrow> jparse J (jrender J j) = Some j"

definition b64_ok :: "json_text \<Rightarrow> bytes \<Rightarrow> bool" where
  "b64_ok J b \<longleftrightarrow> b64dec J (b64enc J b) = Some b"

lemma json_unmarshal_tree_render [simp]:
  "text_ok J j \<Longrightarrow> json_unmarshal_tree J (jrender J j) = Ok j"
  by (simp add: json_unmarshal_tree_def text_ok_def)

section \<open>Members of objects\<close>

definition lower_char :: "char \<Rightarrow> char" where
  "lower_char c =
     (let n = of_char c in if (65::nat) \<le> n \<and> n \<le> 90 then char_of (n + 32) else c)"

definition fold_name :: "string \<Rightarrow> string" where
  "fold_name s = map lower_char s"

definition jfield :: "string \<Rightarrow> (string \<times> json) list \<Rightarrow> json option" where
  "jfield f kvs = map_of (rev (map (\<lambda>(k, v). (fold_name k, v)) kvs)) (fold_name f)"

section \<open>Decoding into Go values\<close>

type_synonym 'a decoder = "json \<Rightarrow> 'a \<Rightarrow> 'a res"

definition struct_field ::
  "(string \<times> json) list \<Rightarrow> string \<Rightarrow> 'a decoder \<Rightarrow> 'a \<Rightarrow> 'a res" where
  "struct_field kvs f dec zero =
     (case jfield f kvs of None \<Rightarrow> Ok zero | Some j \<Rightarrow> dec j zero)"

fun dec_string :: "string decoder" where
  "dec_string (JStr s) old = Ok s"
| "dec_string JNull old = Ok old"
| "dec_string _ old = Fail bad_json"

fun dec_bool :: "bool decoder" where
  "dec_bool (JBool b) old = Ok b"
| "dec_bool JNull old = Ok old"
| "dec_bool _ old = Fail bad_json"

fun dec_int64 :: "int decoder" where
  "dec_int64 (JNum i) old = (if - (2 ^ 63) \<le> i \<and> i < 2 ^ 63 then Ok i else Fail bad_json)"
| "dec_int64 JNull old = Ok old"
| "dec_int64 _ old = Fail bad_json"

fun dec_uint64 :: "uint64 decoder" where
  "dec_uint64 (JNum i) old = (if 0 \<le> i \<and> i < 2 ^ 64 then Ok (word_of_int i) else Fail bad_json)"
| "dec_uint64 JNull old = Ok old"
| "dec_uint64 _ old = Fail bad_json"

text \<open>A \<open>*big.Int\<close> member: a JSON number; null leaves the nil pointer.\<close>

fun dec_bigint :: "int option decoder" where
  "dec_bigint (JNum i) old = Ok (Some i)"
| "dec_bigint JNull old = Ok None"
| "dec_bigint _ old = Fail bad_json"

fun dec_bytes :: "json_text \<Rightarrow> bytes decoder" where
  "dec_bytes J (JStr s) old = of_option bad_json (b64dec J s)"
| "dec_bytes J JNull old = Ok []"
| "dec_bytes J _ old = Fail bad_json"

text \<open>A value with an \<open>UnmarshalText\<close> or \<open>UnmarshalJSON\<close> method over a string.\<close>

fun dec_text :: "(string \<Rightarrow> 'a res) \<Rightarrow> 'a decoder" where
  "dec_text un (JStr s) old = un s"
| "dec_text un JNull old = Ok old"
| "dec_text un _ old = Fail bad_json"

text \<open>A slice of such values.\<close>

fun dec_text_list :: "(string \<Rightarrow> 'a res) \<Rightarrow> 'a \<Rightarrow> 'a list decoder" where
  "dec_text_list un zero (JArr js) old = res_map (\<lambda>j. dec_text un j zero) js"
| "dec_text_list un zero JNull old = Ok []"
| "dec_text_list un zero _ old = Fail bad_json"

text \<open>The members of the object a struct is read from; null reads as no members.\<close>

fun members :: "json \<Rightarrow> (string \<times> json) list res" where
  "members (JObj kvs) = Ok kvs"
| "members JNull = Ok []"
| "members _ = Fail bad_json"

definition enc_bigint :: "int option \<Rightarrow> json" where
  "enc_bigint i = (case i of None \<Rightarrow> JNull | Some n \<Rightarrow> JNum n)"

lemma dec_enc_bigint [simp]: "dec_bigint (enc_bigint i) old = Ok i"
  by (cases i) (auto simp: enc_bigint_def)

definition enc_uint64 :: "uint64 \<Rightarrow> json" where
  "enc_uint64 w = JNum (uint w)"

lemma dec_enc_uint64 [simp]: "dec_uint64 (enc_uint64 w) old = Ok w"
  using uint_bounded [of w] by (simp add: enc_uint64_def)

lemma dec_text_list_map:
  "(\<And>p. p \<in> set ps \<Longrightarrow> un (pr p) = Ok p) \<Longrightarrow>
   dec_text_list un zero (JArr (map (\<lambda>p. JStr (pr p)) ps)) old = Ok ps"
proof (induction ps)
  case (Cons p ps)
  then show ?case by simp
qed simp

section \<open>A text level for one document\<close>

text \<open>An instance of the text level that renders and reads one document and one byte slice, at which
  the hypotheses \<open>text_ok\<close> and \<open>b64_ok\<close> are seen to hold.\<close>

definition one_doc :: "json \<Rightarrow> bytes \<Rightarrow> json_text" where
  "one_doc j b = \<lparr>jrender = (\<lambda>_. [0]), jparse = (\<lambda>_. Some j), b64enc = (\<lambda>_. []), b64dec = (\<lambda>_. Some b)\<rparr>"

lemma one_doc_ok [simp]: "text_ok (one_doc j b) j" "b64_ok (one_doc j b) b"
  by (simp_all add: text_ok_def b64_ok_def one_doc_def)

lemma one_doc_sel [simp]:
  "jrender (one_doc j b) d = [0]" "jparse (one_doc j b) t = Some j"
  "b64enc (one_doc j b) x = []" "b64dec (one_doc j b) y = Some b"
  by (simp_all add: one_doc_def)

end
