(* ===== verification/Go_Float.thy ===== *)
theory Go_Float
  imports Complex_Main Go_Json
begin

text \<open>
  Floating point as the price computation uses it: \<open>float64\<close> values, the literals of JSON, and
  \<open>big.Float\<close> with its rounding to nearest, ties to even. A finite number is a sign, a natural
  mantissa and a power of two; \<open>round_ratio p n d\<close> is the quotient \<open>n / d\<close> correctly rounded to \<open>p\<close> bits,
  from which multiplication, division and the reading of literals all come. The lemmas bound
  the error of a rounding relative to the exact value.
\<close>

fun bitlen :: "nat \<Rightarrow> nat" where
  "bitlen n = (if n = 0 then 0 else Suc (bitlen (n div 2)))"

declare bitlen.simps [simp del]

lemma bitlen_bounds: "0 < n \<Longrightarrow> 2 ^ (bitlen n - 1) \<le> n \<and> n < 2 ^ bitlen n \<and> 0 < bitlen n"
proof (induction n rule: bitlen.induct)
  case (1 n)
  show ?case
  proof (cases "n div 2 = 0")
    case True
    then have "n = 1" using "1.prems" by auto
    then show ?thesis by (simp add: bitlen.simps)
  next
    case False
    then have IH: "2 ^ (bitlen (n div 2) - 1) \<le> n div 2" "n div 2 < 2 ^ bitlen (n div 2)" "0 < bitlen (n div 2)"
      using "1.IH" "1.prems" by auto
    have b: "bitlen n = Suc (bitlen (n div 2))" using "1.prems" by (subst bitlen.simps) simp
    have "(2::nat) ^ bitlen (n div 2) = 2 * 2 ^ (bitlen (n div 2) - 1)"
      using IH(3) by (metis Suc_diff_1 power_Suc)
    then have "2 ^ (bitlen n - 1) \<le> n" using IH(1) by (simp add: b)
    moreover have "n < 2 ^ bitlen n" using IH(2) by (simp add: b)
    ultimately show ?thesis by (simp add: b)
  qed
qed

section \<open>Correct rounding\<close>

definition pow2 :: "int \<Rightarrow> nat" where
  "pow2 e = 2 ^ nat e"

text \<open>A power of two at or below \<open>n / d\<close>: the exponent of its leading bit.\<close>

definition lead :: "nat \<Rightarrow> nat \<Rightarrow> int" where
  "lead n d =
     (let e = int (bitlen n) - int (bitlen d)
      in if d * pow2 e \<le> n * pow2 (- e) then e else e - 1)"

definition half_even :: "nat \<Rightarrow> nat \<Rightarrow> nat" where
  "half_even a b =
     (let q = a div b; r = a mod b in if b < 2 * r \<or> (2 * r = b \<and> odd q) then q + 1 else q)"

text \<open>\<open>shift_ratio s n d\<close> is \<open>n / d * 2 ^ s\<close>, rounded to a natural number.\<close>

definition shift_ratio :: "int \<Rightarrow> nat \<Rightarrow> nat \<Rightarrow> nat" where
  "shift_ratio s n d = half_even (n * pow2 s) (d * pow2 (- s))"

definition round_ratio :: "nat \<Rightarrow> nat \<Rightarrow> nat \<Rightarrow> nat \<times> int" where
  "round_ratio p n d = (let s = int p - 1 - lead n d in (shift_ratio s n d, - s))"

section \<open>Floating point numbers\<close>

text \<open>\<open>F64 neg m e\<close> is \<open>m * 2 ^ e\<close>, negated if \<open>neg\<close>.\<close>

datatype float64 = F64 bool nat int | F64Inf bool | F64NaN

record bfloat =
  bprec :: nat
  bneg :: bool
  bmant :: nat
  bexp :: int

text \<open>\<open>new(big.Float).SetInt(i)\<close>: exact, with at least 64 bits of precision.\<close>

definition SetInt :: "int \<Rightarrow> bfloat" where
  "SetInt i = \<lparr>bprec = max 64 (bitlen (nat \<bar>i\<bar>)), bneg = (i < 0), bmant = nat \<bar>i\<bar>, bexp = 0\<rparr>"

definition Mul :: "bfloat \<Rightarrow> bfloat \<Rightarrow> bfloat" where
  "Mul x y =
     (let p = max (bprec x) (bprec y); n = bmant x * bmant y; g = (bneg x \<noteq> bneg y) in
      if n = 0 then \<lparr>bprec = p, bneg = g, bmant = 0, bexp = 0\<rparr>
      else case round_ratio p n 1 of
             (q, e) \<Rightarrow> \<lparr>bprec = p, bneg = g, bmant = q, bexp = e + bexp x + bexp y\<rparr>)"

text \<open>The divisor is not zero.\<close>

definition Quo :: "bfloat \<Rightarrow> bfloat \<Rightarrow> bfloat" where
  "Quo x y =
     (let p = max (bprec x) (bprec y); g = (bneg x \<noteq> bneg y) in
      if bmant x = 0 then \<lparr>bprec = p, bneg = g, bmant = 0, bexp = 0\<rparr>
      else case round_ratio p (bmant x) (bmant y) of
             (q, e) \<Rightarrow> \<lparr>bprec = p, bneg = g, bmant = q, bexp = e + bexp x - bexp y\<rparr>)"

text \<open>\<open>x.Int(nil)\<close>: truncation towards zero.\<close>

definition bf_Int :: "bfloat \<Rightarrow> int" where
  "bf_Int x =
     (let m = bmant x * pow2 (bexp x) div pow2 (- bexp x) in if bneg x then - int m else int m)"

text \<open>\<open>big.NewFloat(f)\<close>: exact with 53 bits; it panics for NaN, and \<open>None\<close> is an infinity.\<close>

fun NewFloat :: "float64 \<Rightarrow> bfloat option res" where
  "NewFloat (F64 g m e) = Ok (Some \<lparr>bprec = 53, bneg = g, bmant = m, bexp = e\<rparr>)"
| "NewFloat (F64Inf g) = Ok None"
| "NewFloat F64NaN = Panic ''NewFloat(NaN)''"

section \<open>Literals\<close>

text \<open>
  \<open>strconv.ParseFloat\<close> on a JSON number: digits with an optional fraction and exponent, rounded once to
  53 bits, or to a multiple of \<open>2 ^ -1074\<close> near zero; out of range is an error.
\<close>

definition float_of_ratio :: "bool \<Rightarrow> nat \<Rightarrow> nat \<Rightarrow> float64 res" where
  "float_of_ratio g n d =
     (if n = 0 then Ok (F64 g 0 0)
      else let s = min (52 - lead n d) 1074; q = shift_ratio s n d
           in if q * pow2 (- s) \<ge> 2 ^ 1024 * pow2 s then Fail (Errorf ''strconv.ParseFloat: value out of range'')
              else Ok (F64 g q (- s)))"

definition split_char :: "char \<Rightarrow> string \<Rightarrow> string \<times> string" where
  "split_char c s = (takeWhile (\<lambda>x. x \<noteq> c) s, drop 1 (dropWhile (\<lambda>x. x \<noteq> c) s))"

definition parse_literal :: "string \<Rightarrow> float64 res" where
  "parse_literal s =
     (let g = (s \<noteq> [] \<and> hd s = CHR ''-''); t = (if g then tl s else s);
          t' = map (\<lambda>c. if c = CHR ''E'' then CHR ''e'' else c) t
      in case split_char CHR ''e'' t' of
           (m, x) \<Rightarrow>
             (case split_char CHR ''.'' m of
                (i, f) \<Rightarrow>
                  (case (parse_dec (i @ f), if x = [] then Some 0 else set_string10 x) of
                     (Some k, Some e) \<Rightarrow>
                       (let z = e - int (length f) in float_of_ratio g (k * 10 ^ nat z) (10 ^ nat (- z)))
                   | _ \<Rightarrow> Fail bad_json)))"

fun dec_float64 :: "float64 decoder" where
  "dec_float64 (JNum i) old = float_of_ratio (i < 0) (nat \<bar>i\<bar>) 1"
| "dec_float64 (JReal s) old = parse_literal s"
| "dec_float64 JNull old = Ok old"
| "dec_float64 _ old = Fail bad_json"

section \<open>The error of a rounding\<close>

lemma pow2_pos [simp]: "0 < pow2 e" "pow2 e \<noteq> 0"
  by (simp_all add: pow2_def)

lemma pow2_ratio: "real (pow2 e) = 2 powi e * real (pow2 (- e))"
  by (cases "0 \<le> e") (simp_all add: pow2_def power_int_def flip: power_mult_distrib)

lemma half_even_error:
  assumes "0 < b"
  shows "\<bar>real (half_even a b) - real a / real b\<bar> \<le> 1 / 2"
proof -
  define q r where "q = a div b" and "r = a mod b"
  have ab: "real a / real b = real q + real r / real b"
    using assms by (simp add: q_def r_def add_divide_eq_if_simps flip: of_nat_mult of_nat_add)
  have r: "r < b" using assms by (simp add: r_def)
  have he: "half_even a b = (if b < 2 * r \<or> (2 * r = b \<and> odd q) then q + 1 else q)"
    by (simp add: half_even_def q_def r_def Let_def)
  show ?thesis
  proof (cases "b < 2 * r \<or> (2 * r = b \<and> odd q)")
    case True
    then have "real b \<le> 2 * real r" by auto
    then have "1 / 2 \<le> real r / real b" using assms by (simp add: field_simps)
    moreover have "real r / real b \<le> 1" using r assms by simp
    ultimately show ?thesis using True by (simp add: he ab)
  next
    case False
    then have "2 * real r \<le> real b" by auto
    then have "real r / real b \<le> 1 / 2" using assms by (simp add: field_simps)
    then show ?thesis using False by (auto simp: he ab)
  qed
qed

lemma shift_ratio_error:
  assumes "0 < d"
  shows "\<bar>real (shift_ratio s n d) - real n / real d * 2 powi s\<bar> \<le> 1 / 2"
proof -
  have "real (n * pow2 s) / real (d * pow2 (- s)) = real n / real d * 2 powi s"
    using pow2_ratio [of s] by simp
  moreover have "0 < d * pow2 (- s)" using assms by simp
  ultimately show ?thesis
    using half_even_error [of "d * pow2 (- s)" "n * pow2 s"] by (simp add: shift_ratio_def)
qed

lemma lead_le:
  assumes "0 < n" and "0 < d"
  shows "2 powi lead n d \<le> real n / real d"
proof -
  define e where "e = int (bitlen n) - int (bitlen d)"
  show ?thesis
  proof (cases "d * pow2 e \<le> n * pow2 (- e)")
    case True
    then have "real (d * pow2 e) \<le> real (n * pow2 (- e))" by (rule of_nat_mono)
    then have "(real d * 2 powi e) * real (pow2 (- e)) \<le> real n * real (pow2 (- e))"
      using pow2_ratio [of e] by (simp add: mult_ac)
    then have "real d * 2 powi e \<le> real n" by simp
    then show ?thesis using True assms by (simp add: lead_def e_def [symmetric] Let_def field_simps)
  next
    case False
    have n: "2 ^ (bitlen n - 1) \<le> real n" "0 < bitlen n"
      using bitlen_bounds [OF assms(1)] by (simp_all flip: of_nat_le_iff)
    have d: "real d \<le> 2 ^ bitlen d"
      using bitlen_bounds [OF assms(2)] by (metis less_imp_le of_nat_le_iff of_nat_numeral of_nat_power)
    have "2 powi (e - 1) = (2::real) ^ (bitlen n - 1) / 2 ^ bitlen d"
    proof -
      have "e - 1 = int (bitlen n - 1) - int (bitlen d)" using n(2) by (simp add: e_def)
      then show ?thesis by (simp add: power_int_diff)
    qed
    also have "\<dots> \<le> real n / real d"
      using n(1) d assms by (intro frac_le) auto
    finally show ?thesis using False by (simp add: lead_def e_def [symmetric] Let_def)
  qed
qed

lemma round_ratio_error:
  assumes "0 < n" and "0 < d" and "round_ratio p n d = (q, e)"
  shows "\<bar>real q * 2 powi e - real n / real d\<bar> \<le> real n / real d / 2 ^ p"
proof -
  define s where "s = int p - 1 - lead n d"
  define x where "x = real n / real d"
  have qe: "q = shift_ratio s n d" "e = - s"
    using assms(3) by (auto simp: round_ratio_def Let_def s_def)
  have half: "\<bar>real q - x * 2 powi s\<bar> \<le> 1 / 2"
    using shift_ratio_error [OF assms(2)] by (simp add: qe x_def)
  have split: "real q * 2 powi e - x = (real q - x * 2 powi s) * 2 powi e"
    by (simp add: qe(2) power_int_minus field_simps)
  have "\<bar>real q * 2 powi e - x\<bar> = \<bar>real q - x * 2 powi s\<bar> * 2 powi e"
    unfolding split by (simp add: abs_mult)
  also have "\<dots> \<le> 1 / 2 * 2 powi e"
    using half by (rule mult_right_mono) simp
  also have "\<dots> = 2 powi lead n d / 2 ^ p"
    by (simp add: qe(2) s_def power_int_diff power_int_add)
  also have "\<dots> \<le> x / 2 ^ p"
    unfolding x_def by (intro divide_right_mono lead_le assms) simp
  finally show ?thesis by (simp add: x_def)
qed

text \<open>The exact value of a number that is not negative.\<close>

definition bval :: "bfloat \<Rightarrow> real" where
  "bval x = real (bmant x) * 2 powi bexp x"

lemma bval_nonneg [simp]: "0 \<le> bval x"
  by (simp add: bval_def)

lemma round_64:
  fixes x v :: real
  assumes "\<bar>v - x\<bar> \<le> x / 2 ^ p" and "0 \<le> x" and "64 \<le> p"
  shows "\<bar>v - x\<bar> \<le> x / 2 ^ 64"
proof -
  have "(2::real) ^ 64 \<le> 2 ^ p"
    using assms(3) by (rule power_increasing) simp
  then have "x / 2 ^ p \<le> x / 2 ^ 64"
    using assms(2) by (intro divide_left_mono) simp_all
  with assms(1) show ?thesis by (rule order_trans)
qed

lemma Mul_error:
  assumes "64 \<le> max (bprec x) (bprec y)"
  shows "\<bar>bval (Mul x y) - bval x * bval y\<bar> \<le> bval x * bval y / 2 ^ 64"
proof (cases "bmant x * bmant y = 0")
  case True
  then show ?thesis by (auto simp: Mul_def Let_def bval_def)
next
  case False
  obtain q e where qe: "round_ratio (max (bprec x) (bprec y)) (bmant x * bmant y) 1 = (q, e)"
    by fastforce
  define m where "m = real (bmant x * bmant y)"
  define t where "t = (2::real) powi (bexp x + bexp y)"
  have err: "\<bar>real q * 2 powi e - m\<bar> \<le> m / 2 ^ 64"
    using round_ratio_error [OF _ _ qe] False assms by (intro round_64) (auto simp: m_def)
  have xy: "bval x * bval y = m * t"
    by (simp add: bval_def m_def t_def power_int_add)
  have "bval (Mul x y) = real q * 2 powi e * t"
    using False qe by (simp add: Mul_def Let_def bval_def t_def power_int_add add.assoc)
  then have "\<bar>bval (Mul x y) - bval x * bval y\<bar> = \<bar>real q * 2 powi e - m\<bar> * t"
    by (simp add: xy t_def abs_mult flip: left_diff_distrib)
  also have "\<dots> \<le> m / 2 ^ 64 * t" using err by (rule mult_right_mono) (simp add: t_def)
  finally show ?thesis by (simp add: xy)
qed

lemma Quo_error:
  assumes "64 \<le> max (bprec x) (bprec y)" and "0 < bmant y"
  shows "\<bar>bval (Quo x y) - bval x / bval y\<bar> \<le> bval x / bval y / 2 ^ 64"
proof (cases "bmant x = 0")
  case True
  then show ?thesis by (simp add: Quo_def Let_def bval_def)
next
  case False
  obtain q e where qe: "round_ratio (max (bprec x) (bprec y)) (bmant x) (bmant y) = (q, e)"
    by fastforce
  define m where "m = real (bmant x) / real (bmant y)"
  define t where "t = (2::real) powi (bexp x - bexp y)"
  have err: "\<bar>real q * 2 powi e - m\<bar> \<le> m / 2 ^ 64"
    using round_ratio_error [OF _ _ qe] False assms by (intro round_64) (auto simp: m_def)
  have xy: "bval x / bval y = m * t"
    by (simp add: bval_def m_def t_def power_int_diff)
  have "bval (Quo x y) = real q * 2 powi e * t"
    using False qe by (simp add: Quo_def Let_def bval_def t_def power_int_add power_int_diff)
  then have "\<bar>bval (Quo x y) - bval x / bval y\<bar> = \<bar>real q * 2 powi e - m\<bar> * t"
    by (simp add: xy t_def abs_mult flip: left_diff_distrib)
  also have "\<dots> \<le> m / 2 ^ 64 * t" using err by (rule mult_right_mono) (simp add: t_def)
  finally show ?thesis by (simp add: xy)
qed

lemma bf_Int_trunc:
  assumes "\<not> bneg x"
  shows "real_of_int (bf_Int x) \<le> bval x" and "bval x < real_of_int (bf_Int x) + 1"
proof -
  define a b where "a = bmant x * pow2 (bexp x)" and "b = pow2 (- bexp x)"
  have b: "0 < b" by (simp add: b_def)
  have v: "bval x = real a / real b"
    using pow2_ratio [of "bexp x"] by (simp add: bval_def a_def b_def)
  have i: "bf_Int x = int (a div b)"
    using assms by (simp add: bf_Int_def Let_def a_def b_def)
  have ab: "real a / real b = real (a div b) + real (a mod b) / real b"
    using b by (simp add: add_divide_eq_if_simps flip: of_nat_mult of_nat_add)
  have "real (a mod b) / real b < 1" "0 \<le> real (a mod b) / real b" using b by simp_all
  then show "real_of_int (bf_Int x) \<le> bval x" "bval x < real_of_int (bf_Int x) + 1"
    by (simp_all add: v i ab)
qed

end
