(* ===== verification/Go_Strconv.thy ===== *)
theory Go_Strconv
  imports Go_Prelude
begin

text \<open>
  More of Go's \<open>strconv\<close> and \<open>encoding/hex\<close>: integers with a base prefix (\<open>ParseInt(s, 0, n)\<close>), and
  hexadecimal text. Used by the configuration, the topology and the API.
\<close>

lemma res_map_inverse: "(\<And>x. x \<in> set xs \<Longrightarrow> f (g x) = Ok x) \<Longrightarrow> res_map f (map g xs) = Ok xs"
  by (induction xs) auto

text \<open>\<open>if err != nil { return fmt.Errorf("...: %w", err) }\<close>.\<close>

fun res_wrap :: "string \<Rightarrow> 'a res \<Rightarrow> 'a res" where
  "res_wrap msg (Ok x) = Ok x"
| "res_wrap msg (Fail e) = Fail (Wrapf msg e)"
| "res_wrap msg (Panic p) = Panic p"

lemma res_wrap_iff [res_simps]:
  "res_wrap msg m = Ok x \<longleftrightarrow> m = Ok x"
  "res_wrap msg m = Fail e \<longleftrightarrow> (\<exists>e'. m = Fail e' \<and> e = Wrapf msg e')"
  "res_wrap msg m = Panic p \<longleftrightarrow> m = Panic p"
  by (cases m; auto)+

section \<open>Integers with a base prefix\<close>

definition lower_ascii :: "char \<Rightarrow> char" where
  "lower_ascii c =
     (let n = of_char c in if (65::nat) \<le> n \<and> n \<le> 90 then char_of (n + 32) else c)"

text \<open>The value of a digit or letter as \<open>ParseUint\<close> reads it.\<close>

definition alnum_val :: "char \<Rightarrow> nat option" where
  "alnum_val c =
     (let n = of_char (lower_ascii c) in
      if (48::nat) \<le> n \<and> n \<le> 57 then Some (n - 48)
      else if 97 \<le> n \<and> n \<le> 122 then Some (n - 87) else None)"

fun parse_base :: "nat \<Rightarrow> nat \<Rightarrow> string \<Rightarrow> nat option" where
  "parse_base b acc [] = Some acc"
| "parse_base b acc (c # cs) =
     (if c = CHR ''_'' then parse_base b acc cs
      else case alnum_val c of
             None \<Rightarrow> None
           | Some d \<Rightarrow> (if d < b then parse_base b (b * acc + d) cs else None))"

text \<open>\<open>underscoreOK\<close>: an underscore only between digits, the base prefix counting as a digit.\<close>

fun underscores_ok :: "bool \<Rightarrow> string \<Rightarrow> bool" where
  "underscores_ok digit [] = True"
| "underscores_ok digit (c # cs) =
     (if c = CHR ''_'' then digit \<and> cs \<noteq> [] \<and> hd cs \<noteq> CHR ''_'' \<and> underscores_ok False cs
      else underscores_ok True cs)"

definition parse_uint0 :: "string \<Rightarrow> nat option" where
  "parse_uint0 s =
     (case s of
        [] \<Rightarrow> None
      | c # r \<Rightarrow>
          (if c \<noteq> CHR ''0'' then (if underscores_ok False s then parse_base 10 0 s else None)
           else case r of
                  [] \<Rightarrow> Some 0
                | d # t \<Rightarrow>
                    (let l = lower_ascii d;
                         b = (if l = CHR ''b'' then 2 else if l = CHR ''o'' then 8
                              else if l = CHR ''x'' then 16 else 0)
                     in if b \<noteq> 0 \<and> t \<noteq> []
                        then (if underscores_ok True t then parse_base b 0 t else None)
                        else if underscores_ok True r then parse_base 8 0 r else None)))"

text \<open>\<open>strconv.ParseInt(s, 0, n)\<close>: an optional sign, the magnitude, the range of \<open>n\<close> bits.\<close>

definition parse_int0 :: "nat \<Rightarrow> string \<Rightarrow> int res" where
  "parse_int0 n s =
     (let neg = (s \<noteq> [] \<and> hd s = CHR ''-'');
          mag = (if s \<noteq> [] \<and> (hd s = CHR ''-'' \<or> hd s = CHR ''+'') then tl s else s)
      in case parse_uint0 mag of
           None \<Rightarrow> Fail (Errorf ''strconv.ParseInt: invalid syntax'')
         | Some u \<Rightarrow>
             (let i = (if neg then - int u else int u) in
              if - (2 ^ (n - 1)) \<le> i \<and> i < 2 ^ (n - 1) then Ok i
              else Fail (Errorf ''strconv.ParseInt: value out of range'')))"

section \<open>Hexadecimal text\<close>

definition hex_val :: "char \<Rightarrow> nat option" where
  "hex_val c = (case alnum_val c of Some d \<Rightarrow> (if d < 16 then Some d else None) | None \<Rightarrow> None)"

text \<open>\<open>hex.DecodeString\<close>.\<close>

fun hex_decode :: "string \<Rightarrow> bytes option" where
  "hex_decode [] = Some []"
| "hex_decode [c] = None"
| "hex_decode (c # d # cs) =
     (case (hex_val c, hex_val d, hex_decode cs) of
        (Some x, Some y, Some r) \<Rightarrow> Some (of_nat (16 * x + y) # r)
      | _ \<Rightarrow> None)"

definition hex_digit :: "nat \<Rightarrow> char" where
  "hex_digit d = char_of (if d < 10 then 48 + d else 87 + d)"

definition hex_encode :: "bytes \<Rightarrow> string" where
  "hex_encode b = concat (map (\<lambda>x. [hex_digit (unat x div 16), hex_digit (unat x mod 16)]) b)"

lemma byte_less: "unat (x :: byte) < 256"
  using unsigned_less [where 'a = nat, of x] by simp

lemma of_char_hex_digit: "d < 16 \<Longrightarrow> (of_char (hex_digit d) :: nat) = (if d < 10 then 48 + d else 87 + d)"
  by (simp add: hex_digit_def)

lemma lower_ascii_hex_digit: "d < 16 \<Longrightarrow> lower_ascii (hex_digit d) = hex_digit d"
  by (simp add: lower_ascii_def of_char_hex_digit Let_def)

lemma hex_val_hex_digit [simp]: "d < 16 \<Longrightarrow> hex_val (hex_digit d) = Some d"
  by (simp add: hex_val_def alnum_val_def lower_ascii_hex_digit of_char_hex_digit Let_def)

lemma hex_decode_encode [str_simps]: "hex_decode (hex_encode b) = Some b"
proof (induction b)
  case (Cons x b)
  have "unat x div 16 < 16" using byte_less [of x] by simp
  with Cons show ?case by (simp add: hex_encode_def)
qed (simp add: hex_encode_def)

text \<open>\<open>strings.TrimSuffix(s, "\n")\<close>.\<close>

definition trim_newline :: "string \<Rightarrow> string" where
  "trim_newline s = (if s \<noteq> [] \<and> last s = CHR 0x0A then butlast s else s)"

lemma trim_newline_append [simp]: "trim_newline (s @ [CHR 0x0A]) = s"
  by (simp add: trim_newline_def)

section \<open>Decimal text with a base prefix\<close>

lemma alnum_val_digit_char: "d < 10 \<Longrightarrow> alnum_val (digit_char d) = Some d"
  by (simp add: alnum_val_def lower_ascii_def of_char_digit_char Let_def)

lemma digit_char_no_underscore: "d < 10 \<Longrightarrow> digit_char d \<noteq> CHR ''_''"
  using of_char_digit_char [of d] by (auto dest!: arg_cong [where f = "of_char :: char \<Rightarrow> nat"])

lemma show_nat_no_underscore: "CHR ''_'' \<notin> set (show_nat n)"
  by (induction n rule: show_nat.induct)
    (subst show_nat.simps, auto simp: digit_char_no_underscore [THEN not_sym])

lemma underscores_ok_plain: "CHR ''_'' \<notin> set s \<Longrightarrow> underscores_ok b s"
  by (induction s arbitrary: b) auto

lemma parse_base_append:
  "parse_base b acc (s @ t) = (case parse_base b acc s of None \<Rightarrow> None | Some x \<Rightarrow> parse_base b x t)"
  by (induction s arbitrary: acc) (auto split: option.splits)

lemma parse_base_show_nat: "parse_base 10 0 (show_nat n) = Some n"
proof (induction n rule: show_nat.induct)
  case (1 n)
  show ?case
  proof (cases "n < 10")
    case True
    then show ?thesis
      by (subst show_nat.simps) (simp add: alnum_val_digit_char digit_char_no_underscore)
  next
    case False
    then have "parse_base 10 0 (show_nat (n div 10)) = Some (n div 10)" by (rule 1)
    with False show ?thesis
      by (subst show_nat.simps) (simp add: parse_base_append alnum_val_digit_char digit_char_no_underscore)
  qed
qed

lemma hd_show_nat: "0 < n \<Longrightarrow> hd (show_nat n) \<noteq> CHR ''0''"
proof (induction n rule: show_nat.induct)
  case (1 n)
  have z: "digit_char d \<noteq> CHR ''0''" if "0 < d" "d < 10" for d
    using that of_char_digit_char [of d] by (auto dest!: arg_cong [where f = "of_char :: char \<Rightarrow> nat"])
  show ?case
  proof (cases "n < 10")
    case True
    with 1 z show ?thesis by (subst show_nat.simps) simp
  next
    case False
    then show ?thesis using 1 by (subst show_nat.simps) simp
  qed
qed

lemma parse_uint0_show_nat [str_simps]: "parse_uint0 (show_nat n) = Some n"
proof (cases "n = 0")
  case True
  then show ?thesis by (simp add: parse_uint0_def show_nat.simps digit_char_def char_of_def bit_Suc_0_iff)
next
  case False
  obtain c r where s: "show_nat n = c # r" by (cases "show_nat n") simp_all
  with False hd_show_nat [of n] have "c \<noteq> CHR ''0''" by simp
  then show ?thesis
    using parse_base_show_nat [of n] underscores_ok_plain [OF show_nat_no_underscore [of n]] show_nat_no_underscore [of n]
    by (auto simp: parse_uint0_def s)
qed

end
