(* ===== verification/Relayer_Config.thy ===== *)
theory Relayer_Config
  imports Go_Json Go_Float Go_Strconv "HOL-Library.AList"
begin

text \<open>
  The configuration of the relayer: \<open>config/env.go\<close>, \<open>config/config.go\<close> and \<open>config/relayer/config.go\<close>,
  with \<open>time.ParseDuration\<close>. What viper reads from a file, \<open>defaults.Set\<close>, \<open>mergo.Merge\<close> and
  \<open>zerolog.ParseLevel\<close> are arguments.
\<close>

section \<open>Durations\<close>

text \<open>\<open>leadingInt\<close>: \<open>None\<close> is the overflow error.\<close>

fun leading_int :: "nat \<Rightarrow> string \<Rightarrow> (nat \<times> string) option" where
  "leading_int x [] = Some (x, [])"
| "leading_int x (c # s) =
     (case digit_val c of
        None \<Rightarrow> Some (x, c # s)
      | Some d \<Rightarrow> (if x > 2 ^ 63 div 10 \<or> x * 10 + d > 2 ^ 63 then None else leading_int (x * 10 + d) s))"

text \<open>\<open>leadingFraction\<close>: the digits that fit, how many they are, and the rest.\<close>

fun leading_fraction :: "bool \<Rightarrow> nat \<Rightarrow> nat \<Rightarrow> string \<Rightarrow> nat \<times> nat \<times> string" where
  "leading_fraction over x k [] = (x, k, [])"
| "leading_fraction over x k (c # s) =
     (case digit_val c of
        None \<Rightarrow> (x, k, c # s)
      | Some d \<Rightarrow>
          (if over \<or> x > (2 ^ 63 - 1) div 10 \<or> x * 10 + d > 2 ^ 63 then leading_fraction True x k s
           else leading_fraction False (x * 10 + d) (Suc k) s))"

definition duration_units :: "(string \<times> nat) list" where
  "duration_units =
     [(''ns'', 1), (''us'', 1000), ([CHR 0xC2, CHR 0xB5, CHR ''s''], 1000), ([CHR 0xCE, CHR 0xBC, CHR ''s''], 1000),
      (''ms'', 1000000), (''s'', 1000000000), (''m'', 60000000000), (''h'', 3600000000000)]"

text \<open>\<open>uint64(float64(f) * (float64(unit) / scale))\<close>, three roundings and a truncation, for positive \<open>f\<close>.\<close>

definition fraction_of :: "nat \<Rightarrow> nat \<Rightarrow> nat \<Rightarrow> nat" where
  "fraction_of f unit k =
     (case (round_ratio 53 f 1, round_ratio 53 unit (10 ^ k)) of
        ((m1, e1), (m2, e2)) \<Rightarrow>
          (case round_ratio 53 (m1 * m2) 1 of
             (m, e) \<Rightarrow> (let x = e + e1 + e2 in m * pow2 x div pow2 (- x))))"

definition is_unit_char :: "char \<Rightarrow> bool" where
  "is_unit_char c \<longleftrightarrow> c \<noteq> CHR ''.'' \<and> digit_val c = None"

text \<open>One number with its unit, and the rest of the text.\<close>

definition duration_part :: "string \<Rightarrow> (nat \<times> string) option" where
  "duration_part s =
     (case leading_int 0 s of
        None \<Rightarrow> None
      | Some (v, s1) \<Rightarrow>
          (let pre = length s1 \<noteq> length s;
               (f, k, s2, post) =
                 (if s1 \<noteq> [] \<and> hd s1 = CHR ''.''
                  then (case leading_fraction False 0 0 (tl s1) of (f, k, r) \<Rightarrow> (f, k, r, length r \<noteq> length (tl s1)))
                  else (0, 0, s1, False));
               u = takeWhile is_unit_char s2
           in if \<not> pre \<and> \<not> post then None
              else case map_of duration_units u of
                     None \<Rightarrow> None
                   | Some unit \<Rightarrow>
                       (if v > 2 ^ 63 div unit then None
                        else (let w = v * unit + (if f > 0 then fraction_of f unit k else 0)
                              in if w > 2 ^ 63 then None else Some (w, dropWhile is_unit_char s2)))))"

text \<open>Every part is at least one character long, so the length of the text bounds their number.\<close>

fun duration_parts :: "nat \<Rightarrow> nat \<Rightarrow> string \<Rightarrow> nat option" where
  "duration_parts fuel d [] = Some d"
| "duration_parts 0 d (c # s) = None"
| "duration_parts (Suc n) d (c # s) =
     (case duration_part (c # s) of
        None \<Rightarrow> None
      | Some (v, r) \<Rightarrow> (if d + v > 2 ^ 63 then None else duration_parts n (d + v) r))"

definition ParseDuration :: "string \<Rightarrow> int res" where
  "ParseDuration orig =
     (let neg = (orig \<noteq> [] \<and> hd orig = CHR ''-'');
          s = (if orig \<noteq> [] \<and> (hd orig = CHR ''-'' \<or> hd orig = CHR ''+'') then tl orig else orig);
          bad = Errorf (''time: invalid duration '' @ orig)
      in if s = ''0'' then Ok 0
         else if s = [] then Fail bad
         else case duration_parts (length s) 0 s of
                None \<Rightarrow> Fail bad
              | Some d \<Rightarrow>
                  (if neg then Ok (- int d) else if d > 2 ^ 63 - 1 then Fail bad else Ok (int d)))"

text \<open>The length is enough: more fuel never changes the result.\<close>

lemma leading_int_shorter: "leading_int x s = Some (v, r) \<Longrightarrow> length r \<le> length s"
  by (induction x s rule: leading_int.induct) (auto split: option.splits if_splits)

lemma leading_fraction_shorter: "leading_fraction over x k s = (f, j, r) \<Longrightarrow> length r \<le> length s"
  by (induction over x k s rule: leading_fraction.induct) (auto split: option.splits if_splits)

lemma drop_unit_shorter:
  assumes "map_of duration_units (takeWhile is_unit_char s) = Some unit"
  shows "length (dropWhile is_unit_char s) < length s"
proof -
  have "takeWhile is_unit_char s \<noteq> []" using assms by (auto simp: duration_units_def)
  then have "0 < length (takeWhile is_unit_char s)" by simp
  moreover have "length (takeWhile is_unit_char s) + length (dropWhile is_unit_char s) = length s"
    by (metis length_append takeWhile_dropWhile_id)
  ultimately show ?thesis by linarith
qed

lemma last_part:
  "(if A then None else case M of None \<Rightarrow> None
      | Some u \<Rightarrow> (if P u then None else if Q u then None else Some (W u, rest))) = Some (v, r) \<Longrightarrow>
   \<exists>u. M = Some u \<and> r = rest"
  by (auto simp: Let_def split: option.splits if_splits)

lemma duration_part_shorter:
  assumes "duration_part s = Some (v, r)"
  shows "length r < length s"
proof -
  have "leading_int 0 s \<noteq> None"
  proof
    assume "leading_int 0 s = None"
    with assms show False by (simp add: duration_part_def)
  qed
  then obtain x s1 where 1: "leading_int 0 s = Some (x, s1)" by fast
  let ?q = "if s1 \<noteq> [] \<and> hd s1 = CHR ''.''
        then (case leading_fraction False 0 0 (tl s1) of (f, k, r) \<Rightarrow> (f, k, r, length r \<noteq> length (tl s1)))
        else (0, 0, s1, False)"
  obtain f k s2 post where 2: "?q = (f, k, s2, post)" by (rule prod_cases4 [of ?q])
  have "length s2 \<le> length s1"
    using 2 leading_fraction_shorter [of False 0 0 "tl s1"]
    by (cases "leading_fraction False 0 0 (tl s1)") (fastforce split: if_splits)
  moreover have "length s1 \<le> length s" by (rule leading_int_shorter [OF 1])
  moreover obtain unit where "map_of duration_units (takeWhile is_unit_char s2) = Some unit" "r = dropWhile is_unit_char s2"
    using last_part [OF assms [unfolded duration_part_def 1 Let_def option.case prod.case 2]] by blast
  ultimately show ?thesis using drop_unit_shorter [of s2 unit] by simp
qed

lemma duration_parts_fuel:
  "length s \<le> n \<Longrightarrow> duration_parts n d s = duration_parts (length s) d s"
proof (induction "length s" arbitrary: s n d rule: less_induct)
  case less
  show ?case
  proof (cases s)
    case (Cons c t)
    obtain m where n: "n = Suc m" "length t \<le> m" using less.prems Cons by (cases n) auto
    show ?thesis
    proof (cases "duration_part (c # t)")
      case (Some p)
      obtain v r where p: "p = (v, r)" by (cases p)
      then have len: "length r \<le> length t" using duration_part_shorter [of "c # t" v r] Some by simp
      have "duration_parts m (d + v) r = duration_parts (length r) (d + v) r"
        "duration_parts (length t) (d + v) r = duration_parts (length r) (d + v) r"
        using less.hyps [of r m "d + v"] less.hyps [of r "length t" "d + v"] len n(2) Cons by simp_all
      then show ?thesis by (simp add: Cons n(1) Some p)
    qed (simp add: Cons n(1))
  qed (cases n; simp)
qed

section \<open>The relayer's part\<close>

record topology_configuration =
  EncryptionKey :: string
  Url :: string
  Path :: string

record raw_mpc_config =
  raw_KeysharePath :: string
  raw_FrostKeysharePath :: string
  raw_Key :: string
  raw_Port :: string
  raw_Topology :: topology_configuration
  raw_CommHealthCheckInterval :: string

record raw_bully_config =
  raw_PingWaitTime :: string
  raw_PingBackOff :: string
  raw_PingInterval :: string
  raw_ElectionWaitTime :: string
  raw_BullyWaitTime :: string

record coinmarketcap_config =
  cmc_Url :: string
  cmc_ApiKey :: string

record solver_credentials =
  SecretKey :: string
  AccessKey :: string

record raw_relayer_config =
  raw_OpenTelemetryCollectorURL :: string
  raw_LogLevel :: string
  raw_LogFile :: string
  raw_HealthPort :: string
  raw_Env :: string
  raw_Id :: string
  raw_MpcConfig :: raw_mpc_config
  raw_BullyConfig :: raw_bully_config
  raw_Coinmarketcap :: coinmarketcap_config
  raw_Solver :: solver_credentials
  raw_ApiAddr :: string

record mpc_config =
  mpc_Topology :: topology_configuration
  mpc_Port :: "16 word"
  mpc_KeysharePath :: string
  mpc_FrostKeysharePath :: string
  mpc_Key :: string
  CommHealthCheckInterval :: int

record bully_config =
  PingWaitTime :: int
  PingBackOff :: int
  PingInterval :: int
  ElectionWaitTime :: int
  BullyWaitTime :: int

record 'lvl relayer_config =
  OpenTelemetryCollectorURL :: string
  LogLevel :: 'lvl
  LogFile :: string
  HealthPort :: "16 word"
  rc_Env :: string
  rc_Id :: string
  MpcConfig :: mpc_config
  rc_BullyConfig :: bully_config
  rc_Coinmarketcap :: coinmarketcap_config
  rc_Solver :: solver_credentials
  ApiAddr :: string

text \<open>The \<open>default\<close> tags: what an empty field gets.\<close>

definition or_default :: "string \<Rightarrow> string \<Rightarrow> string" where
  "or_default s d = (if s = [] then d else s)"

definition tagged_defaults :: "raw_relayer_config \<Rightarrow> raw_relayer_config" where
  "tagged_defaults c = c\<lparr>
     raw_LogLevel := or_default (raw_LogLevel c) ''info'',
     raw_LogFile := or_default (raw_LogFile c) ''out.log'',
     raw_HealthPort := or_default (raw_HealthPort c) ''9001'',
     raw_ApiAddr := or_default (raw_ApiAddr c) ''0.0.0.0:3000'',
     raw_Coinmarketcap := (raw_Coinmarketcap c)\<lparr>
       cmc_Url := or_default (cmc_Url (raw_Coinmarketcap c)) ''https://pro-api.coinmarketcap.com''\<rparr>,
     raw_MpcConfig := (raw_MpcConfig c)\<lparr>
       raw_Port := or_default (raw_Port (raw_MpcConfig c)) ''9000'',
       raw_CommHealthCheckInterval := or_default (raw_CommHealthCheckInterval (raw_MpcConfig c)) ''5m''\<rparr>,
     raw_BullyConfig :=
       \<lparr>raw_PingWaitTime = or_default (raw_PingWaitTime (raw_BullyConfig c)) ''1s'',
        raw_PingBackOff = or_default (raw_PingBackOff (raw_BullyConfig c)) ''1s'',
        raw_PingInterval = or_default (raw_PingInterval (raw_BullyConfig c)) ''1s'',
        raw_ElectionWaitTime = or_default (raw_ElectionWaitTime (raw_BullyConfig c)) ''2s'',
        raw_BullyWaitTime = or_default (raw_BullyWaitTime (raw_BullyConfig c)) ''3m''\<rparr>\<rparr>"

definition raw_Validate :: "raw_relayer_config \<Rightarrow> unit res" where
  "raw_Validate c =
     (let t = raw_Topology (raw_MpcConfig c) in
      res_bind (res_guard (EncryptionKey t \<noteq> []) (Errorf ''topology configuration encryption key not provided'')) (\<lambda>_.
      res_bind (res_guard (Url t \<noteq> []) (Errorf ''topology configuration url not provided'')) (\<lambda>_.
      res_guard (Path t \<noteq> []) (Errorf ''topology configuration path not provided''))))"

definition parse_port :: "string \<Rightarrow> string \<Rightarrow> (16 word) res" where
  "parse_port msg s =
     res_bind (res_wrap msg (parse_int0 16 s)) (\<lambda>port.
     if port < 0 \<or> port > 65535
     then Fail (Errorf (''mpc port '' @ show_int port @ '' is out of valid range for uint16''))
     else Ok (word_of_int port))"

definition parseMpcConfig :: "raw_relayer_config \<Rightarrow> mpc_config res" where
  "parseMpcConfig c =
     (let m = raw_MpcConfig c in
      res_bind (parse_port ''unable to parse mpc port from config'' (raw_Port m)) (\<lambda>port.
      res_bind (res_wrap ''unable to parse communication health check interval time''
        (ParseDuration (raw_CommHealthCheckInterval m))) (\<lambda>d.
      Ok \<lparr>mpc_Topology = raw_Topology m, mpc_Port = port, mpc_KeysharePath = raw_KeysharePath m,
          mpc_FrostKeysharePath = raw_FrostKeysharePath m, mpc_Key = raw_Key m, CommHealthCheckInterval = d\<rparr>)))"

definition parseBullyConfig :: "raw_relayer_config \<Rightarrow> bully_config res" where
  "parseBullyConfig c =
     (let b = raw_BullyConfig c in
      res_bind (res_wrap ''unable to parse bully election wait time'' (ParseDuration (raw_ElectionWaitTime b))) (\<lambda>e.
      res_bind (res_wrap ''unable to parse bully ping wait time'' (ParseDuration (raw_PingWaitTime b))) (\<lambda>w.
      res_bind (res_wrap ''unable to parse bully ping interval time'' (ParseDuration (raw_PingInterval b))) (\<lambda>i.
      res_bind (res_wrap ''unable to parse bully ping back off time'' (ParseDuration (raw_PingBackOff b))) (\<lambda>o'.
      res_bind (res_wrap ''unable to parse bully wait time'' (ParseDuration (raw_BullyWaitTime b))) (\<lambda>t.
      Ok \<lparr>PingWaitTime = w, PingBackOff = o', PingInterval = i, ElectionWaitTime = e, BullyWaitTime = t\<rparr>))))))"

definition NewRelayerConfig :: "(string \<Rightarrow> 'lvl res) \<Rightarrow> raw_relayer_config \<Rightarrow> 'lvl relayer_config res" where
  "NewRelayerConfig ParseLevel c =
     res_bind (raw_Validate c) (\<lambda>_.
     res_bind (case ParseLevel (raw_LogLevel c) of
                 Fail _ \<Rightarrow> Fail (Errorf (''unknown log level: '' @ raw_LogLevel c)) | r \<Rightarrow> r) (\<lambda>logLevel.
     res_bind (parse_port ''unable to parse health port'' (raw_HealthPort c)) (\<lambda>healthPort.
     res_bind (parseMpcConfig c) (\<lambda>mpc.
     res_bind (parseBullyConfig c) (\<lambda>bully.
     Ok \<lparr>OpenTelemetryCollectorURL = raw_OpenTelemetryCollectorURL c, LogLevel = logLevel, LogFile = raw_LogFile c,
         HealthPort = healthPort, rc_Env = raw_Env c, rc_Id = raw_Id c, MpcConfig = mpc, rc_BullyConfig = bully,
         rc_Coinmarketcap = raw_Coinmarketcap c, rc_Solver = raw_Solver c, ApiAddr = raw_ApiAddr c\<rparr>)))))"

section \<open>The chains' part\<close>

text \<open>A value of type \<open>interface{}\<close> in a chain's map; \<open>CNil\<close> is a nil one.\<close>

datatype cfg = CNil | CInt int | CFloat float64 | CStr string | CBool bool | CJson json

type_synonym chain_map = "(string \<times> cfg) list"

definition cfg_at :: "chain_map \<Rightarrow> string \<Rightarrow> cfg" where
  "cfg_at m k = (case map_of m k of Some v \<Rightarrow> v | None \<Rightarrow> CNil)"

text \<open>The comparison of floating point numbers.\<close>

fun feq :: "float64 \<Rightarrow> float64 \<Rightarrow> bool" where
  "feq (F64 g m e) (F64 g' m' e') =
     ((m = 0 \<and> m' = 0) \<or> (g = g' \<and> m * pow2 e * pow2 (- e') = m' * pow2 e' * pow2 (- e)))"
| "feq (F64Inf g) (F64Inf g') = (g = g')"
| "feq _ _ = False"

definition feq_int :: "int \<Rightarrow> float64 \<Rightarrow> bool" where
  "feq_int a b = (case float_of_ratio (a < 0) (nat \<bar>a\<bar>) 1 of Ok f \<Rightarrow> feq f b | _ \<Rightarrow> False)"

fun compareDomainID :: "cfg \<Rightarrow> cfg \<Rightarrow> bool" where
  "compareDomainID (CInt a) (CInt b) = (a = b)"
| "compareDomainID (CInt a) (CFloat b) = feq_int a b"
| "compareDomainID (CFloat a) (CInt b) = feq_int b a"
| "compareDomainID (CFloat a) (CFloat b) = feq a b"
| "compareDomainID _ _ = False"

fun findChainConfig :: "cfg \<Rightarrow> chain_map list \<Rightarrow> chain_map res" where
  "findChainConfig i [] = Fail (Errorf ''missing chain'')"
| "findChainConfig i (c # cs) = (if compareDomainID i (cfg_at c ''id'') then Ok c else findChainConfig i cs)"

record raw_config =
  raw_RelayerConfig :: raw_relayer_config
  raw_ChainConfigs :: "chain_map list"

record 'lvl config =
  RelayerConfig :: "'lvl relayer_config"
  ChainConfigs :: "chain_map list"

text \<open>
  The checks of one chain, then its merge with the shared configuration. \<open>chain["id"] == 0\<close> compares
  an interface with the integer 0.
\<close>

definition merge_chain ::
  "(chain_map \<Rightarrow> chain_map \<Rightarrow> chain_map res) \<Rightarrow> chain_map list \<Rightarrow> nat \<Rightarrow> chain_map \<Rightarrow> chain_map res" where
  "merge_chain merge shared i chain =
     (let cid = cfg_at chain ''id''; ty = cfg_at chain ''type'' in
      if cid = CInt 0 \<or> cid = CNil then Fail (Errorf (''chain 'id' not configured for chain '' @ show_nat i))
      else if ty = CStr [] \<or> ty = CNil then Fail (Errorf ''chain 'type' must be provided for every configured chain'')
      else res_bind (findChainConfig cid shared) (merge chain))"

definition processRawConfig ::
  "(string \<Rightarrow> 'lvl res) \<Rightarrow> (raw_config \<Rightarrow> raw_config res) \<Rightarrow> (chain_map \<Rightarrow> chain_map \<Rightarrow> chain_map res)
   \<Rightarrow> raw_config \<Rightarrow> 'lvl config option \<Rightarrow> 'lvl config res" where
  "processRawConfig ParseLevel set_defaults merge raw0 config =
     res_bind (set_defaults raw0) (\<lambda>raw.
     res_bind (NewRelayerConfig ParseLevel (raw_RelayerConfig raw)) (\<lambda>rc.
     case config of
       None \<Rightarrow> Ok \<lparr>RelayerConfig = rc, ChainConfigs = raw_ChainConfigs raw\<rparr>
     | Some c \<Rightarrow>
         res_bind (res_map (\<lambda>(i, chain). merge_chain merge (ChainConfigs c) i chain) (enumerate 0 (raw_ChainConfigs raw)))
           (\<lambda>cs. Ok \<lparr>RelayerConfig = rc, ChainConfigs = cs\<rparr>)))"

definition GetConfigFromFile ::
  "(string \<Rightarrow> 'lvl res) \<Rightarrow> (raw_config \<Rightarrow> raw_config res) \<Rightarrow> (chain_map \<Rightarrow> chain_map \<Rightarrow> chain_map res)
   \<Rightarrow> (string \<Rightarrow> raw_config res) \<Rightarrow> string \<Rightarrow> 'lvl config option \<Rightarrow> 'lvl config res" where
  "GetConfigFromFile ParseLevel set_defaults merge viper path config =
     res_bind (viper path) (\<lambda>raw. processRawConfig ParseLevel set_defaults merge raw config)"


section \<open>The environment\<close>

text \<open>
  The nested maps built from the names of the variables, as association lists in the order of
  insertion; \<open>mountMap\<close> writes through the maps that are there.
\<close>

datatype envtree = Leaf string | Node "(string \<times> envtree) list"

fun mountMap :: "(string \<times> envtree) list \<Rightarrow> string list \<Rightarrow> string \<Rightarrow> (string \<times> envtree) list" where
  "mountMap m [] v = m"
| "mountMap m [k] v = AList.update k (Leaf v) m"
| "mountMap m (k # l # ks) v =
     (case map_of m k of
        None \<Rightarrow> AList.update k (Node (mountMap [] (l # ks) v)) m
      | Some (Leaf w) \<Rightarrow> m
      | Some (Node asMap) \<Rightarrow> AList.update k (Node (mountMap asMap (l # ks) v)) m)"

definition EnvPrefix :: string where
  "EnvPrefix = ''SYG''"

fun is_prefix :: "string \<Rightarrow> string \<Rightarrow> bool" where
  "is_prefix [] s = True"
| "is_prefix (c # cs) [] = False"
| "is_prefix (c # cs) (d # ds) = (c = d \<and> is_prefix cs ds)"

fun str_contains :: "string \<Rightarrow> string \<Rightarrow> bool" where
  "str_contains [] sub = is_prefix sub []"
| "str_contains (c # s) sub = (is_prefix sub (c # s) \<or> str_contains s sub)"

text \<open>One variable; \<open>pair[1]\<close> is out of range for a string without an equals sign.\<close>

definition mount_var :: "(string \<times> envtree) list \<Rightarrow> string \<Rightarrow> (string \<times> envtree) list res" where
  "mount_var m e =
     (if \<not> str_contains e EnvPrefix then Ok m
      else if CHR ''='' \<notin> set e then Panic ''index out of range''
      else case split_char CHR ''='' e of (name, v) \<Rightarrow> Ok (mountMap m (split_on CHR ''_'' name) v))"

fun mount_env :: "(string \<times> envtree) list \<Rightarrow> string list \<Rightarrow> (string \<times> envtree) list res" where
  "mount_env m [] = Ok m"
| "mount_env m (e # es) = res_bind (mount_var m e) (\<lambda>m'. mount_env m' es)"

text \<open>\<open>json.MarshalIndent\<close> writes the members in the order of their names.\<close>

fun env_json :: "envtree \<Rightarrow> json" where
  "env_json (Leaf v) = JStr v"
| "env_json (Node m) = JObj (sort_key fst (map (\<lambda>(k, t). (k, env_json t)) m))"

definition loadENVToJsonStructure :: "json_text \<Rightarrow> string list \<Rightarrow> bytes res" where
  "loadENVToJsonStructure J environ = res_bind (mount_env [] environ) (\<lambda>m. Ok (jrender J (env_json (Node m))))"

text \<open>The raw configuration from its JSON form. A struct that is absent or null stays empty; names that
  differ in case only are taken to occur once.\<close>

definition str_field :: "(string \<times> json) list \<Rightarrow> string \<Rightarrow> string res" where
  "str_field kvs f = struct_field kvs f dec_string []"

definition sub_struct :: "(string \<times> json) list \<Rightarrow> string \<Rightarrow> (string \<times> json) list res" where
  "sub_struct kvs f = (case jfield f kvs of None \<Rightarrow> Ok [] | Some j \<Rightarrow> members j)"

definition dec_mpc :: "(string \<times> json) list \<Rightarrow> raw_mpc_config res" where
  "dec_mpc kvs =
     res_bind (str_field kvs ''keysharePath'') (\<lambda>ks.
     res_bind (str_field kvs ''frostKeysharePath'') (\<lambda>fks.
     res_bind (str_field kvs ''key'') (\<lambda>key.
     res_bind (str_field kvs ''port'') (\<lambda>port.
     res_bind (sub_struct kvs ''topologyConfiguration'') (\<lambda>tkvs.
     res_bind (str_field tkvs ''encryptionKey'') (\<lambda>ek.
     res_bind (str_field tkvs ''url'') (\<lambda>url.
     res_bind (str_field tkvs ''path'') (\<lambda>path.
     res_bind (str_field kvs ''commHealthCheckInterval'') (\<lambda>hc.
     Ok \<lparr>raw_KeysharePath = ks, raw_FrostKeysharePath = fks, raw_Key = key, raw_Port = port,
         raw_Topology = \<lparr>EncryptionKey = ek, Url = url, Path = path\<rparr>, raw_CommHealthCheckInterval = hc\<rparr>)))))))))"

definition dec_bully :: "(string \<times> json) list \<Rightarrow> raw_bully_config res" where
  "dec_bully kvs =
     res_bind (str_field kvs ''pingWaitTime'') (\<lambda>w.
     res_bind (str_field kvs ''pingBackOff'') (\<lambda>b.
     res_bind (str_field kvs ''pingInterval'') (\<lambda>i.
     res_bind (str_field kvs ''electionWaitTime'') (\<lambda>e.
     res_bind (str_field kvs ''bullyWaitTime'') (\<lambda>t.
     Ok \<lparr>raw_PingWaitTime = w, raw_PingBackOff = b, raw_PingInterval = i, raw_ElectionWaitTime = e,
         raw_BullyWaitTime = t\<rparr>)))))"

definition dec_relayer :: "(string \<times> json) list \<Rightarrow> raw_relayer_config res" where
  "dec_relayer kvs =
     res_bind (str_field kvs ''opentelemetryCollectorURL'') (\<lambda>ot.
     res_bind (str_field kvs ''logLevel'') (\<lambda>ll.
     res_bind (str_field kvs ''logFile'') (\<lambda>lf.
     res_bind (str_field kvs ''healthPort'') (\<lambda>hp.
     res_bind (str_field kvs ''env'') (\<lambda>env.
     res_bind (str_field kvs ''id'') (\<lambda>i.
     res_bind (res_bind (sub_struct kvs ''mpcConfig'') dec_mpc) (\<lambda>mpc.
     res_bind (res_bind (sub_struct kvs ''bullyConfig'') dec_bully) (\<lambda>bully.
     res_bind (sub_struct kvs ''coinmarketcapConfig'') (\<lambda>ckvs.
     res_bind (str_field ckvs ''Url'') (\<lambda>cu.
     res_bind (str_field ckvs ''ApiKey'') (\<lambda>ck.
     res_bind (sub_struct kvs ''solverConfig'') (\<lambda>skvs.
     res_bind (str_field skvs ''SecretKey'') (\<lambda>sk.
     res_bind (str_field skvs ''AccessKey'') (\<lambda>ak.
     res_bind (str_field kvs ''ApiAddr'') (\<lambda>api.
     Ok \<lparr>raw_OpenTelemetryCollectorURL = ot, raw_LogLevel = ll, raw_LogFile = lf, raw_HealthPort = hp, raw_Env = env,
         raw_Id = i, raw_MpcConfig = mpc, raw_BullyConfig = bully,
         raw_Coinmarketcap = \<lparr>cmc_Url = cu, cmc_ApiKey = ck\<rparr>,
         raw_Solver = \<lparr>SecretKey = sk, AccessKey = ak\<rparr>, raw_ApiAddr = api\<rparr>)))))))))))))))"

text \<open>A JSON value in a map of interfaces: a number is a \<open>float64\<close>.\<close>

fun cfg_of_json :: "json \<Rightarrow> cfg res" where
  "cfg_of_json JNull = Ok CNil"
| "cfg_of_json (JBool b) = Ok (CBool b)"
| "cfg_of_json (JNum i) = res_bind (float_of_ratio (i < 0) (nat \<bar>i\<bar>) 1) (\<lambda>f. Ok (CFloat f))"
| "cfg_of_json (JReal s) = res_bind (parse_literal s) (\<lambda>f. Ok (CFloat f))"
| "cfg_of_json (JStr s) = Ok (CStr s)"
| "cfg_of_json j = Ok (CJson j)"

text \<open>A Go map: of two members with the same name, the later.\<close>

fun chain_of_json :: "json \<Rightarrow> chain_map res" where
  "chain_of_json (JObj kvs) = res_bind (res_map (\<lambda>(k, j). res_bind (cfg_of_json j) (\<lambda>v. Ok (k, v))) kvs) (\<lambda>m. Ok (rev m))"
| "chain_of_json JNull = Ok []"
| "chain_of_json _ = Fail bad_json"

fun chains_of_json :: "json \<Rightarrow> chain_map list res" where
  "chains_of_json (JArr js) = res_map chain_of_json js"
| "chains_of_json JNull = Ok []"
| "chains_of_json _ = Fail bad_json"

definition dec_wrapper :: "json \<Rightarrow> raw_config res" where
  "dec_wrapper j =
     res_bind (members j) (\<lambda>top.
     res_bind (sub_struct top ''syg'') (\<lambda>kvs.
     res_bind (res_bind (sub_struct kvs ''relayer'') dec_relayer) (\<lambda>r.
     res_bind (case jfield ''domains'' kvs of None \<Rightarrow> Ok [] | Some d \<Rightarrow> chains_of_json d) (\<lambda>cs.
     Ok \<lparr>raw_RelayerConfig = r, raw_ChainConfigs = cs\<rparr>))))"

text \<open>\<open>os.Getenv\<close>: the first variable with the name.\<close>

fun getenv :: "string list \<Rightarrow> string \<Rightarrow> string" where
  "getenv [] name = []"
| "getenv (e # es) name = (case split_char CHR ''='' e of (n, v) \<Rightarrow> if n = name then v else getenv es name)"

definition loadFromEnv :: "json_text \<Rightarrow> string list \<Rightarrow> raw_config res" where
  "loadFromEnv J environ =
     res_bind (loadENVToJsonStructure J environ) (\<lambda>b.
     res_bind (json_unmarshal_tree J b) (\<lambda>j.
     res_bind (dec_wrapper j) (\<lambda>raw.
     res_bind (raw_Validate (raw_RelayerConfig raw)) (\<lambda>_.
     let domains = getenv environ (EnvPrefix @ ''_CHAINS'') in
     if domains = [] then Ok raw
     else res_bind (json_unmarshal_tree J (string_bytes domains)) (\<lambda>d.
          res_bind (chains_of_json d) (\<lambda>cc. Ok (raw\<lparr>raw_ChainConfigs := cc\<rparr>)))))))"

definition GetConfigFromENV ::
  "json_text \<Rightarrow> (string \<Rightarrow> 'lvl res) \<Rightarrow> (raw_config \<Rightarrow> raw_config res) \<Rightarrow> (chain_map \<Rightarrow> chain_map \<Rightarrow> chain_map res)
   \<Rightarrow> string list \<Rightarrow> 'lvl config option \<Rightarrow> 'lvl config res" where
  "GetConfigFromENV J ParseLevel set_defaults merge environ config =
     res_bind (loadFromEnv J environ) (\<lambda>raw. processRawConfig ParseLevel set_defaults merge raw config)"

section \<open>Lemmas\<close>

text \<open>What a path leads to.\<close>

fun lookup_path :: "(string \<times> envtree) list \<Rightarrow> string list \<Rightarrow> string option" where
  "lookup_path m [] = None"
| "lookup_path m [k] = (case map_of m k of Some (Leaf v) \<Rightarrow> Some v | _ \<Rightarrow> None)"
| "lookup_path m (k # l # ks) = (case map_of m k of Some (Node m') \<Rightarrow> lookup_path m' (l # ks) | _ \<Rightarrow> None)"

text \<open>No value stands on the way, and the path is not the way to another value.\<close>

fun free_path :: "(string \<times> envtree) list \<Rightarrow> string list \<Rightarrow> bool" where
  "free_path m [] = False"
| "free_path m [k] = (case map_of m k of Some (Node _) \<Rightarrow> False | _ \<Rightarrow> True)"
| "free_path m (k # l # ks) =
     (case map_of m k of None \<Rightarrow> True | Some (Leaf _) \<Rightarrow> False | Some (Node m') \<Rightarrow> free_path m' (l # ks))"

fun path_prefix :: "string list \<Rightarrow> string list \<Rightarrow> bool" where
  "path_prefix [] q = True"
| "path_prefix (k # p) [] = False"
| "path_prefix (k # p) (l # q) = (k = l \<and> path_prefix p q)"

lemma map_of_update: "map_of (AList.update k v m) = (map_of m)(k \<mapsto> v)"
  by (rule update_conv')

lemma free_path_empty [simp]: "p \<noteq> [] \<Longrightarrow> free_path [] p"
  by (induction "[] :: (string \<times> envtree) list" p rule: free_path.induct) auto

lemma lookup_mount: "free_path m p \<Longrightarrow> lookup_path (mountMap m p v) p = Some v"
  by (induction m p v rule: mountMap.induct) (auto simp: map_of_update split: option.splits envtree.splits)

lemma path_prefix_refl [simp]: "path_prefix p p"
  by (induction p) auto

lemma lookup_mount_other:
  "\<not> path_prefix p q \<Longrightarrow> \<not> path_prefix q p \<Longrightarrow> lookup_path (mountMap m p v) q = lookup_path m q"
proof (induction m p v arbitrary: q rule: mountMap.induct)
  case (2 m k v)
  then show ?case by (cases q rule: list.exhaust; cases "tl q") (auto simp: map_of_update)
next
  case (3 m k l ks v)
  show ?case
  proof (cases q)
    case (Cons k' q')
    show ?thesis
    proof (cases q')
      case Nil
      with Cons 3(4) show ?thesis by (auto simp: map_of_update split: option.splits envtree.splits)
    next
      case (Cons l' ks')
      have nil: "lookup_path (mountMap [] (l # ks) v) (l' # ks') = None"
        if "map_of m k = None" "\<not> path_prefix (l # ks) (l' # ks')" "\<not> path_prefix (l' # ks') (l # ks)"
        using 3(1) [OF that] by (cases ks') auto
      show ?thesis
        using 3(2-4) nil \<open>q = k' # q'\<close> Cons
        by (auto simp: map_of_update split: option.splits envtree.splits)
    qed
  qed simp
qed simp

lemma free_mount_other:
  "\<not> path_prefix p q \<Longrightarrow> \<not> path_prefix q p \<Longrightarrow> free_path m q \<Longrightarrow> free_path (mountMap m p v) q"
proof (induction m p v arbitrary: q rule: mountMap.induct)
  case (2 m k v)
  then show ?case by (cases q rule: list.exhaust; cases "tl q") (auto simp: map_of_update)
next
  case (3 m k l ks v)
  show ?case
  proof (cases q)
    case (Cons k' q')
    show ?thesis
    proof (cases q')
      case Nil
      with Cons 3(4) 3(5) show ?thesis by (auto simp: map_of_update split: option.splits envtree.splits)
    next
      case (Cons l' ks')
      have nil: "free_path (mountMap [] (l # ks) v) (l' # ks')"
        if "map_of m k = None" "\<not> path_prefix (l # ks) (l' # ks')" "\<not> path_prefix (l' # ks') (l # ks)"
        using 3(1) [OF that] by simp
      show ?thesis
        using 3(2-5) nil \<open>q = k' # q'\<close> Cons
        by (auto simp: map_of_update split: option.splits envtree.splits)
    qed
  qed (use 3 in simp)
qed simp

definition env_path :: "string \<Rightarrow> string list" where
  "env_path e = split_on CHR ''_'' (fst (split_char CHR ''='' e))"

definition env_value :: "string \<Rightarrow> string" where
  "env_value e = snd (split_char CHR ''='' e)"

definition apart :: "string list \<Rightarrow> string list \<Rightarrow> bool" where
  "apart p q \<longleftrightarrow> \<not> path_prefix p q \<and> \<not> path_prefix q p"

lemma mount_var_cases:
  assumes "mount_var m e = Ok m'"
  shows "(\<not> str_contains e EnvPrefix \<and> m' = m) \<or> (str_contains e EnvPrefix \<and> m' = mountMap m (env_path e) (env_value e))"
  using assms by (auto simp: mount_var_def env_path_def env_value_def split: if_splits prod.splits)

definition mounted :: "string list \<Rightarrow> string list" where
  "mounted es = filter (\<lambda>e. str_contains e EnvPrefix) es"

lemma mount_env_apart:
  assumes "mount_env m es = Ok m'" and "list_all (\<lambda>e. apart (env_path e) q) (mounted es)"
  shows "lookup_path m' q = lookup_path m q" and "free_path m q \<Longrightarrow> free_path m' q"
  using assms
proof (induction es arbitrary: m)
  case (Cons e es)
  {
    case 1
    then show ?case
      using Cons.IH(1) lookup_mount_other [of "env_path e" q]
      by (auto simp: res_bind_Ok_iff mounted_def apart_def dest!: mount_var_cases)
  next
    case 2
    then show ?case
      using Cons.IH(2) free_mount_other [of "env_path e" q]
      by (auto simp: res_bind_Ok_iff mounted_def apart_def dest!: mount_var_cases) blast
  }
qed (simp_all add: mounted_def)

lemma mount_env_found:
  assumes "mount_env m es = Ok m'" and "sorted_wrt (\<lambda>e e'. apart (env_path e) (env_path e')) (mounted es)"
    and "list_all (\<lambda>e. free_path m (env_path e)) (mounted es)" and "e \<in> set (mounted es)"
  shows "lookup_path m' (env_path e) = Some (env_value e)"
  using assms
proof (induction es arbitrary: m)
  case (Cons a es)
  from Cons.prems(1) obtain m1 where m1: "mount_var m a = Ok m1" "mount_env m1 es = Ok m'"
    by (auto simp: res_bind_Ok_iff)
  show ?case
  proof (cases "str_contains a EnvPrefix")
    case False
    with m1 mount_var_cases [OF m1(1)] Cons.prems Cons.IH show ?thesis by (auto simp: mounted_def)
  next
    case True
    then have v: "m1 = mountMap m (env_path a) (env_value a)" using mount_var_cases [OF m1(1)] by simp
    have ap: "\<forall>x \<in> set (mounted es). apart (env_path a) (env_path x)"
      using Cons.prems(2) True by (simp add: mounted_def)
    show ?thesis
    proof (cases "e \<in> set (mounted es)")
      case True
      have "list_all (\<lambda>e. free_path m1 (env_path e)) (mounted es)"
        using Cons.prems(3) ap free_mount_other \<open>str_contains a EnvPrefix\<close>
        by (auto simp: v list_all_iff mounted_def apart_def)
      with Cons.IH [OF m1(2)] Cons.prems(2) True \<open>str_contains a EnvPrefix\<close> show ?thesis by (simp add: mounted_def)
    next
      case False
      then have e: "e = a" using Cons.prems(4) True by (auto simp: mounted_def)
      have "list_all (\<lambda>x. apart (env_path x) (env_path a)) (mounted es)"
        using ap by (auto simp: list_all_iff apart_def)
      from mount_env_apart(1) [OF m1(2) this] show ?thesis
        using lookup_mount [of m "env_path a"] Cons.prems(3) True by (simp add: e v mounted_def)
    qed
  qed
qed (simp add: mounted_def)

lemma parse_int0_range: "parse_int0 16 s = Ok i \<Longrightarrow> i < 32768"
  by (auto simp: parse_int0_def Let_def split: option.splits if_splits)

lemma parse_port_Ok:
  assumes "parse_port msg s = Ok p"
  shows "parse_int0 16 s = Ok (uint p) \<and> uint p < 32768"
proof -
  obtain i where i: "parse_int0 16 s = Ok i" "0 \<le> i" "i \<le> 65535" "p = word_of_int i"
    using assms by (auto simp: parse_port_def res_bind_Ok_iff res_wrap_iff split: if_splits)
  then have "uint p = i" by (simp add: uint_word_of_int take_bit_int_eq_self)
  with i parse_int0_range show ?thesis by auto
qed

lemma parse_int0_show_nat:
  "0 < n \<Longrightarrow> parse_int0 n (show_nat m) =
     (if m < 2 ^ (n - 1) then Ok (int m) else Fail (Errorf ''strconv.ParseInt: value out of range''))"
proof -
  have "show_nat m \<noteq> [] \<and> hd (show_nat m) \<noteq> CHR ''-'' \<and> hd (show_nat m) \<noteq> CHR ''+''"
    using hd_in_set [OF show_nat_nonempty [of m]] dash_notin_show_nat [of m]
    by (intro conjI show_nat_nonempty notI) simp_all
  moreover have "int m < 2 ^ k \<longleftrightarrow> m < 2 ^ k" for k
    by (metis of_nat_less_iff of_nat_numeral of_nat_power)
  moreover have "- (2 ^ k) \<le> int m" for k
    by (smt (verit) of_nat_0_le_iff zero_le_power)
  ultimately show ?thesis by (simp add: parse_int0_def parse_uint0_show_nat Let_def)
qed

lemma NewRelayerConfig_Ok:
  assumes "NewRelayerConfig PL c = Ok rc"
  shows "parse_int0 16 (raw_HealthPort c) = Ok (uint (HealthPort rc)) \<and> uint (HealthPort rc) < 32768"
    and "parse_int0 16 (raw_Port (raw_MpcConfig c)) = Ok (uint (mpc_Port (MpcConfig rc))) \<and> uint (mpc_Port (MpcConfig rc)) < 32768"
    and "mpc_Topology (MpcConfig rc) = raw_Topology (raw_MpcConfig c)" and "raw_Validate c = Ok ()"
proof -
  obtain lvl hp mpc b where x: "raw_Validate c = Ok ()" "parse_port ''unable to parse health port'' (raw_HealthPort c) = Ok hp"
    "parseMpcConfig c = Ok mpc" "HealthPort rc = hp" "MpcConfig rc = mpc"
    using assms unfolding NewRelayerConfig_def res_bind_Ok_iff by force
  obtain port d where y: "parse_port ''unable to parse mpc port from config'' (raw_Port (raw_MpcConfig c)) = Ok port"
    "mpc_Port mpc = port" "mpc_Topology mpc = raw_Topology (raw_MpcConfig c)"
    using x(3) unfolding parseMpcConfig_def Let_def res_bind_Ok_iff by force
  show "parse_int0 16 (raw_HealthPort c) = Ok (uint (HealthPort rc)) \<and> uint (HealthPort rc) < 32768"
    using parse_port_Ok [OF x(2)] x(4) by simp
  show "parse_int0 16 (raw_Port (raw_MpcConfig c)) = Ok (uint (mpc_Port (MpcConfig rc))) \<and> uint (mpc_Port (MpcConfig rc)) < 32768"
    using parse_port_Ok [OF y(1)] x(5) y(2) by simp
  show "mpc_Topology (MpcConfig rc) = raw_Topology (raw_MpcConfig c)" "raw_Validate c = Ok ()"
    using x(1,5) y(3) by simp_all
qed

lemma merge_chain_Ok:
  assumes "merge_chain merge shared i chain = Ok m"
  shows "\<exists>sc \<in> set shared. compareDomainID (cfg_at chain ''id'') (cfg_at sc ''id'') \<and> merge chain sc = Ok m"
proof -
  have "findChainConfig k cs = Ok sc \<Longrightarrow> sc \<in> set cs \<and> compareDomainID k (cfg_at sc ''id'')" for k cs sc
    by (induction cs) (auto split: if_splits)
  then show ?thesis using assms by (fastforce simp: merge_chain_def Let_def res_bind_Ok_iff split: if_splits)
qed

section \<open>Properties\<close>

text \<open>Every environment variable whose name holds the prefix ends up at the path its name spells,
  whatever the order of the environment, as long as no name is the beginning of another's.\<close>

theorem env_variables_found:
  assumes "mount_env [] environ = Ok m"
    and "sorted_wrt (\<lambda>e e'. apart (env_path e) (env_path e')) (filter (\<lambda>e. str_contains e EnvPrefix) environ)"
    and "e \<in> set environ" and "str_contains e EnvPrefix"
  shows "lookup_path m (env_path e) = Some (env_value e)"
proof -
  have "list_all (\<lambda>e. free_path [] (env_path e)) (mounted environ)"
    by (simp add: list_all_iff env_path_def)
  from mount_env_found [OF assms(1) _ this] assms(2-4) show ?thesis by (simp add: mounted_def)
qed

theorem env_variables_found_witness:
  "\<exists>m. mount_env [] [''SYG_A=x'', ''SYG_B_C=y=1''] = Ok m \<and> lookup_path m [''SYG'', ''B'', ''C''] = Some ''y=1''"
proof -
  obtain m where m: "mount_env [] [''SYG_A=x'', ''SYG_B_C=y=1''] = Ok m"
    by (simp add: mount_var_def EnvPrefix_def split_char_def)
  have p: "env_path ''SYG_B_C=y=1'' = [''SYG'', ''B'', ''C'']" "env_value ''SYG_B_C=y=1'' = ''y=1''"
    "env_path ''SYG_A=x'' = [''SYG'', ''A'']"
    by (simp_all add: env_path_def env_value_def split_char_def)
  have "lookup_path m (env_path ''SYG_B_C=y=1'') = Some (env_value ''SYG_B_C=y=1'')"
    by (rule env_variables_found [OF m]) (simp_all add: p EnvPrefix_def apart_def)
  with m p show ?thesis by simp
qed

text \<open>A relayer configuration that is accepted names a topology (key, address, path), and its two
  ports are the values of their texts, which are below 32768: the ports from there up to 65535, which the
  check that follows the parser would let pass, are refused by the parser.\<close>

theorem accepted_ports:
  assumes "NewRelayerConfig ParseLevel c = Ok rc"
  shows "parse_int0 16 (raw_HealthPort c) = Ok (uint (HealthPort rc)) \<and> uint (HealthPort rc) < 32768
    \<and> parse_int0 16 (raw_Port (raw_MpcConfig c)) = Ok (uint (mpc_Port (MpcConfig rc)))
    \<and> uint (mpc_Port (MpcConfig rc)) < 32768
    \<and> EncryptionKey (mpc_Topology (MpcConfig rc)) \<noteq> [] \<and> Url (mpc_Topology (MpcConfig rc)) \<noteq> []
    \<and> Path (mpc_Topology (MpcConfig rc)) \<noteq> []
    \<and> raw_HealthPort c \<noteq> show_nat (32768 + k)"
proof -
  have "parse_int0 16 (show_nat (32768 + k)) = Fail (Errorf ''strconv.ParseInt: value out of range'')"
    by (simp add: parse_int0_show_nat)
  then have "raw_HealthPort c \<noteq> show_nat (32768 + k)" using NewRelayerConfig_Ok(1) [OF assms] by auto
  with NewRelayerConfig_Ok [OF assms] show ?thesis by (auto simp: raw_Validate_def Let_def res_simps)
qed

text \<open>A configuration that names its topology and leaves everything else to the defaults.\<close>

definition bare_config :: "topology_configuration \<Rightarrow> raw_relayer_config" where
  "bare_config t =
     \<lparr>raw_OpenTelemetryCollectorURL = [], raw_LogLevel = [], raw_LogFile = [], raw_HealthPort = [], raw_Env = [], raw_Id = [],
      raw_MpcConfig = \<lparr>raw_KeysharePath = [], raw_FrostKeysharePath = [], raw_Key = [], raw_Port = [], raw_Topology = t,
        raw_CommHealthCheckInterval = []\<rparr>,
      raw_BullyConfig = \<lparr>raw_PingWaitTime = [], raw_PingBackOff = [], raw_PingInterval = [], raw_ElectionWaitTime = [],
        raw_BullyWaitTime = []\<rparr>,
      raw_Coinmarketcap = \<lparr>cmc_Url = [], cmc_ApiKey = []\<rparr>, raw_Solver = \<lparr>SecretKey = [], AccessKey = []\<rparr>,
      raw_ApiAddr = []\<rparr>"

lemmas duration_eval = ParseDuration_def duration_part_def duration_units_def is_unit_char_def digit_val_def

lemma default_durations:
  "ParseDuration ''1s'' = Ok 1000000000" "ParseDuration ''2s'' = Ok 2000000000"
  "ParseDuration ''3m'' = Ok 180000000000" "ParseDuration ''5m'' = Ok 300000000000"
  by (simp_all add: duration_eval)

lemma default_ports: "parse_port m ''9000'' = Ok 9000" "parse_port m ''9001'' = Ok 9001"
  by (simp_all add: parse_port_def parse_int0_def parse_uint0_def alnum_val_def lower_ascii_def)

text \<open>The defaults are a configuration the relayer accepts: with a topology and nothing else it
  starts with its health check every five minutes, ports 9000 and 9001, and election and ping
  times of one and two seconds and three minutes.\<close>

theorem defaults_accepted:
  assumes "EncryptionKey t \<noteq> []" and "Url t \<noteq> []" and "Path t \<noteq> []" and "ParseLevel ''info'' = Ok lvl"
    and "set_defaults raw = Ok raw'" and "raw_RelayerConfig raw' = tagged_defaults (bare_config t)"
  shows "\<exists>rc. processRawConfig ParseLevel set_defaults merge raw None
        = Ok \<lparr>RelayerConfig = rc, ChainConfigs = raw_ChainConfigs raw'\<rparr>
     \<and> mpc_Topology (MpcConfig rc) = t \<and> mpc_Port (MpcConfig rc) = 9000 \<and> HealthPort rc = 9001
     \<and> CommHealthCheckInterval (MpcConfig rc) = 300 * 10 ^ 9 \<and> ApiAddr rc = ''0.0.0.0:3000''
     \<and> rc_BullyConfig rc = \<lparr>PingWaitTime = 10 ^ 9, PingBackOff = 10 ^ 9, PingInterval = 10 ^ 9,
          ElectionWaitTime = 2 * 10 ^ 9, BullyWaitTime = 180 * 10 ^ 9\<rparr>"
proof -
  have v: "raw_Validate (tagged_defaults (bare_config t)) = Ok ()"
    using assms(1-3) by (simp add: raw_Validate_def tagged_defaults_def bare_config_def res_guard_def)
  show ?thesis
    unfolding processRawConfig_def assms(5) NewRelayerConfig_def
    by (simp add: assms(6) v)
      (simp add: tagged_defaults_def bare_config_def or_default_def assms(4) parseMpcConfig_def parseBullyConfig_def
        default_durations default_ports)
qed

theorem defaults_accepted_witness:
  "\<exists>rc. processRawConfig (\<lambda>_. Ok ()) (\<lambda>r. Ok (r\<lparr>raw_RelayerConfig := tagged_defaults (raw_RelayerConfig r)\<rparr>)) (\<lambda>c _. Ok c)
       \<lparr>raw_RelayerConfig = bare_config \<lparr>EncryptionKey = ''k'', Url = ''u'', Path = ''p''\<rparr>, raw_ChainConfigs = []\<rparr> None
     = Ok \<lparr>RelayerConfig = rc, ChainConfigs = []\<rparr> \<and> HealthPort rc = 9001"
  using defaults_accepted [where t = "\<lparr>EncryptionKey = ''k'', Url = ''u'', Path = ''p''\<rparr>" and ParseLevel = "\<lambda>_. Ok ()"
      and set_defaults = "\<lambda>r. Ok (r\<lparr>raw_RelayerConfig := tagged_defaults (raw_RelayerConfig r)\<rparr>)"
      and raw = "\<lparr>raw_RelayerConfig = bare_config \<lparr>EncryptionKey = ''k'', Url = ''u'', Path = ''p''\<rparr>, raw_ChainConfigs = []\<rparr>"]
  by fastforce

theorem accepted_ports_witness:
  "\<exists>rc. NewRelayerConfig (\<lambda>_. Ok ()) (tagged_defaults (bare_config \<lparr>EncryptionKey = ''k'', Url = ''u'', Path = ''p''\<rparr>)) = Ok rc
     \<and> uint (HealthPort rc) < 32768"
proof -
  let ?c = "tagged_defaults (bare_config \<lparr>EncryptionKey = ''k'', Url = ''u'', Path = ''p''\<rparr>)"
  obtain rc where "NewRelayerConfig (\<lambda>_. Ok ()) ?c = Ok rc"
    by (simp add: NewRelayerConfig_def raw_Validate_def tagged_defaults_def bare_config_def or_default_def res_guard_def
        parseMpcConfig_def parseBullyConfig_def default_durations default_ports)
  with accepted_ports [OF this] show ?thesis by blast
qed

text \<open>The configuration of a chain is merged with the shared configuration of the same chain, one for
  one and in order; but a chain whose number is the zero of a JSON document gets past the check that
  refuses a chain without a number, since there it is a floating point zero.\<close>

theorem chains_merged_by_id:
  assumes "processRawConfig ParseLevel set_defaults merge raw (Some c) = Ok r" and "set_defaults raw = Ok raw'"
  shows "list_all2 (\<lambda>chain m. \<exists>sc. sc \<in> set (ChainConfigs c) \<and> compareDomainID (cfg_at chain ''id'') (cfg_at sc ''id'')
       \<and> merge chain sc = Ok m) (raw_ChainConfigs raw') (ChainConfigs r)"
proof -
  obtain cs where cs: "ChainConfigs r = cs"
    "res_map (\<lambda>(i, chain). merge_chain merge (ChainConfigs c) i chain) (enumerate 0 (raw_ChainConfigs raw')) = Ok cs"
    using assms by (auto simp: processRawConfig_def res_bind_Ok_iff)
  have "res_map (\<lambda>(i, chain). merge_chain merge sh i chain) (enumerate n xs) = Ok ys \<Longrightarrow>
      list_all2 (\<lambda>chain m. \<exists>sc. sc \<in> set sh \<and> compareDomainID (cfg_at chain ''id'') (cfg_at sc ''id'') \<and> merge chain sc = Ok m) xs ys"
    for sh n xs ys
  proof (induction xs arbitrary: n ys)
    case (Cons x xs)
    then show ?case using merge_chain_Ok by (fastforce simp: res_bind_Ok_iff)
  qed simp
  with cs show ?thesis by simp
qed

lemma json_zero_id_passes:
  assumes "cfg_of_json (JNum 0) = Ok v" and "cfg_at chain ''id'' = v" and "cfg_at chain ''type'' = CStr ''evm''"
    and "compareDomainID v (cfg_at sc ''id'')"
  shows "merge_chain merge [sc] i chain = merge chain sc"
proof -
  obtain f where "v = CFloat f" using assms(1) by (auto simp: res_bind_Ok_iff)
  with assms show ?thesis by (simp add: merge_chain_def)
qed

theorem chains_merged_by_id_witness:
  "\<exists>r. processRawConfig (\<lambda>_. Ok ()) (\<lambda>r. Ok (r\<lparr>raw_RelayerConfig := tagged_defaults (raw_RelayerConfig r)\<rparr>)) (\<lambda>c _. Ok c)
       \<lparr>raw_RelayerConfig = bare_config \<lparr>EncryptionKey = ''k'', Url = ''u'', Path = ''p''\<rparr>,
        raw_ChainConfigs = [[(''id'', CInt 1), (''type'', CStr ''evm'')]]\<rparr>
       (Some \<lparr>RelayerConfig = rc0, ChainConfigs = [[(''id'', CInt 1)]]\<rparr>) = Ok r
     \<and> length (ChainConfigs r) = 1"
proof -
  let ?raw = "\<lparr>raw_RelayerConfig = bare_config \<lparr>EncryptionKey = ''k'', Url = ''u'', Path = ''p''\<rparr>,
        raw_ChainConfigs = [[(''id'', CInt 1), (''type'', CStr ''evm'')]]\<rparr>"
  let ?d = "\<lambda>r. Ok (r\<lparr>raw_RelayerConfig := tagged_defaults (raw_RelayerConfig r)\<rparr>) :: raw_config res"
  obtain rc where "NewRelayerConfig (\<lambda>_. Ok ()) (tagged_defaults (raw_RelayerConfig ?raw)) = Ok rc"
    by (simp add: NewRelayerConfig_def raw_Validate_def tagged_defaults_def bare_config_def or_default_def res_guard_def
        parseMpcConfig_def parseBullyConfig_def default_durations default_ports)
  then obtain r where r: "processRawConfig (\<lambda>_. Ok ()) ?d (\<lambda>c _. Ok c) ?raw
      (Some \<lparr>RelayerConfig = rc0, ChainConfigs = [[(''id'', CInt 1)]]\<rparr>) = Ok r"
    by (simp add: processRawConfig_def merge_chain_def cfg_at_def)
  from chains_merged_by_id [OF r refl] have "length (ChainConfigs r) = 1"
    by (auto dest: list_all2_lengthD)
  with r show ?thesis by blast
qed

end
