(* ===== verification/Comm.thy ===== *)
theory Comm
  imports Go_Json "HOL-Library.AList"
begin

text \<open>
  The messages relayers exchange and how they are routed inside one relayer:
  \<open>comm/messages.go\<close>, \<open>comm/communication.go\<close>, \<open>comm/subID.go\<close> and \<open>comm/p2p/subscription.go\<close>.
  A subscription identifier is the text \<open>SessionID-MessageType-Timestamp\<close>; the subscription
  manager maps a session and a message type to the channels subscribed to it, each under the
  timestamp part of its identifier. The contract a client relies on (a subscriber is reached,
  leaves when it unsubscribes, and others are not touched) is the locale \<open>registry\<close>; it is
  interpreted on the manager for sessions whose name has no dash, and the last section shows
  what the manager does for the sessions whose name has one.
\<close>

section \<open>Message types\<close>

type_synonym message_type = int

abbreviation (input) TssKeyGenMsg :: message_type where "TssKeyGenMsg \<equiv> 0"
abbreviation (input) TssKeySignMsg :: message_type where "TssKeySignMsg \<equiv> 1"
abbreviation (input) TssInitiateMsg :: message_type where "TssInitiateMsg \<equiv> 2"
abbreviation (input) TssStartMsg :: message_type where "TssStartMsg \<equiv> 3"
abbreviation (input) TssFailMsg :: message_type where "TssFailMsg \<equiv> 4"
abbreviation (input) TssReadyMsg :: message_type where "TssReadyMsg \<equiv> 5"
abbreviation (input) TssReshareMsg :: message_type where "TssReshareMsg \<equiv> 6"
abbreviation (input) CoordinatorElectionMsg :: message_type where "CoordinatorElectionMsg \<equiv> 7"
abbreviation (input) CoordinatorAliveMsg :: message_type where "CoordinatorAliveMsg \<equiv> 8"
abbreviation (input) CoordinatorLeaveMsg :: message_type where "CoordinatorLeaveMsg \<equiv> 9"
abbreviation (input) CoordinatorSelectMsg :: message_type where "CoordinatorSelectMsg \<equiv> 10"
abbreviation (input) CoordinatorPingMsg :: message_type where "CoordinatorPingMsg \<equiv> 11"
abbreviation (input) CoordinatorPingResponseMsg :: message_type where "CoordinatorPingResponseMsg \<equiv> 12"
abbreviation (input) SignatureMsg :: message_type where "SignatureMsg \<equiv> 13"
abbreviation (input) AcrossMsg :: message_type where "AcrossMsg \<equiv> 14"
abbreviation (input) SprinterCreditMsg :: message_type where "SprinterCreditMsg \<equiv> 15"
abbreviation (input) LighterMsg :: message_type where "LighterMsg \<equiv> 16"
abbreviation (input) LifiEscrowMsg :: message_type where "LifiEscrowMsg \<equiv> 17"
abbreviation (input) LifiUnlockMsg :: message_type where "LifiUnlockMsg \<equiv> 18"
abbreviation (input) Unknown :: message_type where "Unknown \<equiv> 19"

abbreviation (input) SignatureSessionID :: string where "SignatureSessionID \<equiv> ''signatures''"
abbreviation (input) AcrossSessionID :: string where "AcrossSessionID \<equiv> ''across''"
abbreviation (input) SprinterCreditSessionID :: string where "SprinterCreditSessionID \<equiv> ''sprinter-credit''"
abbreviation (input) LifiEscrowSessionID :: string where "LifiEscrowSessionID \<equiv> ''lifi-escrow''"
abbreviation (input) LighterSessionID :: string where "LighterSessionID \<equiv> ''lighter''"
abbreviation (input) LifiUnlockSessionID :: string where "LifiUnlockSessionID \<equiv> ''lifi-unlock''"

definition message_type_String :: "message_type \<Rightarrow> string" where
  "message_type_String t =
     (if t = TssKeyGenMsg then ''TssKeyGenMsg''
      else if t = TssKeySignMsg then ''TssKeySignMsg''
      else if t = TssInitiateMsg then ''TssInitiateMsg''
      else if t = TssStartMsg then ''TssStartMsg''
      else if t = TssFailMsg then ''TssFailMsg''
      else if t = TssReadyMsg then ''TssReadyMsg''
      else if t = TssReshareMsg then ''TssReshareMsg''
      else if t = CoordinatorElectionMsg then ''CoordinatorElectionMsg''
      else if t = CoordinatorAliveMsg then ''CoordinatorAliveMsg''
      else if t = CoordinatorLeaveMsg then ''CoordinatorLeaveMsg''
      else if t = CoordinatorSelectMsg then ''CoordinatorSelectMsg''
      else if t = CoordinatorPingMsg then ''CoordinatorPingMsg''
      else if t = CoordinatorPingResponseMsg then ''CoordinatorPingResponseMsg''
      else if t = AcrossMsg then ''AcrossMsg''
      else if t = LifiEscrowMsg then ''LifiEscrowMsg''
      else if t = LifiUnlockMsg then ''LifiUnlockMsg''
      else if t = LighterMsg then ''LighterMsg''
      else if t = SprinterCreditMsg then ''SprinterCreditMsg''
      else ''UnknownMsg'')"

section \<open>Wrapped messages\<close>

record wrapped_message =
  MessageType :: message_type
  SessionID :: string
  Payload :: bytes
  From :: peer

text \<open>\<open>json.Marshal(wMsg)\<close>: the field \<open>From\<close> carries the tag \<open>json:"-"\<close> and is not sent.\<close>

definition marshal_wrapped :: "json_text \<Rightarrow> wrapped_message \<Rightarrow> bytes" where
  "marshal_wrapped J m =
     jrender J (JObj [(''message_type'', JNum (MessageType m)),
                      (''message_id'', JStr (SessionID m)),
                      (''payload'', JStr (b64enc J (Payload m)))])"

definition unmarshal_wrapped :: "json_text \<Rightarrow> bytes \<Rightarrow> wrapped_message res" where
  "unmarshal_wrapped J b =
     res_bind (json_unmarshal_tree J b) (\<lambda>j.
     res_bind (members j) (\<lambda>kvs.
     res_bind (struct_field kvs ''message_type'' dec_int64 0) (\<lambda>t.
     res_bind (struct_field kvs ''message_id'' dec_string []) (\<lambda>s.
     res_bind (struct_field kvs ''payload'' (dec_bytes J) []) (\<lambda>p.
     Ok \<lparr>MessageType = t, SessionID = s, Payload = p, From = []\<rparr>)))))"

section \<open>Subscription identifiers\<close>

type_synonym subscription_id = string

text \<open>\<open>now\<close> is \<open>time.Now().UnixNano()\<close>.\<close>

definition NewSubscriptionID :: "string \<Rightarrow> message_type \<Rightarrow> nat \<Rightarrow> subscription_id" where
  "NewSubscriptionID sessionID msgType now =
     sessionID @ ''-'' @ show_int msgType @ ''-'' @ show_nat now"

text \<open>\<open>strconv.ParseInt(s, 10, 8)\<close>.\<close>

definition parse_int8 :: "string \<Rightarrow> int res" where
  "parse_int8 s =
     (case set_string10 s of
        None \<Rightarrow> Fail (Errorf ''strconv.ParseInt: invalid syntax'')
      | Some i \<Rightarrow> (if - 128 \<le> i \<and> i \<le> 127 then Ok i
                  else Fail (Errorf ''strconv.ParseInt: value out of range'')))"

definition Unwrap :: "subscription_id \<Rightarrow> (string \<times> message_type \<times> string) res" where
  "Unwrap sID =
     (case split_on CHR ''-'' sID of
        [sess, ty, sub] \<Rightarrow>
          res_bind (parse_int8 ty) (\<lambda>msgType.
            if msgType > Unknown then Fail (Errorf ''invalid message type'')
            else Ok (sess, msgType, sub))
      | _ \<Rightarrow> Fail (Errorf ''invalid subscriptionID''))"

definition sub_SessionID :: "subscription_id \<Rightarrow> string" where
  "sub_SessionID sID = (case Unwrap sID of Ok (s, _, _) \<Rightarrow> s | _ \<Rightarrow> [])"

definition sub_MessageType :: "subscription_id \<Rightarrow> message_type" where
  "sub_MessageType sID = (case Unwrap sID of Ok (_, t, _) \<Rightarrow> t | _ \<Rightarrow> Unknown)"

definition SubscriptionIdentifier :: "subscription_id \<Rightarrow> string" where
  "SubscriptionIdentifier sID = (case Unwrap sID of Ok (_, _, i) \<Rightarrow> i | _ \<Rightarrow> [])"

section \<open>The subscription manager\<close>

text \<open>
  The innermost Go map (identifier to channel) is an association list, because
  \<open>GetSubscribers\<close> enumerates it.
\<close>

record 'ch sub_manager =
  subscribersMap :: "string \<rightharpoonup> (message_type \<rightharpoonup> (string \<times> 'ch) list)"

definition NewSessionSubscriptionManager :: "'ch sub_manager" where
  "NewSessionSubscriptionManager = \<lparr>subscribersMap = Map.empty\<rparr>"

definition subs_of :: "'ch sub_manager \<Rightarrow> string \<Rightarrow> message_type \<Rightarrow> (string \<times> 'ch) list option" where
  "subs_of ms sess t = Option.bind (subscribersMap ms sess) (\<lambda>m. m t)"

definition GetSubscribers :: "'ch sub_manager \<Rightarrow> string \<Rightarrow> message_type \<Rightarrow> 'ch list" where
  "GetSubscribers ms sess t = (case subs_of ms sess t of None \<Rightarrow> [] | Some al \<Rightarrow> map snd al)"

definition SubscribeTo ::
  "'ch sub_manager \<Rightarrow> string \<Rightarrow> message_type \<Rightarrow> 'ch \<Rightarrow> nat \<Rightarrow> subscription_id \<times> 'ch sub_manager" where
  "SubscribeTo ms sess t channel now =
     (let byType = (case subscribersMap ms sess of None \<Rightarrow> Map.empty | Some m \<Rightarrow> m);
          subs = (case byType t of None \<Rightarrow> [] | Some al \<Rightarrow> al);
          subID = NewSubscriptionID sess t now
      in (subID,
          ms\<lparr>subscribersMap := (subscribersMap ms)
               (sess \<mapsto> byType(t \<mapsto> AList.update (SubscriptionIdentifier subID) channel subs))\<rparr>))"

definition UnSubscribeFrom :: "'ch sub_manager \<Rightarrow> subscription_id \<Rightarrow> 'ch sub_manager" where
  "UnSubscribeFrom ms subscriptionID =
     (case Unwrap subscriptionID of
        Ok (sess, t, subID) \<Rightarrow>
          (case subscribersMap ms sess of
             None \<Rightarrow> ms
           | Some byType \<Rightarrow>
               (case byType t of
                  None \<Rightarrow> ms
                | Some al \<Rightarrow>
                    (if map_of al subID = None then ms
                     else ms\<lparr>subscribersMap := (subscribersMap ms)
                               (sess \<mapsto> byType(t \<mapsto> AList.delete subID al))\<rparr>)))
      | _ \<Rightarrow> ms)"

section \<open>Identifiers and their parts\<close>

lemma show_int_nonneg: "0 \<le> t \<Longrightarrow> show_int t = show_nat (nat t)"
  by (simp add: show_int_def)

lemma parse_int8_show: "0 \<le> t \<Longrightarrow> t \<le> Unknown \<Longrightarrow> parse_int8 (show_nat (nat t)) = Ok t"
  by (simp add: parse_int8_def set_string10_show_nat)

lemma Unwrap_NewSubscriptionID:
  assumes "CHR ''-'' \<notin> set sess" and "0 \<le> t" and "t \<le> Unknown"
  shows "Unwrap (NewSubscriptionID sess t now) = Ok (sess, t, show_nat now)"
  using assms
  by (simp add: Unwrap_def NewSubscriptionID_def show_int_nonneg split_on_append split_on_notin
      parse_int8_show)

lemma Unwrap_dashed:
  assumes "CHR ''-'' \<in> set sess"
  shows "Unwrap (NewSubscriptionID sess t now) = Fail (Errorf ''invalid subscriptionID'')"
proof -
  have "count_list sess CHR ''-'' \<noteq> 0"
    using assms by (simp add: count_list_0_iff)
  then have "3 < length (split_on CHR ''-'' (NewSubscriptionID sess t now))"
    by (simp add: length_split_on NewSubscriptionID_def)
  then show ?thesis
    by (auto simp: Unwrap_def split: list.splits)
qed

lemma SubscriptionIdentifier_dashed:
  "CHR ''-'' \<in> set sess \<Longrightarrow> SubscriptionIdentifier (NewSubscriptionID sess t now) = []"
  by (simp add: SubscriptionIdentifier_def Unwrap_dashed)

lemma SubscriptionIdentifier_plain:
  "CHR ''-'' \<notin> set sess \<Longrightarrow> 0 \<le> t \<Longrightarrow> t \<le> Unknown \<Longrightarrow>
   SubscriptionIdentifier (NewSubscriptionID sess t now) = show_nat now"
  by (simp add: SubscriptionIdentifier_def Unwrap_NewSubscriptionID)

section \<open>The registry contract\<close>

text \<open>
  What a client of the manager relies on. \<open>chan m k n\<close> is the channel registered under key \<open>k\<close> and
  number \<open>n\<close>, \<open>mk k n\<close> the identifier it was given, \<open>ok\<close> the keys the contract speaks of and \<open>inv\<close>
  the managers it is kept on.
\<close>

text \<open>The abstract registry: a map from keys and numbers to channels, and its two operations.\<close>

datatype ('k, 'c) registry_op = Register 'k nat 'c | Release 'k nat

fun op_key :: "('k, 'c) registry_op \<Rightarrow> 'k" where
  "op_key (Register k n c) = k"
| "op_key (Release k n) = k"

fun registry_step :: "('k \<times> nat \<rightharpoonup> 'c) \<Rightarrow> ('k, 'c) registry_op \<Rightarrow> ('k \<times> nat \<rightharpoonup> 'c)" where
  "registry_step a (Register k n c) = a((k, n) \<mapsto> c)"
| "registry_step a (Release k n) = a((k, n) := None)"

locale registry =
  fixes get :: "'m \<Rightarrow> 'k \<Rightarrow> 'c list"
    and sub :: "'m \<Rightarrow> 'k \<Rightarrow> nat \<Rightarrow> 'c \<Rightarrow> 'i \<times> 'm"
    and unsub :: "'m \<Rightarrow> 'i \<Rightarrow> 'm"
    and mk :: "'k \<Rightarrow> nat \<Rightarrow> 'i"
    and chan :: "'m \<Rightarrow> 'k \<Rightarrow> nat \<Rightarrow> 'c option"
    and ok :: "'k \<Rightarrow> bool"
    and inv :: "'m \<Rightarrow> bool"
  assumes sub_id: "fst (sub m k n c) = mk k n"
    and chan_sub: "ok k \<Longrightarrow> ok k' \<Longrightarrow>
      chan (snd (sub m k n c)) k' n' = (if k' = k \<and> n' = n then Some c else chan m k' n')"
    and chan_unsub: "ok k \<Longrightarrow> ok k' \<Longrightarrow>
      chan (unsub m (mk k n)) k' n' = (if k' = k \<and> n' = n then None else chan m k' n')"
    and inv_sub: "ok k \<Longrightarrow> inv m \<Longrightarrow> inv (snd (sub m k n c))"
    and inv_unsub: "ok k \<Longrightarrow> inv m \<Longrightarrow> inv (unsub m (mk k n))"
    and get_chan: "ok k \<Longrightarrow> inv m \<Longrightarrow> set (get m k) = {c. \<exists>n. chan m k n = Some c}"
begin

lemma subscriber_reached: "ok k \<Longrightarrow> inv m \<Longrightarrow> c \<in> set (get (snd (sub m k n c)) k)"
  by (auto simp: get_chan inv_sub chan_sub)

lemma others_kept:
  assumes "ok k" and "inv m" and "chan m k n = None"
  shows "set (get m k) \<subseteq> set (get (snd (sub m k n c)) k)"
proof
  fix x assume "x \<in> set (get m k)"
  then obtain n' where "chan m k n' = Some x" using assms by (auto simp: get_chan)
  with assms(3) have "n' \<noteq> n" by auto
  with \<open>chan m k n' = Some x\<close> assms(1) have "chan (snd (sub m k n c)) k n' = Some x"
    by (simp add: chan_sub)
  with assms show "x \<in> set (get (snd (sub m k n c)) k)"
    by (auto simp: get_chan inv_sub)
qed

lemma unsubscribe_undoes:
  assumes "ok k" and "inv m" and "chan m k n = None"
  shows "set (get (unsub (snd (sub m k n c)) (fst (sub m k n c))) k) = set (get m k)"
proof -
  have "chan (unsub (snd (sub m k n c)) (mk k n)) k = chan m k"
    using assms by (auto simp: fun_eq_iff chan_sub chan_unsub)
  then show ?thesis
    using assms by (simp add: get_chan inv_sub inv_unsub sub_id)
qed

text \<open>Two subscriptions released in reverse order by two deferred calls.\<close>

lemma nested_subscriptions_undone:
  assumes "ok k1" "ok k2" "ok k" and "inv m" and "chan m k1 n1 = None" "chan m k2 n2 = None"
    and "(k1, n1) \<noteq> (k2, n2)"
  shows "set (get (unsub (unsub (snd (sub (snd (sub m k1 n1 c1)) k2 n2 c2)) (mk k2 n2)) (mk k1 n1)) k)
    = set (get m k)"
proof -
  have "chan (unsub (unsub (snd (sub (snd (sub m k1 n1 c1)) k2 n2 c2)) (mk k2 n2)) (mk k1 n1)) k
      = chan m k"
    using assms by (auto simp: fun_eq_iff chan_sub chan_unsub)
  then show ?thesis
    using assms by (simp add: get_chan inv_sub inv_unsub)
qed

text \<open>An implementation that keeps to the contract refines the abstract registry.\<close>

definition op_step :: "'m \<Rightarrow> ('k, 'c) registry_op \<Rightarrow> 'm" where
  "op_step m x = (case x of Register k n c \<Rightarrow> snd (sub m k n c) | Release k n \<Rightarrow> unsub m (mk k n))"

lemma op_step_refines:
  assumes "inv m" and "\<And>k n. ok k \<Longrightarrow> chan m k n = a (k, n)" and "ok (op_key x)"
  shows "inv (op_step m x) \<and> (\<forall>k n. ok k \<longrightarrow> chan (op_step m x) k n = registry_step a x (k, n))"
  using assms by (cases x) (auto simp: op_step_def inv_sub inv_unsub chan_sub chan_unsub)

lemma refines:
  assumes "inv m" and "\<And>k n. ok k \<Longrightarrow> chan m k n = a (k, n)" and "\<forall>x \<in> set xs. ok (op_key x)"
  shows "inv (foldl op_step m xs) \<and> (\<forall>k n. ok k \<longrightarrow> chan (foldl op_step m xs) k n = foldl registry_step a xs (k, n))"
  using assms
proof (induction xs arbitrary: m a)
  case (Cons x xs)
  have s: "inv (op_step m x)" "\<And>k n. ok k \<Longrightarrow> chan (op_step m x) k n = registry_step a x (k, n)"
    using op_step_refines [of m a x] Cons.prems by simp_all
  show ?case using Cons.IH [OF s] Cons.prems(3) by simp
qed simp

lemma subscribers_refined:
  assumes "inv m" and "\<And>k n. ok k \<Longrightarrow> chan m k n = a (k, n)" and "\<forall>x \<in> set xs. ok (op_key x)" and "ok k"
  shows "set (get (foldl op_step m xs) k) = {c. \<exists>n. foldl registry_step a xs (k, n) = Some c}"
  using refines [OF assms(1-3)] get_chan [OF assms(4)] assms(4) by simp

end

text \<open>The keys of the manager that keep to the contract: sessions without a dash.\<close>

definition plain_key :: "string \<times> message_type \<Rightarrow> bool" where
  "plain_key k \<longleftrightarrow> CHR ''-'' \<notin> set (fst k) \<and> 0 \<le> snd k \<and> snd k \<le> Unknown"

definition registered :: "'ch sub_manager \<Rightarrow> string \<times> message_type \<Rightarrow> nat \<Rightarrow> 'ch option" where
  "registered ms k n = Option.bind (subs_of ms (fst k) (snd k)) (\<lambda>al. map_of al (show_nat n))"

definition entry_inv :: "string \<Rightarrow> message_type \<Rightarrow> (string \<times> 'ch) list \<Rightarrow> bool" where
  "entry_inv sess t al \<longleftrightarrow>
     distinct (map fst al) \<and>
     (plain_key (sess, t) \<longrightarrow> fst ` set al \<subseteq> range show_nat) \<and>
     (CHR ''-'' \<in> set sess \<longrightarrow> fst ` set al \<subseteq> {[]})"

definition manager_inv :: "'ch sub_manager \<Rightarrow> bool" where
  "manager_inv ms \<longleftrightarrow> (\<forall>sess t al. subs_of ms sess t = Some al \<longrightarrow> entry_inv sess t al)"

lemma subs_of_SubscribeTo:
  "subs_of (snd (SubscribeTo ms sess t c now)) sess' t' =
     (if sess' = sess \<and> t' = t
      then Some (AList.update (SubscriptionIdentifier (NewSubscriptionID sess t now)) c
                  (case subs_of ms sess t of None \<Rightarrow> [] | Some al \<Rightarrow> al))
      else subs_of ms sess' t')"
  by (auto simp: subs_of_def SubscribeTo_def Let_def split: option.splits)

lemma subs_of_UnSubscribeFrom:
  assumes "plain_key (sess, t)"
  shows "subs_of (UnSubscribeFrom ms (NewSubscriptionID sess t now)) sess' t' =
     (if sess' = sess \<and> t' = t then map_option (AList.delete (show_nat now)) (subs_of ms sess t)
      else subs_of ms sess' t')"
  using assms
  by (auto simp: subs_of_def UnSubscribeFrom_def plain_key_def Unwrap_NewSubscriptionID
      map_of_eq_None_iff
      split: option.splits)

lemma keys_update: "fst ` set (AList.update i c al) = insert i (fst ` set al)"
  using dom_update [of i c al] by (simp add: dom_map_of_conv_image_fst)

lemma entry_inv_Nil: "entry_inv sess t []"
  by (simp add: entry_inv_def)

lemma entry_inv_update:
  assumes "entry_inv sess t al"
  shows "entry_inv sess t
    (AList.update (SubscriptionIdentifier (NewSubscriptionID sess t now)) c al)"
  using assms
  by (auto simp: entry_inv_def distinct_update keys_update SubscriptionIdentifier_plain
      SubscriptionIdentifier_dashed plain_key_def)

lemma entry_inv_delete:
  assumes "entry_inv sess t al"
  shows "entry_inv sess t (AList.delete i al)"
proof -
  have "fst ` set (AList.delete i al) \<subseteq> fst ` set al"
    by (auto simp: AList.delete_eq)
  with assms show ?thesis
    by (auto simp: entry_inv_def distinct_delete)
qed

lemma manager_inv_SubscribeTo:
  assumes "manager_inv ms"
  shows "manager_inv (snd (SubscribeTo ms sess t c now))"
proof -
  have "entry_inv sess t (case subs_of ms sess t of None \<Rightarrow> [] | Some al \<Rightarrow> al)"
    using assms by (auto simp: manager_inv_def entry_inv_Nil split: option.splits)
  then show ?thesis
    using assms by (simp add: manager_inv_def subs_of_SubscribeTo entry_inv_update)
qed

lemma manager_inv_New: "manager_inv NewSessionSubscriptionManager"
  by (simp add: manager_inv_def NewSessionSubscriptionManager_def subs_of_def)

lemma registered_New: "registered NewSessionSubscriptionManager k n = None"
  by (simp add: registered_def subs_of_def NewSessionSubscriptionManager_def)

lemma manager_inv_UnSubscribeFrom:
  assumes "manager_inv ms"
  shows "manager_inv (UnSubscribeFrom ms i)"
proof (cases "Unwrap i")
  case (Ok x)
  obtain sess t sub where x: "x = (sess, t, sub)" by (cases x) auto
  have "subs_of (UnSubscribeFrom ms i) sess' t' = Some al \<Longrightarrow>
      \<exists>al'. subs_of ms sess' t' = Some al' \<and> (al = al' \<or> al = AList.delete sub al')" for sess' t' al
    using Ok x
    by (auto simp: UnSubscribeFrom_def subs_of_def split: option.splits if_splits)
  then show ?thesis
    using assms unfolding manager_inv_def by (metis entry_inv_delete)
qed (use assms in \<open>simp_all add: UnSubscribeFrom_def\<close>)

interpretation plain: registry
  "\<lambda>ms k. GetSubscribers ms (fst k) (snd k)"
  "\<lambda>ms k n c. SubscribeTo ms (fst k) (snd k) c n"
  UnSubscribeFrom
  "\<lambda>k n. NewSubscriptionID (fst k) (snd k) n"
  registered plain_key manager_inv
proof (unfold_locales, goal_cases)
  case (1 m k n c)
  then show ?case by (simp add: SubscribeTo_def Let_def)
next
  case (2 k k' m n c n')
  then show ?case
    by (auto simp: registered_def subs_of_SubscribeTo plain_key_def SubscriptionIdentifier_plain
        update_conv' prod_eq_iff split: option.splits)
next
  case (3 k k' m n n')
  then show ?case
    using subs_of_UnSubscribeFrom [of "fst k" "snd k" m n "fst k'" "snd k'"]
    by (cases "subs_of m (fst k) (snd k)")
      (auto simp: registered_def prod_eq_iff delete_conv')
next
  case (4 k m n c)
  then show ?case by (simp add: manager_inv_SubscribeTo)
next
  case (5 k m n)
  then show ?case by (simp add: manager_inv_UnSubscribeFrom)
next
  case (6 k m)
  show ?case
  proof (cases "subs_of m (fst k) (snd k)")
    case None
    then show ?thesis by (simp add: GetSubscribers_def registered_def)
  next
    case (Some al)
    with 6 have d: "distinct (map fst al)" and keys: "fst ` set al \<subseteq> range show_nat"
      by (auto simp: manager_inv_def entry_inv_def)
    have "snd ` set al = {c. \<exists>n. map_of al (show_nat n) = Some c}"
    proof (intro equalityI subsetI)
      fix c assume "c \<in> snd ` set al"
      then obtain i where i: "(i, c) \<in> set al" by auto
      with keys obtain n where "i = show_nat n" by force
      with i d show "c \<in> {c. \<exists>n. map_of al (show_nat n) = Some c}" by auto
    qed (force dest: map_of_SomeD)
    with Some show ?thesis
      by (simp add: GetSubscribers_def registered_def)
  qed
qed

section \<open>What the manager guarantees\<close>

text \<open>A channel subscribed to a session whose name has no dash is among the subscribers
  of that session and message type, and unsubscribing with the identifier that was returned
  gives back exactly the subscribers there were before.\<close>

theorem subscribe_unsubscribe_plain:
  assumes "plain_key (sess, t)" and "manager_inv ms" and "registered ms (sess, t) now = None"
    and "SubscribeTo ms sess t channel now = (subID, ms')"
  shows "channel \<in> set (GetSubscribers ms' sess t)
    \<and> set (GetSubscribers (UnSubscribeFrom ms' subID) sess t) = set (GetSubscribers ms sess t)"
  using plain.subscriber_reached [of "(sess, t)" ms channel now]
    plain.unsubscribe_undoes [of "(sess, t)" ms now channel] assms
  by simp

theorem subscribe_unsubscribe_plain_witness:
  "7 \<in> set (GetSubscribers (snd (SubscribeTo NewSessionSubscriptionManager ''signatures'' SignatureMsg (7::nat) 42)) ''signatures'' SignatureMsg)
   \<and> set (GetSubscribers (UnSubscribeFrom
        (snd (SubscribeTo NewSessionSubscriptionManager ''signatures'' SignatureMsg (7::nat) 42))
        (fst (SubscribeTo NewSessionSubscriptionManager ''signatures'' SignatureMsg (7::nat) 42)))
        ''signatures'' SignatureMsg)
     = set (GetSubscribers (NewSessionSubscriptionManager :: nat sub_manager) ''signatures'' SignatureMsg)"
  by (rule subscribe_unsubscribe_plain)
    (simp_all add: plain_key_def manager_inv_New registered_New)

text \<open>For a session whose name contains a dash, as every signing session and every protocol
  session of an EVM chain does, the identifier returned by \<open>SubscribeTo\<close> does not parse, so
  \<open>UnSubscribeFrom\<close> changes nothing and the channel stays subscribed.\<close>

theorem unsubscribe_dashed_leaks:
  assumes "CHR ''-'' \<in> set sess"
    and "SubscribeTo ms sess t channel now = (subID, ms')"
  shows "UnSubscribeFrom ms' subID = ms' \<and> channel \<in> set (GetSubscribers ms' sess t)"
proof -
  have id: "subID = NewSubscriptionID sess t now"
    using assms(2) by (simp add: SubscribeTo_def Let_def)
  have "subs_of ms' sess t = Some (AList.update [] channel
      (case subs_of ms sess t of None \<Rightarrow> [] | Some al \<Rightarrow> al))"
    using subs_of_SubscribeTo [of ms sess t channel now sess t] assms
    by (simp add: SubscriptionIdentifier_dashed)
  moreover have "channel \<in> snd ` set (AList.update [] channel al)" for al
    using update_conv [of "[]" channel al "[]"] by (force dest: map_of_SomeD)
  ultimately show ?thesis
    using assms(1) id by (simp add: UnSubscribeFrom_def Unwrap_dashed GetSubscribers_def)
qed

theorem unsubscribe_dashed_leaks_witness:
  "UnSubscribeFrom
      (snd (SubscribeTo NewSessionSubscriptionManager ''1-55'' TssReadyMsg (7::nat) 42))
      (fst (SubscribeTo NewSessionSubscriptionManager ''1-55'' TssReadyMsg (7::nat) 42))
    = snd (SubscribeTo NewSessionSubscriptionManager ''1-55'' TssReadyMsg 7 42)
   \<and> 7 \<in> set (GetSubscribers
      (snd (SubscribeTo NewSessionSubscriptionManager ''1-55'' TssReadyMsg (7::nat) 42)) ''1-55'' TssReadyMsg)"
  by (rule unsubscribe_dashed_leaks) simp_all

text \<open>C36: for sessions without a dash the subscription manager refines the abstract registry: after any
  sequence of subscriptions and releases the subscribers of a session and message type are the
  channels the registry maps it to, so that nobody is lost, replaced or kept too long.\<close>

theorem subscriptions_refine:
  assumes "\<forall>x \<in> set xs. plain_key (op_key x)" and "plain_key (sess, t)"
  shows "set (GetSubscribers
      (foldl (\<lambda>ms x. case x of
           Register k n c \<Rightarrow> snd (SubscribeTo ms (fst k) (snd k) c n)
         | Release k n \<Rightarrow> UnSubscribeFrom ms (NewSubscriptionID (fst k) (snd k) n))
        NewSessionSubscriptionManager xs) sess t)
    = {c. \<exists>n. foldl registry_step Map.empty xs ((sess, t), n) = Some c}"
  using plain.subscribers_refined [OF manager_inv_New _ assms, of Map.empty]
  by (simp add: plain.op_step_def [abs_def] registered_New)

theorem subscriptions_refine_witness:
  "set (GetSubscribers (UnSubscribeFrom
       (snd (SubscribeTo (snd (SubscribeTo NewSessionSubscriptionManager ''signatures'' SignatureMsg (7::nat) 42)) ''signatures'' SignatureMsg 8 43))
       (NewSubscriptionID ''signatures'' SignatureMsg 42)) ''signatures'' SignatureMsg) = {8}"
  using subscriptions_refine [of "[Register (''signatures'', SignatureMsg) 42 (7::nat), Register (''signatures'', SignatureMsg) 43 8,
      Release (''signatures'', SignatureMsg) 42]" "''signatures''" SignatureMsg]
  by (simp add: plain_key_def)

subsection \<open>Sequences of operations\<close>

datatype 'ch sub_op = Sub string message_type 'ch nat | Unsub subscription_id

fun sub_step :: "'ch sub_manager \<Rightarrow> 'ch sub_op \<Rightarrow> 'ch sub_manager" where
  "sub_step ms (Sub sess t c now) = snd (SubscribeTo ms sess t c now)"
| "sub_step ms (Unsub i) = UnSubscribeFrom ms i"

interpretation manager: event_loop sub_step manager_inv
proof
  fix s :: "'a sub_manager" and e :: "'a sub_op"
  assume "manager_inv s"
  then show "manager_inv (sub_step s e)"
    by (cases e) (auto simp: manager_inv_SubscribeTo manager_inv_UnSubscribeFrom)
qed

text \<open>However subscriptions come and go, a session whose name has a dash has at most one
  subscriber per message type: a second one silently takes the place of the first.\<close>

theorem dashed_single_subscriber:
  assumes "CHR ''-'' \<in> set sess"
  shows "length (GetSubscribers (foldl sub_step NewSessionSubscriptionManager ops) sess t) \<le> 1"
proof (cases "subs_of (foldl sub_step NewSessionSubscriptionManager ops) sess t")
  case (Some al)
  then have "distinct (map fst al)" "set (map fst al) \<subseteq> {[]}"
    using manager.run_keeps [OF manager_inv_New, of ops] assms
    by (auto simp: manager_inv_def entry_inv_def)
  then have "length (map fst al) \<le> 1"
    using card_mono [of "{[]}" "set (map fst al)"] distinct_card [of "map fst al"] by simp
  with Some show ?thesis by (simp add: GetSubscribers_def)
qed (simp add: GetSubscribers_def)

theorem dashed_single_subscriber_witness:
  "length (GetSubscribers (foldl sub_step NewSessionSubscriptionManager
     [Sub ''1-55'' TssReadyMsg (7::nat) 42, Sub ''1-55'' TssReadyMsg 8 43]) ''1-55'' TssReadyMsg) \<le> 1"
  by (rule dashed_single_subscriber) simp

end
