(* ===== verification/Peers.thy ===== *)
theory Peers
  imports Go_Prelude
begin

text \<open>
  Peers, tss parties and the choice of a coordinator: \<open>tss/util\<close>, \<open>tss/ecdsa/common/utils.go\<close>,
  \<open>comm/elector\<close>. The libraries the code calls are arguments of the definitions: \<open>libp2p\<close> holds
  \<open>peer.ID.String\<close> and \<open>peer.Decode\<close>, \<open>tss_lib\<close> the constructor and the sort of party identifiers of
  tss-lib, and \<open>keccak\<close> is \<open>crypto.Keccak256\<close>. The order in which peers are ranked for a session is
  the contract \<open>key_sort\<close>, interpreted here on the slice the code sorts.
\<close>

record libp2p =
  id_String :: "peer \<Rightarrow> string"
  id_Decode :: "string \<Rightarrow> peer res"

text \<open>The local host: its identity and \<open>Peerstore().Peers()\<close>.\<close>

record host =
  host_ID :: peer
  Peerstore :: "peer list"

record party_id =
  Id :: string
  Moniker :: string
  KeyInt :: nat
  Index :: int

record tss_lib =
  NewPartyID :: "string \<Rightarrow> string \<Rightarrow> nat \<Rightarrow> party_id"
  SortPartyIDs :: "party_id list \<Rightarrow> party_id list"

type_synonym keccak = "bytes \<Rightarrow> bytes"

text \<open>\<open>Decode\<close> undoes \<open>String\<close> on a list of peers.\<close>

definition ids_ok :: "libp2p \<Rightarrow> peer list \<Rightarrow> bool" where
  "ids_ok L ps \<longleftrightarrow> (\<forall>p \<in> set ps. id_Decode L (id_String L p) = Ok p)"

lemma ids_ok_inj: "ids_ok L ps \<Longrightarrow> inj_on (id_String L) (set ps)"
  unfolding ids_ok_def inj_on_def by (metis res.inject(1))

text \<open>An instance that prints a peer as its raw identifier.\<close>

definition raw_ids :: libp2p where
  "raw_ids = \<lparr>id_String = id, id_Decode = Ok\<rparr>"

lemma raw_ids_sel [simp]: "id_String raw_ids p = p" "id_Decode raw_ids p = Ok p"
  by (simp_all add: raw_ids_def)

lemma raw_ids_ok [simp]: "ids_ok raw_ids ps"
  by (simp add: ids_ok_def)

section \<open>Parties\<close>

definition CreatePartyID :: "tss_lib \<Rightarrow> string \<Rightarrow> party_id" where
  "CreatePartyID T peerID = NewPartyID T peerID peerID (be_nat (string_bytes peerID))"

definition PeersFromParties :: "libp2p \<Rightarrow> party_id list \<Rightarrow> peer list res" where
  "PeersFromParties L parties = res_map (\<lambda>p. id_Decode L (Id p)) parties"

definition PartiesFromPeers :: "libp2p \<Rightarrow> tss_lib \<Rightarrow> peer list \<Rightarrow> party_id list" where
  "PartiesFromPeers L T peers =
     SortPartyIDs T (map (\<lambda>p. CreatePartyID T (id_String L p)) peers)"

definition PeersFromIDS :: "libp2p \<Rightarrow> string list \<Rightarrow> peer list res" where
  "PeersFromIDS L ids = res_map (id_Decode L) ids"

definition ExcludePeers :: "peer list \<Rightarrow> peer list \<Rightarrow> peer list" where
  "ExcludePeers peers excludedPeers = filter (\<lambda>p. p \<notin> set excludedPeers) peers"

definition PeersIntersection :: "peer list \<Rightarrow> peer list \<Rightarrow> peer list" where
  "PeersIntersection oldPeers newPeers = filter (\<lambda>p. p \<in> set newPeers) oldPeers"

definition IsParticipant :: "libp2p \<Rightarrow> peer \<Rightarrow> peer list \<Rightarrow> bool" where
  "IsParticipant L p peers = list_ex (\<lambda>q. id_String L q = id_String L p) peers"

lemma IsParticipant_iff:
  "ids_ok L (p # ps) \<Longrightarrow> IsParticipant L p ps \<longleftrightarrow> p \<in> set ps"
  using ids_ok_inj [of L "p # ps"]
  by (auto simp: IsParticipant_def list_ex_iff inj_on_def)

section \<open>Ranking peers for a session\<close>

record peer_msg =
  ID :: peer
  msg_SessionID :: string

text \<open>\<open>binary.BigEndian.Uint64\<close> of a hash: its first eight bytes.\<close>

definition be_uint64 :: "bytes \<Rightarrow> uint64" where
  "be_uint64 b = of_nat (be_nat (take 8 b))"

definition session_key :: "libp2p \<Rightarrow> keccak \<Rightarrow> peer_msg \<Rightarrow> uint64" where
  "session_key L K m =
     be_uint64 (K (string_bytes (id_String L (ID m)) @ string_bytes (msg_SessionID m)))"

definition Less :: "libp2p \<Rightarrow> keccak \<Rightarrow> peer_msg \<Rightarrow> peer_msg \<Rightarrow> bool" where
  "Less L K a b \<longleftrightarrow> session_key L K a > session_key L K b"

definition GetPeerIDs :: "peer_msg list \<Rightarrow> peer list" where
  "GetPeerIDs sps = map ID sps"

definition to_peer_msgs :: "peer list \<Rightarrow> string \<Rightarrow> peer_msg list" where
  "to_peer_msgs peers sessionID = map (\<lambda>p. \<lparr>ID = p, msg_SessionID = sessionID\<rparr>) peers"

definition SortPeersForSession :: "libp2p \<Rightarrow> keccak \<Rightarrow> peer list \<Rightarrow> string \<Rightarrow> peer_msg list" where
  "SortPeersForSession L K peers sessionID =
     insertion_sort (Less L K) (to_peer_msgs peers sessionID)"

interpretation ranking: key_sort "session_key L K" "insertion_sort (Less L K)" for L K
proof
  fix xs :: "peer_msg list"
  have Less: "Less L K = (\<lambda>a b. session_key L K b < session_key L K a)"
    by (simp add: fun_eq_iff Less_def)
  show "mset (insertion_sort (Less L K) xs) = mset xs"
    by (rule mset_insertion_sort)
  show "sorted_wrt (\<lambda>x y. \<not> session_key L K x < session_key L K y) (insertion_sort (Less L K) xs)"
    unfolding Less by (rule sorted_insertion_sort)
qed

text \<open>No two of the peers have the same rank in the session.\<close>

definition ranks_distinct :: "libp2p \<Rightarrow> keccak \<Rightarrow> string \<Rightarrow> peer list \<Rightarrow> bool" where
  "ranks_distinct L K sess ps \<longleftrightarrow>
     inj_on (\<lambda>p. session_key L K \<lparr>ID = p, msg_SessionID = sess\<rparr>) (set ps)"

lemma set_to_peer_msgs:
  "set (to_peer_msgs ps sess) = (\<lambda>p. \<lparr>ID = p, msg_SessionID = sess\<rparr>) ` set ps"
  by (simp add: to_peer_msgs_def)

lemma mset_to_peer_msgs_cong:
  "mset ps = mset qs \<Longrightarrow> mset (to_peer_msgs ps sess) = mset (to_peer_msgs qs sess)"
  by (simp add: to_peer_msgs_def)

lemma map_ID_to_peer_msgs [simp]: "map ID (to_peer_msgs ps sess) = ps"
  by (simp add: to_peer_msgs_def comp_def)

lemma mset_SortPeersForSession:
  "mset (map ID (SortPeersForSession L K ps sess)) = mset ps"
  by (metis SortPeersForSession_def map_ID_to_peer_msgs mset_map ranking.srt_mset)

lemma length_SortPeersForSession [simp]: "length (SortPeersForSession L K ps sess) = length ps"
  by (simp add: SortPeersForSession_def ranking.srt_length to_peer_msgs_def)

lemma SortPeersForSession_cong:
  assumes "mset ps = mset qs" and "ranks_distinct L K sess ps"
  shows "SortPeersForSession L K ps sess = SortPeersForSession L K qs sess"
  unfolding SortPeersForSession_def
proof (rule ranking.srt_permutation_invariant)
  show "mset (to_peer_msgs ps sess) = mset (to_peer_msgs qs sess)"
    by (rule mset_to_peer_msgs_cong [OF assms(1)])
  show "inj_on (session_key L K) (set (to_peer_msgs ps sess))"
    using assms(2) by (auto simp: ranks_distinct_def set_to_peer_msgs inj_on_def)
qed

section \<open>Coordinator election\<close>

text \<open>\<open>staticCoordinatorElector.Coordinator\<close>; the empty identifier when there are no peers.\<close>

definition static_Coordinator :: "libp2p \<Rightarrow> keccak \<Rightarrow> string \<Rightarrow> peer list \<Rightarrow> peer" where
  "static_Coordinator L K sessionID peers =
     (case SortPeersForSession L K peers sessionID of [] \<Rightarrow> [] | m # _ \<Rightarrow> ID m)"

datatype elector_type = Static | OtherElector int

definition CoordinatorElector ::
  "libp2p \<Rightarrow> keccak \<Rightarrow> string \<Rightarrow> elector_type \<Rightarrow> (peer list \<Rightarrow> peer) option" where
  "CoordinatorElector L K sessionID ty =
     (case ty of Static \<Rightarrow> Some (static_Coordinator L K sessionID) | OtherElector _ \<Rightarrow> None)"

lemma static_Coordinator_hd:
  assumes "ps \<noteq> []"
  shows "static_Coordinator L K sess ps = ID (hd (SortPeersForSession L K ps sess))"
proof -
  have "SortPeersForSession L K ps sess \<noteq> []"
    using assms by (metis length_0_conv length_SortPeersForSession)
  then show ?thesis
    by (auto simp: static_Coordinator_def split: list.splits)
qed

text \<open>C15: two relayers that hold the same committee, in whatever order, elect the same coordinator
  for a session, the coordinator is one of the committee, and no member outranks it, provided
  no two members have the same rank.\<close>

theorem election_agreement:
  assumes "mset ps = mset qs" and "ps \<noteq> []" and "ranks_distinct L K sess ps"
  shows "static_Coordinator L K sess ps = static_Coordinator L K sess qs
    \<and> static_Coordinator L K sess ps \<in> set ps
    \<and> (\<forall>p \<in> set ps. session_key L K \<lparr>ID = p, msg_SessionID = sess\<rparr>
         \<le> session_key L K \<lparr>ID = static_Coordinator L K sess ps, msg_SessionID = sess\<rparr>)"
proof -
  let ?ms = "to_peer_msgs ps sess"
  let ?h = "hd (insertion_sort (Less L K) ?ms)"
  have "?ms \<noteq> []" using assms(2) by (simp add: to_peer_msgs_def)
  then have h: "?h \<in> set ?ms" "\<forall>y \<in> set ?ms. session_key L K y \<le> session_key L K ?h"
    using ranking.srt_hd_max by blast+
  have c: "static_Coordinator L K sess ps = ID ?h"
    using assms(2) by (simp add: static_Coordinator_hd SortPeersForSession_def)
  then have "\<lparr>ID = static_Coordinator L K sess ps, msg_SessionID = sess\<rparr> = ?h"
    using h(1) by (auto simp: set_to_peer_msgs)
  moreover have "static_Coordinator L K sess ps = static_Coordinator L K sess qs"
    by (simp add: static_Coordinator_def SortPeersForSession_cong [OF assms(1,3)])
  ultimately show ?thesis
    using h c by (auto simp: set_to_peer_msgs)
qed

theorem election_agreement_witness:
  "static_Coordinator raw_ids id ''1-5'' [''aaaaaaaa'', ''bbbbbbbb'']
     = static_Coordinator raw_ids id ''1-5'' [''bbbbbbbb'', ''aaaaaaaa'']
   \<and> static_Coordinator raw_ids id ''1-5'' [''aaaaaaaa'', ''bbbbbbbb'']
       \<in> set [''aaaaaaaa'', ''bbbbbbbb'']"
proof -
  have ms: "mset [''aaaaaaaa'', ''bbbbbbbb''] = mset [''bbbbbbbb'', ''aaaaaaaa'']" by simp
  have rd: "ranks_distinct raw_ids id ''1-5'' [''aaaaaaaa'', ''bbbbbbbb'']"
    by (auto simp: ranks_distinct_def session_key_def be_uint64_def be_nat_def string_bytes_def)
  show ?thesis using election_agreement [OF ms _ rd] by blast
qed

end
