(* ===== verification/Tss_Base.thy ===== *)
theory Tss_Base
  imports Comm Peers
begin

text \<open>
  What every tss process shares: the messages of \<open>tss/message/message.go\<close> and the party store,
  the inbound and the outbound loop of \<open>tss/ecdsa/common/base.go\<close>. The local party of tss-lib is
  a state of type \<open>'p\<close> with its \<open>UpdateFromBytes\<close> as an argument.
\<close>

section \<open>Messages\<close>

record tss_message_json =
  MsgBytes :: bytes
  IsBroadcast :: bool

definition tss_json :: "json_text \<Rightarrow> bytes \<Rightarrow> bool \<Rightarrow> json" where
  "tss_json J b bc = JObj [(''msgBytes'', JStr (b64enc J b)), (''isBroadcast'', JBool bc)]"

definition MarshalTssMessage :: "json_text \<Rightarrow> bytes \<Rightarrow> bool \<Rightarrow> bytes res" where
  "MarshalTssMessage J msgBytes isBroadcast = Ok (jrender J (tss_json J msgBytes isBroadcast))"

definition UnmarshalTssMessage :: "json_text \<Rightarrow> bytes \<Rightarrow> tss_message_json res" where
  "UnmarshalTssMessage J b =
     res_bind (json_unmarshal_tree J b) (\<lambda>j.
     res_bind (members j) (\<lambda>kvs.
     res_bind (struct_field kvs ''msgBytes'' (dec_bytes J) []) (\<lambda>mb.
     res_bind (struct_field kvs ''isBroadcast'' dec_bool False) (\<lambda>bc.
     Ok \<lparr>MsgBytes = mb, IsBroadcast = bc\<rparr>))))"

record start_message =
  Params :: bytes

definition start_json :: "json_text \<Rightarrow> bytes \<Rightarrow> json" where
  "start_json J params = JObj [(''params'', JStr (b64enc J params))]"

definition MarshalStartMessage :: "json_text \<Rightarrow> bytes \<Rightarrow> bytes res" where
  "MarshalStartMessage J params = Ok (jrender J (start_json J params))"

definition UnmarshalStartMessage :: "json_text \<Rightarrow> bytes \<Rightarrow> start_message res" where
  "UnmarshalStartMessage J b =
     res_bind (json_unmarshal_tree J b) (\<lambda>j.
     res_bind (members j) (\<lambda>kvs.
     res_bind (struct_field kvs ''params'' (dec_bytes J) []) (\<lambda>p.
     Ok \<lparr>Params = p\<rparr>)))"

record signature_message =
  Signature :: bytes
  SigID :: string

definition signature_json :: "json_text \<Rightarrow> string \<Rightarrow> bytes \<Rightarrow> json" where
  "signature_json J sid signature =
     JObj [(''signature'', JStr (b64enc J signature)), (''id'', JStr sid)]"

definition MarshalSignatureMessage :: "json_text \<Rightarrow> string \<Rightarrow> bytes \<Rightarrow> bytes res" where
  "MarshalSignatureMessage J sid signature = Ok (jrender J (signature_json J sid signature))"

definition UnmarshalSignatureMessage :: "json_text \<Rightarrow> bytes \<Rightarrow> signature_message res" where
  "UnmarshalSignatureMessage J b =
     res_bind (json_unmarshal_tree J b) (\<lambda>j.
     res_bind (members j) (\<lambda>kvs.
     res_bind (struct_field kvs ''signature'' (dec_bytes J) []) (\<lambda>s.
     res_bind (struct_field kvs ''id'' dec_string []) (\<lambda>i.
     Ok \<lparr>Signature = s, SigID = i\<rparr>))))"

lemmas field_eval = jfield_def fold_name_def lower_char_def char_of_def struct_field_def

lemma UnmarshalTssMessage_render:
  "text_ok J (tss_json J b bc) \<Longrightarrow> b64_ok J b \<Longrightarrow>
   UnmarshalTssMessage J (jrender J (tss_json J b bc)) = Ok \<lparr>MsgBytes = b, IsBroadcast = bc\<rparr>"
  by (simp add: UnmarshalTssMessage_def)
    (simp add: tss_json_def field_eval b64_ok_def)

lemma UnmarshalStartMessage_render:
  "text_ok J (start_json J p) \<Longrightarrow> b64_ok J p \<Longrightarrow>
   UnmarshalStartMessage J (jrender J (start_json J p)) = Ok \<lparr>Params = p\<rparr>"
  by (simp add: UnmarshalStartMessage_def)
    (simp add: start_json_def field_eval b64_ok_def)

lemma UnmarshalSignatureMessage_render:
  "text_ok J (signature_json J i s) \<Longrightarrow> b64_ok J s \<Longrightarrow>
   UnmarshalSignatureMessage J (jrender J (signature_json J i s)) = Ok \<lparr>Signature = s, SigID = i\<rparr>"
  by (simp add: UnmarshalSignatureMessage_def)
    (simp add: signature_json_def field_eval b64_ok_def)

section \<open>The state of a process\<close>

text \<open>\<open>TssTimeout\<close> is in seconds; the host and the communication layer are arguments.\<close>

record base_tss =
  SID :: string
  PartyStore :: "string \<rightharpoonup> party_id"
  Started :: bool
  ProcPeers :: "peer list"
  TssTimeout :: nat

fun populate :: "(string \<rightharpoonup> party_id) \<Rightarrow> party_id list \<Rightarrow> (string \<rightharpoonup> party_id)" where
  "populate m [] = m"
| "populate m (p # ps) = populate (m(Id p \<mapsto> p)) ps"

definition PopulatePartyStore :: "'a base_tss_scheme \<Rightarrow> party_id list \<Rightarrow> 'a base_tss_scheme" where
  "PopulatePartyStore b parties = b\<lparr>PartyStore := populate (PartyStore b) parties\<rparr>"

definition session_number :: "'a base_tss_scheme \<Rightarrow> nat" where
  "session_number b = be_nat (string_bytes (SID b))"

lemma populate_notin: "i \<notin> Id ` set ps \<Longrightarrow> populate m ps i = m i"
  by (induction ps arbitrary: m) auto

lemma populate_distinct:
  "distinct (map Id ps) \<Longrightarrow> p \<in> set ps \<Longrightarrow> populate m ps (Id p) = Some p"
  by (induction ps arbitrary: m) (auto simp: populate_notin image_iff)

lemma populate_dom: "dom (populate m ps) = dom m \<union> Id ` set ps"
  by (induction ps arbitrary: m) auto

section \<open>Inbound messages\<close>

text \<open>
  \<open>Party.UpdateFromBytes\<close>: the party's new state and whether the message was accepted. A panic
  inside the handling of one message is recovered and leaves the party as it was.
\<close>

type_synonym 'p updater = "'p \<Rightarrow> bytes \<Rightarrow> party_id option \<Rightarrow> bool \<Rightarrow> nat \<Rightarrow> ('p \<times> bool) res"

definition process_inbound ::
  "json_text \<Rightarrow> libp2p \<Rightarrow> 'p updater \<Rightarrow> 'a base_tss_scheme \<Rightarrow> 'p \<Rightarrow> wrapped_message \<Rightarrow> 'p" where
  "process_inbound J L upd b p wMsg =
     (case UnmarshalTssMessage J (Payload wMsg) of
        Ok m \<Rightarrow>
          (case upd p (MsgBytes m) (PartyStore b (id_String L (From wMsg))) (IsBroadcast m)
                  (session_number b) of
             Ok (p', _) \<Rightarrow> p'
           | _ \<Rightarrow> p)
      | _ \<Rightarrow> p)"

datatype in_event = InMsg wrapped_message | InDone

fun ProcessInboundMessages ::
  "json_text \<Rightarrow> libp2p \<Rightarrow> 'p updater \<Rightarrow> 'a base_tss_scheme \<Rightarrow> 'p \<Rightarrow> in_event list \<Rightarrow> 'p" where
  "ProcessInboundMessages J L upd b p [] = p"
| "ProcessInboundMessages J L upd b p (InDone # es) = p"
| "ProcessInboundMessages J L upd b p (InMsg m # es) =
     ProcessInboundMessages J L upd b (process_inbound J L upd b p m) es"

section \<open>Outbound messages\<close>

text \<open>A message of tss-lib: \<open>WireBytes()\<close>, \<open>IsBroadcast()\<close>, \<open>GetTo()\<close>.\<close>

record tss_out =
  WireBytes :: "(bytes \<times> bool) res"
  out_IsBroadcast :: bool
  GetTo :: "party_id list"

text \<open>The arguments of one call of \<open>Communication.Broadcast\<close>.\<close>

record send =
  to :: "peer list"
  body :: bytes
  kind :: message_type
  session :: string

definition BroadcastPeers :: "libp2p \<Rightarrow> 'a base_tss_scheme \<Rightarrow> tss_out \<Rightarrow> peer list res" where
  "BroadcastPeers L b msg =
     (if out_IsBroadcast msg then Ok (ProcPeers b) else PeersFromParties L (GetTo msg))"

definition process_outbound ::
  "json_text \<Rightarrow> libp2p \<Rightarrow> 'a base_tss_scheme \<Rightarrow> message_type \<Rightarrow> tss_out \<Rightarrow> send res" where
  "process_outbound J L b messageType msg =
     res_bind (WireBytes msg) (\<lambda>(wireBytes, routingIsBroadcast).
     res_bind (MarshalTssMessage J wireBytes routingIsBroadcast) (\<lambda>msgBytes.
     res_bind (BroadcastPeers L b msg) (\<lambda>peers.
     Ok \<lparr>to = peers, body = msgBytes, kind = messageType, session = SID b\<rparr>)))"

datatype out_event = OutMsg tss_out | OutDone

text \<open>The loop: a message that cannot be prepared is logged and skipped.\<close>

fun ProcessOutboundMessages ::
  "json_text \<Rightarrow> libp2p \<Rightarrow> 'a base_tss_scheme \<Rightarrow> message_type \<Rightarrow> out_event list \<Rightarrow> send list" where
  "ProcessOutboundMessages J L b t [] = []"
| "ProcessOutboundMessages J L b t (OutDone # es) = []"
| "ProcessOutboundMessages J L b t (OutMsg m # es) =
     (case process_outbound J L b t m of Ok s \<Rightarrow> [s] | _ \<Rightarrow> []) @ ProcessOutboundMessages J L b t es"

section \<open>From one party to another\<close>

text \<open>C32: a message that one party of a session hands out reaches the local party of another with
  the same bytes, the same broadcast flag, the same session number and the sender's own party
  identifier, taken from who sent the message and not from its contents.\<close>

theorem tss_message_delivery:
  assumes "process_outbound J L sender t msg = Ok s"
    and "WireBytes msg = Ok (wire, bc)"
    and "text_ok J (tss_json J wire bc)" and "b64_ok J wire"
    and "SID receiver = SID sender"
    and "Payload w = body s" and "From w = peerID"
    and "PartyStore receiver (id_String L peerID) = Some fromParty"
    and "upd p wire (Some fromParty) bc (session_number sender) = Ok (p', accepted)"
  shows "process_inbound J L upd receiver p w = p' \<and> session s = SID receiver \<and> kind s = t"
proof -
  have s: "body s = jrender J (tss_json J wire bc)" "session s = SID sender" "kind s = t"
    using assms(1,2) by (auto simp: process_outbound_def MarshalTssMessage_def res_simps)
  then have "UnmarshalTssMessage J (Payload w) = Ok \<lparr>MsgBytes = wire, IsBroadcast = bc\<rparr>"
    using assms(3,4,6) by (simp add: UnmarshalTssMessage_render)
  moreover have "session_number receiver = session_number sender"
    using assms(5) by (simp add: session_number_def)
  ultimately show ?thesis
    using assms(5,7,8,9) s by (simp add: process_inbound_def)
qed

theorem tss_message_delivery_witness:
  "let J = \<lparr>jrender = (\<lambda>_. [1]), jparse = (\<lambda>_. Some (JObj [(''msgBytes'', JStr ''BQ==''), (''isBroadcast'', JBool True)])),
            b64enc = (\<lambda>_. ''BQ==''), b64dec = (\<lambda>_. Some [5])\<rparr>;
       L = \<lparr>id_String = id, id_Decode = Ok\<rparr>;
       pa = \<lparr>Id = ''a'', Moniker = ''a'', KeyInt = 97, Index = 0\<rparr>;
       b = \<lparr>SID = ''1-5'', PartyStore = [''a'' \<mapsto> pa], Started = True, ProcPeers = [''a'', ''b''], TssTimeout = 8\<rparr>;
       msg = \<lparr>WireBytes = Ok ([5], True), out_IsBroadcast = True, GetTo = []\<rparr>;
       s = \<lparr>to = [''a'', ''b''], body = [1], kind = TssKeySignMsg, session = ''1-5''\<rparr>;
       w = \<lparr>MessageType = TssKeySignMsg, SessionID = ''1-5'', Payload = [1], From = ''a''\<rparr>;
       upd = (\<lambda>p m f bc n. Ok (p + 1, True))
   in process_inbound J L upd b (0::nat) w = 1 \<and> session s = SID b \<and> kind s = TssKeySignMsg"
  unfolding Let_def
  by (rule tss_message_delivery [where wire = "[5]" and bc = True and peerID = "''a''"
        and fromParty = "\<lparr>Id = ''a'', Moniker = ''a'', KeyInt = 97, Index = 0\<rparr>" and accepted = True
        and sender = "\<lparr>SID = ''1-5'', PartyStore = [''a'' \<mapsto> \<lparr>Id = ''a'', Moniker = ''a'', KeyInt = 97, Index = 0\<rparr>],
          Started = True, ProcPeers = [''a'', ''b''], TssTimeout = 8\<rparr>"
        and msg = "\<lparr>WireBytes = Ok ([5], True), out_IsBroadcast = True, GetTo = []\<rparr>"])
    (simp_all add: text_ok_def b64_ok_def tss_json_def process_outbound_def MarshalTssMessage_def
      BroadcastPeers_def)

end
