(* ===== verification/Keyshare.thy ===== *)
theory Keyshare
  imports Go_Json Peers
begin

text \<open>
  The key share of a relayer and the file it is kept in: \<open>keyshare/ecdsa.go\<close>. The key material
  (\<open>keygen.LocalPartySaveData\<close> of tss-lib) is a type parameter with its JSON codec as an argument.
  The store is a mutex and a file; a lock taken twice waits, an unlock of a free mutex is the
  fatal error of \<open>sync.Mutex\<close>.
\<close>

record 'k keyshare =
  Key :: 'k
  Threshold :: int
  KeyPeers :: "peer list"

definition NewECDSAKeyshare :: "'k \<Rightarrow> int \<Rightarrow> peer list \<Rightarrow> 'k keyshare" where
  "NewECDSAKeyshare key threshold peers =
     \<lparr>Key = key, Threshold = threshold, KeyPeers = peers\<rparr>"

text \<open>The JSON codec of the key material, from tss-lib, and its zero value.\<close>

record 'k key_codec =
  key_json :: "'k \<Rightarrow> json res"
  key_of_json :: "json \<Rightarrow> 'k \<Rightarrow> 'k res"
  key_zero :: 'k

definition marshal_keyshare ::
  "json_text \<Rightarrow> libp2p \<Rightarrow> 'k key_codec \<Rightarrow> 'k keyshare \<Rightarrow> bytes res" where
  "marshal_keyshare J L C k =
     res_bind (key_json C (Key k)) (\<lambda>kj.
     Ok (jrender J (JObj [(''Key'', kj), (''Threshold'', JNum (Threshold k)),
                          (''Peers'', JArr (map (\<lambda>p. JStr (id_String L p)) (KeyPeers k)))])))"

definition unmarshal_keyshare ::
  "json_text \<Rightarrow> libp2p \<Rightarrow> 'k key_codec \<Rightarrow> bytes \<Rightarrow> 'k keyshare res" where
  "unmarshal_keyshare J L C b =
     res_bind (json_unmarshal_tree J b) (\<lambda>j.
     res_bind (members j) (\<lambda>kvs.
     res_bind (struct_field kvs ''Key'' (key_of_json C) (key_zero C)) (\<lambda>key.
     res_bind (struct_field kvs ''Threshold'' dec_int64 0) (\<lambda>t.
     res_bind (struct_field kvs ''Peers'' (dec_text_list (id_Decode L) []) []) (\<lambda>ps.
     Ok \<lparr>Key = key, Threshold = t, KeyPeers = ps\<rparr>)))))"

section \<open>The store\<close>

record ks_store =
  locked :: bool
  ks_file :: "bytes option"

definition NewECDSAKeyshareStore :: "bytes option \<Rightarrow> ks_store" where
  "NewECDSAKeyshareStore contents = \<lparr>locked = False, ks_file = contents\<rparr>"

text \<open>\<open>LockKeyshare\<close>: \<open>None\<close> while another goroutine holds the mutex.\<close>

definition LockKeyshare :: "ks_store \<Rightarrow> ks_store option" where
  "LockKeyshare ks = (if locked ks then None else Some (ks\<lparr>locked := True\<rparr>))"

definition UnlockKeyshare :: "ks_store \<Rightarrow> ks_store res" where
  "UnlockKeyshare ks =
     (if locked ks then Ok (ks\<lparr>locked := False\<rparr>)
      else Panic ''sync: unlock of unlocked mutex'')"

text \<open>
  What the operating system does to the calls of \<open>StoreKeyshare\<close>: the error of \<open>os.OpenFile\<close>, and
  the number of bytes a failing \<open>Write\<close> got to the file with its error.
\<close>

record file_ops =
  open_err :: "go_error option"
  write_err :: "(nat \<times> go_error) option"

definition StoreKeyshare ::
  "json_text \<Rightarrow> libp2p \<Rightarrow> 'k key_codec \<Rightarrow> file_ops \<Rightarrow> 'k keyshare \<Rightarrow> ks_store \<Rightarrow> ks_store \<times> unit res" where
  "StoreKeyshare J L C os k ks =
     (case open_err os of
        Some e \<Rightarrow> (ks, Fail e)
      | None \<Rightarrow>
          (let truncated = ks\<lparr>ks_file := Some []\<rparr> in
           case marshal_keyshare J L C k of
             Fail e \<Rightarrow> (truncated, Fail e)
           | Panic m \<Rightarrow> (truncated, Panic m)
           | Ok kb \<Rightarrow>
               (case write_err os of
                  Some (n, e) \<Rightarrow> (ks\<lparr>ks_file := Some (take n kb)\<rparr>, Fail e)
                | None \<Rightarrow> (ks\<lparr>ks_file := Some kb\<rparr>, Ok ()))))"

definition GetKeyshare ::
  "json_text \<Rightarrow> libp2p \<Rightarrow> 'k key_codec \<Rightarrow> ks_store \<Rightarrow> 'k keyshare res" where
  "GetKeyshare J L C ks =
     (case ks_file ks of
        None \<Rightarrow> Fail (Wrapf ''error on reading keyshare file: '' (Errorf ''no such file''))
      | Some kb \<Rightarrow>
          (case unmarshal_keyshare J L C kb of
             Fail e \<Rightarrow> Fail (Wrapf ''error on unmarshaling keyshare file: '' e)
           | Panic m \<Rightarrow> Panic m
           | Ok k \<Rightarrow> Ok k))"

section \<open>What is stored is what is read\<close>

definition key_ok :: "'k key_codec \<Rightarrow> 'k \<Rightarrow> bool" where
  "key_ok C k \<longleftrightarrow> (\<exists>kj. key_json C k = Ok kj \<and> key_of_json C kj (key_zero C) = Ok k)"

definition keyshare_json :: "libp2p \<Rightarrow> 'k keyshare \<Rightarrow> json \<Rightarrow> json" where
  "keyshare_json L k kj =
     JObj [(''Key'', kj), (''Threshold'', JNum (Threshold k)),
           (''Peers'', JArr (map (\<lambda>p. JStr (id_String L p)) (KeyPeers k)))]"

lemma keyshare_fields:
  "jfield ''Key'' [(''Key'', a), (''Threshold'', b), (''Peers'', c)] = Some a"
  "jfield ''Threshold'' [(''Key'', a), (''Threshold'', b), (''Peers'', c)] = Some b"
  "jfield ''Peers'' [(''Key'', a), (''Threshold'', b), (''Peers'', c)] = Some c"
  by (simp_all add: jfield_def fold_name_def lower_char_def char_of_def)

lemma unmarshal_marshal_keyshare:
  assumes "key_json C (Key k) = Ok kj" and "key_of_json C kj (key_zero C) = Ok (Key k)"
    and "text_ok J (keyshare_json L k kj)" and "ids_ok L (KeyPeers k)"
    and "- (2 ^ 63) \<le> Threshold k" and "Threshold k < 2 ^ 63"
  shows "marshal_keyshare J L C k = Ok (jrender J (keyshare_json L k kj))"
    and "unmarshal_keyshare J L C (jrender J (keyshare_json L k kj)) = Ok k"
proof -
  show "marshal_keyshare J L C k = Ok (jrender J (keyshare_json L k kj))"
    using assms(1) by (simp add: marshal_keyshare_def keyshare_json_def)
  have "dec_text_list (id_Decode L) [] (JArr (map (\<lambda>p. JStr (id_String L p)) (KeyPeers k))) []
      = Ok (KeyPeers k)"
    using assms(4) by (intro dec_text_list_map) (auto simp: ids_ok_def)
  then show "unmarshal_keyshare J L C (jrender J (keyshare_json L k kj)) = Ok k"
    using assms(2,3,5,6)
    by (simp add: unmarshal_keyshare_def keyshare_json_def struct_field_def keyshare_fields)
qed

lemma GetKeyshare_StoreKeyshare:
  assumes "key_json C (Key k) = Ok kj" and "key_of_json C kj (key_zero C) = Ok (Key k)"
    and "text_ok J (keyshare_json L k kj)" and "ids_ok L (KeyPeers k)"
    and "- (2 ^ 63) \<le> Threshold k" and "Threshold k < 2 ^ 63"
    and "StoreKeyshare J L C os k ks = (ks', Ok ())"
  shows "GetKeyshare J L C ks' = Ok k" and "locked ks' = locked ks"
  using assms(7) unmarshal_marshal_keyshare [OF assms(1-6)]
  by (auto simp: StoreKeyshare_def GetKeyshare_def Let_def split: option.splits res.splits)

text \<open>A key share that was stored without an error is the one the store reads back, with its
  key material, threshold and peers; storing does not touch the lock.\<close>

theorem keyshare_store_roundtrip:
  assumes "key_json C (Key k) = Ok kj" and "key_of_json C kj (key_zero C) = Ok (Key k)"
    and "text_ok J (keyshare_json L k kj)" and "ids_ok L (KeyPeers k)"
    and "- (2 ^ 63) \<le> Threshold k" and "Threshold k < 2 ^ 63"
    and "StoreKeyshare J L C os k ks = (ks', Ok ())"
  shows "GetKeyshare J L C ks' = Ok k \<and> locked ks' = locked ks"
  using GetKeyshare_StoreKeyshare [OF assms] by simp

theorem keyshare_store_roundtrip_witness:
  "let C = \<lparr>key_json = (\<lambda>k. Ok (JNum k)),
            key_of_json = (\<lambda>j old. case j of JNum i \<Rightarrow> Ok i | _ \<Rightarrow> Fail bad_json), key_zero = 0 :: int\<rparr>;
       L = \<lparr>id_String = id, id_Decode = Ok\<rparr>;
       k = \<lparr>Key = 77, Threshold = 1, KeyPeers = [''a'', ''b'']\<rparr>;
       J = \<lparr>jrender = (\<lambda>_. [1]), jparse = (\<lambda>_. Some (keyshare_json L k (JNum 77))),
            b64enc = (\<lambda>_. []), b64dec = (\<lambda>_. None)\<rparr>;
       ks = fst (StoreKeyshare J L C \<lparr>open_err = None, write_err = None\<rparr> k (NewECDSAKeyshareStore None))
   in GetKeyshare J L C ks = Ok k \<and> locked ks = locked (NewECDSAKeyshareStore None)"
  unfolding Let_def
  by (rule keyshare_store_roundtrip [where kj = "JNum 77" and os = "\<lparr>open_err = None, write_err = None\<rparr>"])
    (simp_all add: text_ok_def ids_ok_def StoreKeyshare_def marshal_keyshare_def Let_def)

end
