(* ===== verification/Signing.thy ===== *)
theory Signing
  imports Tss_Base Keyshare
begin

text \<open>
  The signing process, \<open>tss/ecdsa/signing/signing.go\<close>: its construction from the key share, the
  readiness test and the start parameters the coordinator computes, \<open>Run\<close> up to the goroutines
  it waits for, the monitor, and the signature that leaves the process. The calls into tss-lib
  that \<open>Run\<close> makes are the record \<open>sign_lib\<close>; \<open>wait\<close> is what \<open>p.Wait()\<close> returns.
\<close>

record 'k signing = base_tss +
  coordinator :: bool
  skey :: "'k keyshare"
  smsg :: nat
  subscriptionID :: subscription_id

text \<open>
  The constructor holds the key share's lock while it reads the share; \<open>None\<close> while a key
  generation or a resharing holds it.
\<close>

definition NewSigning ::
  "json_text \<Rightarrow> libp2p \<Rightarrow> 'k key_codec \<Rightarrow> nat \<Rightarrow> string \<Rightarrow> ks_store \<Rightarrow> (ks_store res \<times> 'k signing res) option" where
  "NewSigning J L C msg sessionID ks =
     (case LockKeyshare ks of
        None \<Rightarrow> None
      | Some ks1 \<Rightarrow>
          Some (UnlockKeyshare ks1,
            res_bind (GetKeyshare J L C ks1) (\<lambda>key.
            Ok \<lparr>SID = sessionID, PartyStore = Map.empty, Started = False, ProcPeers = KeyPeers key,
                TssTimeout = 8, coordinator = False, skey = key, smsg = msg, subscriptionID = []\<rparr>)))"

section \<open>Readiness and start parameters\<close>

definition readyParticipants :: "'k signing \<Rightarrow> peer list \<Rightarrow> peer list" where
  "readyParticipants s readyPeers = filter (\<lambda>p. p \<in> set (KeyPeers (skey s))) readyPeers"

definition signing_Ready :: "'k signing \<Rightarrow> peer list \<Rightarrow> peer list \<Rightarrow> bool res" where
  "signing_Ready s readyPeers excludedPeers =
     Ok (int (length (readyParticipants s readyPeers)) = Threshold (skey s) + 1)"

definition signing_ValidCoordinators :: "'k signing \<Rightarrow> peer list" where
  "signing_ValidCoordinators s = KeyPeers (skey s)"

text \<open>The loop of \<open>StartParams\<close>: peers in rank order until \<open>n\<close> of them are collected.\<close>

fun pick_subset :: "int \<Rightarrow> peer_msg list \<Rightarrow> peer list \<Rightarrow> peer list" where
  "pick_subset n [] acc = acc"
| "pick_subset n (m # ms) acc =
     (let acc' = acc @ [ID m]
      in if int (length acc') = n then acc' else pick_subset n ms acc')"

definition peerSubset :: "libp2p \<Rightarrow> keccak \<Rightarrow> 'k signing \<Rightarrow> peer list \<Rightarrow> peer list" where
  "peerSubset L K s readyPeers =
     pick_subset (Threshold (skey s) + 1)
       (SortPeersForSession L K (readyParticipants s readyPeers) (SID s)) []"

definition peers_json :: "libp2p \<Rightarrow> peer list \<Rightarrow> json" where
  "peers_json L ps = JArr (map (\<lambda>p. JStr (id_String L p)) ps)"

definition signing_StartParams ::
  "json_text \<Rightarrow> libp2p \<Rightarrow> keccak \<Rightarrow> 'k signing \<Rightarrow> peer list \<Rightarrow> bytes" where
  "signing_StartParams J L K s readyPeers = jrender J (peers_json L (peerSubset L K s readyPeers))"

definition signing_unmarshallStartParams :: "json_text \<Rightarrow> libp2p \<Rightarrow> bytes \<Rightarrow> peer list res" where
  "signing_unmarshallStartParams J L paramBytes =
     res_bind (json_unmarshal_tree J paramBytes) (\<lambda>j. dec_text_list (id_Decode L) [] j [])"

definition signing_Retryable :: bool where
  "signing_Retryable = True"

section \<open>Run and Stop\<close>

text \<open>The constructors of tss-lib that \<open>Run\<close> calls; \<open>'q\<close> is a local party.\<close>

record ('k, 'q) sign_lib =
  NewParameters :: "party_id list \<Rightarrow> party_id option \<Rightarrow> nat \<Rightarrow> int \<Rightarrow> unit res"
  NewSigningParty :: "nat \<Rightarrow> party_id list \<Rightarrow> 'k \<Rightarrow> nat \<Rightarrow> 'q res"
  StartParty :: "'q \<Rightarrow> unit res"

definition signing_Run ::
  "json_text \<Rightarrow> libp2p \<Rightarrow> tss_lib \<Rightarrow> ('k, 'q) sign_lib \<Rightarrow> host \<Rightarrow> nat \<Rightarrow> unit res \<Rightarrow>
   bool \<Rightarrow> bytes \<Rightarrow> 'k signing \<Rightarrow> 'k signing \<times> unit res" where
  "signing_Run J L T R h now wait isCoordinator params s =
     (if Started s then (s, Fail ErrProcessStarted)
      else
        let s1 = s\<lparr>Started := True, coordinator := isCoordinator\<rparr> in
        case signing_unmarshallStartParams J L params of
          Fail e \<Rightarrow> (s1, Fail e)
        | Panic m \<Rightarrow> (s1, Panic m)
        | Ok subsetPeers \<Rightarrow>
            if \<not> IsParticipant L (host_ID h) subsetPeers then (s1, Fail (SubsetError (host_ID h)))
            else
              let parties = PartiesFromPeers L T subsetPeers;
                  s2 = PopulatePartyStore (s1\<lparr>ProcPeers := subsetPeers\<rparr>) parties;
                  self = PartyStore s2 (id_String L (host_ID h))
              in case res_bind (NewParameters R parties self (length parties) (Threshold (skey s)))
                        (\<lambda>_. NewSigningParty R (smsg s) parties (Key (skey s)) (session_number s)) of
                   Fail e \<Rightarrow> (s2, Fail e)
                 | Panic m \<Rightarrow> (s2, Panic m)
                 | Ok q \<Rightarrow>
                     (s2\<lparr>subscriptionID := NewSubscriptionID (SID s) TssKeySignMsg now\<rparr>,
                      res_bind (StartParty R q) (\<lambda>_. wait)))"

definition signing_Stop :: "'ch sub_manager \<Rightarrow> 'k signing \<Rightarrow> 'ch sub_manager" where
  "signing_Stop ms s = UnSubscribeFrom ms (subscriptionID s)"

section \<open>The monitor\<close>

datatype monitor_event = MonitorTick "party_id list" | MonitorDone

text \<open>\<open>MonitorTick w\<close>: the ticker fired while \<open>Party.WaitingFor()\<close> was \<open>w\<close>. \<open>None\<close>: still running.\<close>

fun monitorSigning :: "party_id list \<Rightarrow> monitor_event list \<Rightarrow> unit res option" where
  "monitorSigning waitingFor [] = None"
| "monitorSigning waitingFor (MonitorDone # es) = Some (Ok ())"
| "monitorSigning waitingFor (MonitorTick w # es) =
     (if waitingFor \<noteq> [] \<and> w = waitingFor
      then Some (Fail (CommunicationError [] (Errorf ''waiting for peers'')))
      else monitorSigning w es)"

section \<open>The signature\<close>

record signature_data =
  sigR :: bytes
  sigS :: bytes
  SignatureRecovery :: bytes

record ecdsa_signature =
  es_Signature :: bytes
  es_ID :: string

text \<open>\<open>pad\<close> is \<open>common.LeftPadBytes\<close> of go-ethereum.\<close>

definition encode_signature :: "(bytes \<Rightarrow> nat \<Rightarrow> bytes) \<Rightarrow> signature_data \<Rightarrow> bytes res" where
  "encode_signature pad sig =
     (let es = pad (sigR sig) 32 @ pad (sigS sig) 32 @ SignatureRecovery sig
      in if es = [] then Panic ''index out of range''
         else Ok (es[length es - 1 := last es + 27]))"

definition distributeSignature :: "json_text \<Rightarrow> host \<Rightarrow> 'k signing \<Rightarrow> bytes \<Rightarrow> send list" where
  "distributeSignature J h s sig =
     (if coordinator s then []
      else case MarshalSignatureMessage J (SID s) sig of
             Ok sigMsg \<Rightarrow> [\<lparr>to = Peerstore h, body = sigMsg, kind = SignatureMsg,
                            session = SignatureSessionID\<rparr>]
           | _ \<Rightarrow> [])"

datatype end_event = EndSig signature_data | EndDone

text \<open>What reaches the result channel and what is broadcast; \<open>None\<close>: still waiting.\<close>

fun signing_processEndMessage ::
  "(bytes \<Rightarrow> nat \<Rightarrow> bytes) \<Rightarrow> json_text \<Rightarrow> host \<Rightarrow> 'k signing \<Rightarrow> end_event list \<Rightarrow>
   (ecdsa_signature option \<times> send list) res option" where
  "signing_processEndMessage pad J h s [] = None"
| "signing_processEndMessage pad J h s (EndDone # es) = Some (Ok (None, []))"
| "signing_processEndMessage pad J h s (EndSig sig # es) =
     Some (res_bind (encode_signature pad sig) (\<lambda>b.
       Ok (Some \<lparr>es_Signature = b, es_ID = SID s\<rparr>, distributeSignature J h s b)))"

section \<open>Lemmas\<close>

lemma pick_subset_take:
  "int (length acc) < n \<Longrightarrow>
   pick_subset n ms acc = acc @ map ID (take (nat (n - int (length acc))) ms)"
proof (induction ms arbitrary: acc)
  case (Cons m ms)
  show ?case
  proof (cases "int (length acc) + 1 = n")
    case True
    then have "nat (n - int (length acc)) = 1" by simp
    with True show ?thesis by (simp add: Let_def)
  next
    case False
    then have "nat (n - int (length acc)) = Suc (nat (n - int (length (acc @ [ID m]))))"
      using Cons.prems by simp
    with False Cons show ?thesis by (simp add: Let_def)
  qed
qed simp

lemma peerSubset_take:
  assumes "0 \<le> Threshold (skey s)"
  shows "peerSubset L K s ready =
    map ID (take (nat (Threshold (skey s) + 1))
      (SortPeersForSession L K (readyParticipants s ready) (SID s)))"
  using assms by (simp add: peerSubset_def pick_subset_take)

lemma set_peerSubset:
  assumes "0 \<le> Threshold (skey s)"
  shows "set (peerSubset L K s ready) \<subseteq> set (readyParticipants s ready)"
proof -
  have "set (peerSubset L K s ready) \<subseteq>
      set (map ID (SortPeersForSession L K (readyParticipants s ready) (SID s)))"
    using assms set_take_subset by (fastforce simp: peerSubset_take)
  also have "\<dots> = set (readyParticipants s ready)"
    using mset_SortPeersForSession [of L K "readyParticipants s ready" "SID s"]
    by (metis set_mset_mset)
  finally show ?thesis .
qed

lemma distinct_peerSubset:
  assumes "0 \<le> Threshold (skey s)" and "distinct ready"
  shows "distinct (peerSubset L K s ready)"
proof -
  have "distinct (map ID (SortPeersForSession L K (readyParticipants s ready) (SID s)))"
    using assms(2) mset_SortPeersForSession [of L K "readyParticipants s ready" "SID s"]
      mset_eq_imp_distinct_iff by (fastforce simp: readyParticipants_def)
  then show ?thesis
    using assms(1) by (metis peerSubset_take take_map distinct_take)
qed

lemma signing_unmarshallStartParams_render:
  assumes "text_ok J (peers_json L ps)" and "ids_ok L ps"
  shows "signing_unmarshallStartParams J L (jrender J (peers_json L ps)) = Ok ps"
  using assms dec_text_list_map [of ps "id_Decode L" "id_String L" "[]" "[]"]
  by (simp add: signing_unmarshallStartParams_def peers_json_def ids_ok_def)

lemma NewSigning_fields:
  assumes "NewSigning J L C msg sess ks = Some (ks', Ok s)"
  shows "ks' = Ok ks" and "SID s = sess" and "smsg s = msg" and "\<not> Started s"
    and "GetKeyshare J L C (ks\<lparr>locked := True\<rparr>) = Ok (skey s)" and "ProcPeers s = KeyPeers (skey s)"
  using assms
  by (auto simp: NewSigning_def LockKeyshare_def UnlockKeyshare_def res_simps
      split: option.splits if_splits)

lemma signing_Run_Started: "Started (fst (signing_Run J L T R h now wait c params s))"
  by (auto simp: signing_Run_def Let_def PopulatePartyStore_def split: res.splits)

lemma signing_Run_again:
  "Started s \<Longrightarrow> signing_Run J L T R h now wait c params s = (s, Fail ErrProcessStarted)"
  by (simp add: signing_Run_def)

text \<open>What tss-lib documents of its party identifiers: the constructor keeps the identifier and
  sorting permutes.\<close>

definition parties_ok :: "tss_lib \<Rightarrow> bool" where
  "parties_ok T \<longleftrightarrow>
     (\<forall>i m k. Id (NewPartyID T i m k) = i) \<and>
     (\<forall>ps. mset (map Id (SortPartyIDs T ps)) = mset (map Id ps))"

lemma Id_PartiesFromPeers:
  assumes "parties_ok T"
  shows "mset (map Id (PartiesFromPeers L T ps)) = mset (map (id_String L) ps)"
  using assms by (simp add: parties_ok_def PartiesFromPeers_def CreatePartyID_def image_mset.compositionality comp_def)

lemma length_PartiesFromPeers:
  assumes "parties_ok T"
  shows "length (PartiesFromPeers L T ps) = length ps"
  by (metis Id_PartiesFromPeers [OF assms] length_map size_mset)

lemma be_nat_append_zeros: "be_nat (replicate n 0 @ b) = be_nat b"
proof -
  have "foldl (\<lambda>a x. a * 256 + unat x) 0 (replicate n (0::byte)) = 0"
    by (induction n) auto
  then show ?thesis by (simp add: be_nat_def)
qed

section \<open>Properties\<close>

text \<open>When the coordinator finds the process ready, the start parameters it broadcasts decode, on
  every relayer, to exactly threshold + 1 distinct peers, all of them ready and all of them
  holders of a key share.\<close>

theorem start_params_subset:
  assumes "signing_Ready s ready excluded = Ok True" and "0 \<le> Threshold (skey s)"
    and "distinct ready" and "ids_ok L ready"
    and "text_ok J (peers_json L (peerSubset L K s ready))"
  shows "\<exists>ps. signing_unmarshallStartParams J L (signing_StartParams J L K s ready) = Ok ps
    \<and> int (length ps) = Threshold (skey s) + 1 \<and> distinct ps
    \<and> set ps = set ready \<inter> set (KeyPeers (skey s))"
proof -
  let ?ps = "peerSubset L K s ready"
  have sub: "set ?ps \<subseteq> set (readyParticipants s ready)"
    by (rule set_peerSubset [OF assms(2)])
  have len: "int (length ?ps) = Threshold (skey s) + 1"
    using assms(1,2) by (simp add: peerSubset_take signing_Ready_def)
  have dist: "distinct ?ps" by (rule distinct_peerSubset [OF assms(2,3)])
  have "length ?ps = length (readyParticipants s ready)"
    using len assms(1) by (simp add: signing_Ready_def)
  then have "set ?ps = set (readyParticipants s ready)"
    using sub dist assms(3)
    by (metis card_subset_eq distinct_card distinct_filter finite_set readyParticipants_def)
  moreover have "ids_ok L ?ps"
    using sub assms(4) by (auto simp: ids_ok_def readyParticipants_def)
  ultimately show ?thesis
    using len dist assms(5)
    by (auto simp: signing_StartParams_def signing_unmarshallStartParams_render
        readyParticipants_def)
qed

text \<open>A committee of three with threshold one, used to evaluate the theorems.\<close>

definition committee :: "peer list" where
  "committee = [''aaaaaaaa'', ''bbbbbbbb'', ''cccccccc'']"

definition sample_signing :: "unit signing" where
  "sample_signing =
     \<lparr>SID = ''1-5'', PartyStore = Map.empty, Started = False, ProcPeers = committee, TssTimeout = 8,
      coordinator = False, skey = \<lparr>Key = (), Threshold = 1, KeyPeers = committee\<rparr>, smsg = 9,
      subscriptionID = []\<rparr>"

lemmas sample_defs = sample_signing_def committee_def

lemma sample_ranks: "ranks_distinct raw_ids id ''1-5'' committee"
  by (auto simp: ranks_distinct_def session_key_def be_uint64_def be_nat_def string_bytes_def
      committee_def)

theorem start_params_subset_witness:
  "\<exists>ps. signing_unmarshallStartParams
        (one_doc (peers_json raw_ids (peerSubset raw_ids id sample_signing [''aaaaaaaa'', ''cccccccc''])) []) raw_ids
        (signing_StartParams
          (one_doc (peers_json raw_ids (peerSubset raw_ids id sample_signing [''aaaaaaaa'', ''cccccccc''])) [])
          raw_ids id sample_signing [''aaaaaaaa'', ''cccccccc'']) = Ok ps
    \<and> int (length ps) = Threshold (skey sample_signing) + 1 \<and> distinct ps
    \<and> set ps = set [''aaaaaaaa'', ''cccccccc''] \<inter> set (KeyPeers (skey sample_signing))"
  by (rule start_params_subset [where excluded = "[]"])
    (simp_all add: signing_Ready_def readyParticipants_def sample_defs)

text \<open>The start parameters do not depend on the order in which the ready messages arrived.\<close>

theorem start_params_order_independent:
  assumes "mset ready = mset ready'"
    and "ranks_distinct L K (SID s) ready"
  shows "signing_StartParams J L K s ready = signing_StartParams J L K s ready'"
proof -
  have "mset (readyParticipants s ready) = mset (readyParticipants s ready')"
    using assms(1) by (simp add: readyParticipants_def)
  moreover have "ranks_distinct L K (SID s) (readyParticipants s ready)"
    using assms(2) by (auto simp: ranks_distinct_def readyParticipants_def inj_on_def)
  ultimately have "SortPeersForSession L K (readyParticipants s ready) (SID s)
      = SortPeersForSession L K (readyParticipants s ready') (SID s)"
    by (rule SortPeersForSession_cong)
  then show ?thesis by (simp add: signing_StartParams_def peerSubset_def)
qed

theorem start_params_order_independent_witness:
  "signing_StartParams (one_doc JNull []) raw_ids id sample_signing committee
   = signing_StartParams (one_doc JNull []) raw_ids id sample_signing (rev committee)"
  by (rule start_params_order_independent) (use sample_ranks in \<open>simp_all add: sample_signing_def\<close>)

text \<open>A process runs once: whatever the first \<open>Run\<close> returned, a later one returns
  \<open>ErrProcessStarted\<close> and changes nothing, neither its peers nor its subscription.\<close>

theorem signing_runs_once:
  "signing_Run J L T R h now' wait' c' params'
     (fst (signing_Run J L T R h now wait c params s))
   = (fst (signing_Run J L T R h now wait c params s), Fail ErrProcessStarted)"
  by (rule signing_Run_again [OF signing_Run_Started])

text \<open>A fresh signing process that gets as far as waiting for its goroutines runs with exactly the
  peers of the start parameters: the local relayer is one of them, the party store holds one
  party per peer, and the session and the message to sign are those it was created with; a
  relayer outside the subset stops with \<open>SubsetError\<close> and keeps its committee.\<close>

theorem signing_run_membership:
  assumes "\<not> Started s" and "PartyStore s = Map.empty" and "parties_ok T"
    and "signing_unmarshallStartParams J L params = Ok ps" and "ids_ok L (host_ID h # ps)"
    and "signing_Run J L T R h now wait c params s = (s', r)"
  shows "if host_ID h \<in> set ps
    then dom (PartyStore s') = id_String L ` set ps \<and> ProcPeers s' = ps
      \<and> SID s' = SID s \<and> smsg s' = smsg s \<and> skey s' = skey s
    else r = Fail (SubsetError (host_ID h)) \<and> ProcPeers s' = ProcPeers s"
proof -
  have mem: "IsParticipant L (host_ID h) ps \<longleftrightarrow> host_ID h \<in> set ps"
    using assms(5) by (rule IsParticipant_iff)
  have ids: "Id ` set (PartiesFromPeers L T ps) = id_String L ` set ps"
    using Id_PartiesFromPeers [OF assms(3), of L ps] by (metis image_set set_mset_mset)
  have "if host_ID h \<in> set ps
    then PartyStore s' = populate Map.empty (PartiesFromPeers L T ps) \<and> ProcPeers s' = ps
      \<and> SID s' = SID s \<and> smsg s' = smsg s \<and> skey s' = skey s
    else r = Fail (SubsetError (host_ID h)) \<and> ProcPeers s' = ProcPeers s"
    using assms(1,2,4,6) mem
    by (auto simp: signing_Run_def Let_def PopulatePartyStore_def split: if_splits res.splits)
  then show ?thesis by (simp add: populate_dom ids split: if_splits)
qed

text \<open>An instance of tss-lib that keeps the order of the parties and accepts every call.\<close>

definition sample_tss :: tss_lib where
  "sample_tss =
     \<lparr>NewPartyID = (\<lambda>i m k. \<lparr>Id = i, Moniker = m, KeyInt = k, Index = - 1\<rparr>), SortPartyIDs = (\<lambda>ps. ps)\<rparr>"

lemma sample_tss_ok [simp]: "parties_ok sample_tss"
  by (simp add: parties_ok_def sample_tss_def)

definition sample_sign_lib :: "(unit, unit) sign_lib" where
  "sample_sign_lib =
     \<lparr>NewParameters = (\<lambda>_ _ _ _. Ok ()), NewSigningParty = (\<lambda>_ _ _ _. Ok ()), StartParty = (\<lambda>_. Ok ())\<rparr>"

theorem signing_run_membership_witness:
  "let h = \<lparr>host_ID = ''aaaaaaaa'', Peerstore = committee\<rparr>;
       ps = [''aaaaaaaa'', ''cccccccc''];
       s' = fst (signing_Run (one_doc (peers_json raw_ids ps) []) raw_ids sample_tss sample_sign_lib h 7 (Ok ())
              True [0] sample_signing)
   in if host_ID h \<in> set ps
      then dom (PartyStore s') = id_String raw_ids ` set ps \<and> ProcPeers s' = ps
        \<and> SID s' = SID sample_signing \<and> smsg s' = smsg sample_signing \<and> skey s' = skey sample_signing
      else (Ok () :: unit res) = Fail (SubsetError (host_ID h)) \<and> ProcPeers s' = ProcPeers sample_signing"
  unfolding Let_def
  by (rule signing_run_membership [where T = sample_tss and L = raw_ids and R = sample_sign_lib
        and J = "one_doc (peers_json raw_ids [''aaaaaaaa'', ''cccccccc'']) []" and params = "[0]"
        and now = 7 and wait = "Ok ()" and c = True and r = "Ok ()"])
    (simp_all add: sample_defs signing_unmarshallStartParams_def json_unmarshal_tree_def peers_json_def
      signing_Run_def IsParticipant_def Let_def sample_sign_lib_def)

text \<open>The signature that leaves the process is 65 bytes, \<open>R\<close> and \<open>S\<close> big-endian in 32 bytes each and
  the recovery identifier raised by 27, so 27 or 28 for the identifiers 0 and 1.\<close>

theorem signature_format:
  assumes "\<And>b n. pad b n = replicate (n - length b) 0 @ b"
    and "length (sigR sig) \<le> 32" and "length (sigS sig) \<le> 32" and "SignatureRecovery sig = [v]"
  shows "\<exists>es. encode_signature pad sig = Ok es \<and> length es = 65
    \<and> be_nat (take 32 es) = be_nat (sigR sig) \<and> be_nat (take 32 (drop 32 es)) = be_nat (sigS sig)
    \<and> es ! 64 = v + 27"
proof -
  let ?r = "replicate (32 - length (sigR sig)) 0 @ sigR sig"
  let ?s = "replicate (32 - length (sigS sig)) 0 @ sigS sig"
  have len: "length ?r = 32" "length ?s = 32" using assms(2,3) by auto
  have "encode_signature pad sig = Ok (?r @ ?s @ [v + 27])"
    using len assms(4) by (simp add: encode_signature_def Let_def assms(1) list_update_append)
  moreover have "take 32 (?r @ ?s @ [v + 27]) = ?r" "take 32 (drop 32 (?r @ ?s @ [v + 27])) = ?s"
    using len by (simp_all only: take_append drop_append append_assoc [symmetric]) auto
  moreover have "(?r @ ?s @ [v + 27]) ! 64 = v + 27"
    using len by (simp add: nth_append)
  moreover have "length (?r @ ?s @ [v + 27]) = 65" using len by simp
  ultimately show ?thesis
    using be_nat_append_zeros by metis
qed

theorem signature_format_witness:
  "\<exists>es. encode_signature (\<lambda>b n. replicate (n - length b) 0 @ b)
          \<lparr>sigR = [1, 2], sigS = [3], SignatureRecovery = [1]\<rparr> = Ok es \<and> length es = 65
    \<and> be_nat (take 32 es) = be_nat (sigR \<lparr>sigR = [1, 2], sigS = [3], SignatureRecovery = [1]\<rparr>)
    \<and> be_nat (take 32 (drop 32 es)) = be_nat (sigS \<lparr>sigR = [1, 2], sigS = [3], SignatureRecovery = [1]\<rparr>)
    \<and> es ! 64 = 1 + 27"
  by (rule signature_format) simp_all

end
