(* ===== verification/Keygen.thy ===== *)
theory Keygen
  imports Signing
begin

text \<open>
  The key generation process, \<open>tss/ecdsa/keygen/keygen.go\<close>. It takes the key share's lock when it
  runs and gives it back when it is stopped; the share it generates is stored with the
  threshold and the peers it was created with.
\<close>

record keygen = base_tss +
  kthreshold :: int
  ksubscriptionID :: subscription_id

definition NewKeygen :: "string \<Rightarrow> int \<Rightarrow> host \<Rightarrow> keygen" where
  "NewKeygen sessionID threshold h =
     \<lparr>SID = sessionID, PartyStore = Map.empty, Started = False, ProcPeers = Peerstore h,
      TssTimeout = 600, kthreshold = threshold, ksubscriptionID = []\<rparr>"

text \<open>The calls into tss-lib: parameters, local party, start.\<close>

record 'q keygen_lib =
  KeygenParameters :: "party_id list \<Rightarrow> party_id option \<Rightarrow> nat \<Rightarrow> int \<Rightarrow> unit res"
  NewKeygenParty :: "party_id list \<Rightarrow> nat \<Rightarrow> 'q res"
  StartKeygenParty :: "'q \<Rightarrow> unit res"

text \<open>\<open>None\<close>: the process waits for the key share's lock.\<close>

definition keygen_Run ::
  "libp2p \<Rightarrow> tss_lib \<Rightarrow> 'q keygen_lib \<Rightarrow> host \<Rightarrow> nat \<Rightarrow> unit res \<Rightarrow> ks_store \<Rightarrow> keygen \<Rightarrow>
   (ks_store \<times> keygen \<times> unit res) option" where
  "keygen_Run L T R h now wait ks k =
     (if Started k then Some (ks, k, Fail ErrProcessStarted)
      else case LockKeyshare ks of
             None \<Rightarrow> None
           | Some ks1 \<Rightarrow>
               let parties = PartiesFromPeers L T (Peerstore h);
                   k1 = PopulatePartyStore (k\<lparr>Started := True\<rparr>) parties;
                   self = PartyStore k1 (id_String L (host_ID h))
               in Some (case KeygenParameters R parties self (length parties) (kthreshold k) of
                          Fail e \<Rightarrow> (ks1, k1, Fail e)
                        | Panic m \<Rightarrow> (ks1, k1, Panic m)
                        | Ok _ \<Rightarrow>
                            (ks1, k1\<lparr>ksubscriptionID := NewSubscriptionID (SID k) TssKeyGenMsg now\<rparr>,
                             res_bind (NewKeygenParty R parties (session_number k)) (\<lambda>q.
                             res_bind (StartKeygenParty R q) (\<lambda>_. wait)))))"

definition keygen_Stop :: "'ch sub_manager \<Rightarrow> ks_store \<Rightarrow> keygen \<Rightarrow> ('ch sub_manager \<times> ks_store) res" where
  "keygen_Stop ms ks k =
     res_bind (UnlockKeyshare ks) (\<lambda>ks'. Ok (UnSubscribeFrom ms (ksubscriptionID k), ks'))"

definition keygen_Ready :: "host \<Rightarrow> peer list \<Rightarrow> peer list \<Rightarrow> bool res" where
  "keygen_Ready h readyPeers excludedPeers =
     (if length excludedPeers > 0 then Fail (Errorf ''error'')
      else Ok (length readyPeers = length (Peerstore h)))"

definition keygen_ValidCoordinators :: "host \<Rightarrow> peer list" where
  "keygen_ValidCoordinators h = Peerstore h"

definition keygen_StartParams :: "peer list \<Rightarrow> bytes" where
  "keygen_StartParams readyPeers = []"

datatype 'k key_event = KeyDone 'k | KeyCtxDone

fun keygen_processEndMessage ::
  "json_text \<Rightarrow> libp2p \<Rightarrow> 'k key_codec \<Rightarrow> file_ops \<Rightarrow> keygen \<Rightarrow> ks_store \<Rightarrow> 'k key_event list \<Rightarrow>
   (ks_store \<times> unit res) option" where
  "keygen_processEndMessage J L C os k ks [] = None"
| "keygen_processEndMessage J L C os k ks (KeyCtxDone # es) = Some (ks, Ok ())"
| "keygen_processEndMessage J L C os k ks (KeyDone key # es) =
     Some (StoreKeyshare J L C os (NewECDSAKeyshare key (kthreshold k) (ProcPeers k)) ks)"

definition keygen_Retryable :: bool where
  "keygen_Retryable = False"

section \<open>Lemmas\<close>

lemma keygen_Run_locks:
  assumes "keygen_Run L T R h now wait ks k = Some (ks', k', r)" and "\<not> Started k"
  shows "\<not> locked ks" and "locked ks'" and "ks_file ks' = ks_file ks" and "Started k'"
  using assms
  by (auto simp: keygen_Run_def LockKeyshare_def Let_def PopulatePartyStore_def
      split: option.splits res.splits if_splits)

lemma StoreKeyshare_locked: "locked (fst (StoreKeyshare J L C os k ks)) = locked ks"
  by (auto simp: StoreKeyshare_def Let_def split: option.splits res.splits)

section \<open>Properties\<close>

text \<open>C25: while a generated key is being produced no signing process can be created: from the moment
  \<open>Run\<close> has started until \<open>Stop\<close>, \<open>NewSigning\<close> waits; after \<open>Stop\<close> the lock is free and the share
  that was generated is the one a signing process is created with.\<close>

theorem keygen_excludes_signing:
  assumes "keygen_Run L T R h now wait ks k = Some (ks1, k1, r)" and "\<not> Started k"
    and "keygen_processEndMessage J L C os k1 ks1 [KeyDone key] = Some (ks2, Ok ())"
    and "key_json C key = Ok kj" and "key_of_json C kj (key_zero C) = Ok key"
    and "text_ok J (keyshare_json L (NewECDSAKeyshare key (kthreshold k1) (ProcPeers k1)) kj)"
    and "ids_ok L (ProcPeers k1)"
    and "- (2 ^ 63) \<le> kthreshold k1" and "kthreshold k1 < 2 ^ 63"
  shows "NewSigning J L C msg sess ks1 = None \<and> NewSigning J L C msg sess ks2 = None
    \<and> (\<exists>ms' ks3 s. keygen_Stop ms ks2 k1 = Ok (ms', ks3) \<and> NewSigning J L C msg sess ks3 = Some (Ok ks3, Ok s)
        \<and> Key (skey s) = key \<and> Threshold (skey s) = kthreshold k1 \<and> KeyPeers (skey s) = ProcPeers k1)"
proof -
  let ?k = "NewECDSAKeyshare key (kthreshold k1) (ProcPeers k1)"
  have l1: "locked ks1" using keygen_Run_locks [OF assms(1,2)] by simp
  have st: "StoreKeyshare J L C os ?k ks1 = (ks2, Ok ())" using assms(3) by simp
  have l2: "locked ks2" using StoreKeyshare_locked [of J L C os ?k ks1] st l1 by simp
  have sel: "Key ?k = key" "KeyPeers ?k = ProcPeers k1" "Threshold ?k = kthreshold k1"
    by (simp_all add: NewECDSAKeyshare_def)
  have get: "GetKeyshare J L C ks2 = Ok ?k"
    using GetKeyshare_StoreKeyshare(1) [OF _ _ _ _ _ _ st, where kj = kj] assms(4-9)
    unfolding sel by simp
  have "ks_file (ks2\<lparr>locked := True\<rparr>) = ks_file ks2" by simp
  then have get': "GetKeyshare J L C (ks2\<lparr>locked := True\<rparr>) = Ok ?k"
    using get by (simp add: GetKeyshare_def)
  show ?thesis
    using l1 l2 get' sel
    by (simp add: NewSigning_def LockKeyshare_def UnlockKeyshare_def keygen_Stop_def)
qed

text \<open>A key codec over integers, a host and a key generation, to evaluate the theorem.\<close>

definition int_codec :: "int key_codec" where
  "int_codec = \<lparr>key_json = (\<lambda>k. Ok (JNum k)),
     key_of_json = (\<lambda>j old. case j of JNum i \<Rightarrow> Ok i | _ \<Rightarrow> Fail bad_json), key_zero = 0\<rparr>"

definition sample_host :: host where
  "sample_host = \<lparr>host_ID = ''aaaaaaaa'', Peerstore = committee\<rparr>"

definition sample_keygen_lib :: "unit keygen_lib" where
  "sample_keygen_lib =
     \<lparr>KeygenParameters = (\<lambda>_ _ _ _. Ok ()), NewKeygenParty = (\<lambda>_ _. Ok ()), StartKeygenParty = (\<lambda>_. Ok ())\<rparr>"

definition sample_keygen :: keygen where
  "sample_keygen = NewKeygen ''keygen-7'' 1 sample_host"

definition sample_running :: keygen where
  "sample_running = PopulatePartyStore (sample_keygen\<lparr>Started := True,
     ksubscriptionID := NewSubscriptionID ''keygen-7'' TssKeyGenMsg 3\<rparr>)
       (PartiesFromPeers raw_ids sample_tss committee)"

lemmas sample_keygen_defs = sample_running_def sample_keygen_def NewKeygen_def sample_host_def
  PopulatePartyStore_def sample_keygen_lib_def

theorem keygen_excludes_signing_witness:
  "let J = one_doc (keyshare_json raw_ids (NewECDSAKeyshare (77::int) 1 committee) (JNum 77)) [];
       ks1 = \<lparr>locked = True, ks_file = None\<rparr>; ks2 = \<lparr>locked = True, ks_file = Some [0]\<rparr>
   in NewSigning J raw_ids int_codec 9 ''1-5'' ks1 = None \<and> NewSigning J raw_ids int_codec 9 ''1-5'' ks2 = None
    \<and> (\<exists>ms' ks3 s. keygen_Stop (NewSessionSubscriptionManager :: nat sub_manager) ks2 sample_running = Ok (ms', ks3)
        \<and> NewSigning J raw_ids int_codec 9 ''1-5'' ks3 = Some (Ok ks3, Ok s)
        \<and> Key (skey s) = 77 \<and> Threshold (skey s) = kthreshold sample_running
        \<and> KeyPeers (skey s) = ProcPeers sample_running)"
  unfolding Let_def
  by (rule keygen_excludes_signing [where L = raw_ids and T = sample_tss and R = sample_keygen_lib
        and h = sample_host and now = 3 and wait = "Ok ()" and ks = "NewECDSAKeyshareStore None"
        and k = sample_keygen and kj = "JNum 77" and r = "Ok ()" and os = "\<lparr>open_err = None, write_err = None\<rparr>"])
    (simp_all add: keygen_Run_def NewECDSAKeyshareStore_def LockKeyshare_def Let_def StoreKeyshare_def
      marshal_keyshare_def int_codec_def NewECDSAKeyshare_def sample_keygen_defs)

end
