(* ===== verification/Resharing.thy ===== *)
theory Resharing
  imports Keygen
begin

text \<open>
  The resharing process, \<open>tss/ecdsa/resharing/resharing.go\<close>: the old committee hands its key to the
  peers of a new topology. The coordinator announces the old threshold and the old committee
  members that are still peers; every relayer checks the announcement against its own share,
  and the parties are ordered so that the old ones keep their indexes.
\<close>

record start_params =
  OldThreshold :: int
  OldSubset :: "peer list"

record 'k resharing = base_tss +
  rkey :: "'k keyshare"
  rsubscriptionID :: subscription_id
  newThreshold :: int

text \<open>The constructor takes the key share's lock and keeps it; \<open>None\<close> while it is held.\<close>

definition NewResharing ::
  "json_text \<Rightarrow> libp2p \<Rightarrow> 'k key_codec \<Rightarrow> string \<Rightarrow> int \<Rightarrow> host \<Rightarrow> ks_store \<Rightarrow> (ks_store \<times> 'k resharing) option" where
  "NewResharing J L C sessionID threshold h ks =
     (case LockKeyshare ks of
        None \<Rightarrow> None
      | Some ks1 \<Rightarrow>
          let key = (case GetKeyshare J L C ks1 of
                       Ok k \<Rightarrow> k
                     | _ \<Rightarrow> \<lparr>Key = key_zero C, Threshold = 0, KeyPeers = []\<rparr>)
          in Some (ks1,
               \<lparr>SID = sessionID, PartyStore = Map.empty, Started = False, ProcPeers = Peerstore h,
                TssTimeout = 600, rkey = key, rsubscriptionID = [], newThreshold = threshold\<rparr>))"

section \<open>Start parameters\<close>

definition resharing_Ready :: "host \<Rightarrow> peer list \<Rightarrow> peer list \<Rightarrow> bool res" where
  "resharing_Ready h readyPeers excludedPeers = Ok (length readyPeers = length (Peerstore h))"

definition resharing_ValidCoordinators :: "libp2p \<Rightarrow> host \<Rightarrow> 'k resharing \<Rightarrow> peer list" where
  "resharing_ValidCoordinators L h r =
     filter (\<lambda>p. list_ex (\<lambda>q. id_String L q = id_String L p) (KeyPeers (rkey r))) (Peerstore h)"

definition params_json :: "libp2p \<Rightarrow> start_params \<Rightarrow> json" where
  "params_json L p =
     JObj [(''oldThreshold'', JNum (OldThreshold p)),
           (''oldSubset'', JArr (map (\<lambda>q. JStr (id_String L q)) (OldSubset p)))]"

definition resharing_params :: "host \<Rightarrow> 'k resharing \<Rightarrow> start_params" where
  "resharing_params h r =
     \<lparr>OldThreshold = Threshold (rkey r),
      OldSubset = PeersIntersection (KeyPeers (rkey r)) (Peerstore h)\<rparr>"

definition resharing_StartParams ::
  "json_text \<Rightarrow> libp2p \<Rightarrow> host \<Rightarrow> 'k resharing \<Rightarrow> peer list \<Rightarrow> bytes" where
  "resharing_StartParams J L h r readyPeers = jrender J (params_json L (resharing_params h r))"

text \<open>
  \<open>validateStartParams\<close> sorts the announced subset and the share's peers in place before it
  compares them, so it returns both.
\<close>

definition validateStartParams ::
  "host \<Rightarrow> 'k resharing \<Rightarrow> start_params \<Rightarrow> 'k resharing \<times> start_params \<times> unit res" where
  "validateStartParams h r params =
     (if OldThreshold params \<le> 0 then (r, params, Fail (Errorf ''threshold too small''))
      else if int (length (OldSubset params)) < OldThreshold params
        then (r, params, Fail (Errorf ''threshold bigger then subset''))
      else
        let params' = params\<lparr>OldSubset := sort (OldSubset params)\<rparr>;
            r' = r\<lparr>rkey := (rkey r)\<lparr>KeyPeers := sort (KeyPeers (rkey r))\<rparr>\<rparr>
        in if length (KeyPeers (rkey r')) \<noteq> 0 \<and>
              OldSubset params' \<noteq> PeersIntersection (KeyPeers (rkey r')) (Peerstore h)
           then (r', params', Fail (Errorf ''invalid peers subset in start params''))
           else (r', params', Ok ()))"

definition resharing_unmarshallStartParams ::
  "json_text \<Rightarrow> libp2p \<Rightarrow> host \<Rightarrow> 'k resharing \<Rightarrow> bytes \<Rightarrow> 'k resharing \<times> start_params res" where
  "resharing_unmarshallStartParams J L h r paramBytes =
     (case res_bind (json_unmarshal_tree J paramBytes) (\<lambda>j.
           res_bind (members j) (\<lambda>kvs.
           res_bind (struct_field kvs ''oldThreshold'' dec_int64 0) (\<lambda>t.
           res_bind (struct_field kvs ''oldSubset'' (dec_text_list (id_Decode L) []) []) (\<lambda>ps.
           Ok \<lparr>OldThreshold = t, OldSubset = ps\<rparr>)))) of
        Fail e \<Rightarrow> (r, Fail e)
      | Panic m \<Rightarrow> (r, Panic m)
      | Ok params \<Rightarrow>
          (case validateStartParams h r params of (r', params', v) \<Rightarrow> (r', res_bind v (\<lambda>_. Ok params'))))"

section \<open>Ordering the parties\<close>

text \<open>
  The slots of the new party slice are pointers, nil until they are filled; writing past the
  end panics.
\<close>

fun fill_parties ::
  "libp2p \<Rightarrow> peer list \<Rightarrow> party_id list \<Rightarrow> party_id option list \<Rightarrow> nat \<Rightarrow> party_id option list res" where
  "fill_parties L oldPeers [] slots index = Ok slots"
| "fill_parties L oldPeers (party # parties) slots index =
     (let peerID = (case id_Decode L (Id party) of Ok p \<Rightarrow> p | _ \<Rightarrow> [])
      in if \<not> IsParticipant L peerID oldPeers
         then if index < length slots
              then fill_parties L oldPeers parties
                     (slots[index := Some (party\<lparr>Index := int index\<rparr>)]) (Suc index)
              else Panic ''index out of range''
         else fill_parties L oldPeers parties slots index)"

definition sortParties ::
  "libp2p \<Rightarrow> party_id list \<Rightarrow> party_id list \<Rightarrow> party_id option list res" where
  "sortParties L parties oldParties =
     (let slots = map Some (take (length parties) oldParties)
                  @ replicate (length parties - length oldParties) None;
          oldPeers = (case PeersFromParties L oldParties of Ok ps \<Rightarrow> ps | _ \<Rightarrow> [])
      in fill_parties L oldPeers parties slots (length oldParties))"

section \<open>Run, Stop and the new share\<close>

record ('k, 'q) resharing_lib =
  ReSharingParameters ::
    "party_id list \<Rightarrow> party_id list \<Rightarrow> party_id option \<Rightarrow> nat \<Rightarrow> int \<Rightarrow> nat \<Rightarrow> int \<Rightarrow> unit res"
  NewResharingParty :: "'k \<Rightarrow> nat \<Rightarrow> 'q res"
  StartResharingParty :: "'q \<Rightarrow> unit res"

definition resharing_Run ::
  "json_text \<Rightarrow> libp2p \<Rightarrow> tss_lib \<Rightarrow> ('k, 'q) resharing_lib \<Rightarrow> host \<Rightarrow> nat \<Rightarrow> unit res \<Rightarrow>
   bytes \<Rightarrow> 'k resharing \<Rightarrow> 'k resharing \<times> unit res" where
  "resharing_Run J L T R h now wait params r =
     (if Started r then (r, Fail ErrProcessStarted)
      else case resharing_unmarshallStartParams J L h (r\<lparr>Started := True\<rparr>) params of
             (r1, Fail e) \<Rightarrow> (r1, Fail e)
           | (r1, Panic m) \<Rightarrow> (r1, Panic m)
           | (r1, Ok sp) \<Rightarrow>
               let oldParties = PartiesFromPeers L T (OldSubset sp) in
               case res_bind (sortParties L (PartiesFromPeers L T (Peerstore h)) oldParties)
                      (res_map deref) of
                 Fail e \<Rightarrow> (r1, Fail e)
               | Panic m \<Rightarrow> (r1, Panic m)
               | Ok newParties \<Rightarrow>
                   let r2 = PopulatePartyStore r1 newParties in
                   case ReSharingParameters R oldParties newParties
                          (PartyStore r2 (id_String L (host_ID h)))
                          (length oldParties) (OldThreshold sp) (length newParties) (newThreshold r) of
                     Fail e \<Rightarrow> (r2, Fail e)
                   | Panic m \<Rightarrow> (r2, Panic m)
                   | Ok _ \<Rightarrow>
                       (r2\<lparr>rsubscriptionID := NewSubscriptionID (SID r) TssReshareMsg now\<rparr>,
                        res_bind (NewResharingParty R (Key (rkey r)) (session_number r)) (\<lambda>q.
                        res_bind (StartResharingParty R q) (\<lambda>_. wait))))"

definition resharing_Stop ::
  "'ch sub_manager \<Rightarrow> ks_store \<Rightarrow> 'k resharing \<Rightarrow> ('ch sub_manager \<times> ks_store) res" where
  "resharing_Stop ms ks r =
     res_bind (UnlockKeyshare ks) (\<lambda>ks'. Ok (UnSubscribeFrom ms (rsubscriptionID r), ks'))"

fun resharing_processEndMessage ::
  "json_text \<Rightarrow> libp2p \<Rightarrow> 'k key_codec \<Rightarrow> file_ops \<Rightarrow> 'k resharing \<Rightarrow> ks_store \<Rightarrow> 'k key_event list \<Rightarrow>
   (ks_store \<times> unit res) option" where
  "resharing_processEndMessage J L C os r ks [] = None"
| "resharing_processEndMessage J L C os r ks (KeyCtxDone # es) = Some (ks, Ok ())"
| "resharing_processEndMessage J L C os r ks (KeyDone key # es) =
     Some (StoreKeyshare J L C os (NewECDSAKeyshare key (newThreshold r) (ProcPeers r)) ks)"

definition resharing_Retryable :: bool where
  "resharing_Retryable = False"

section \<open>Lemmas\<close>

lemma sort_eq_Nil [simp]: "sort xs = [] \<longleftrightarrow> xs = []" for xs :: "'a :: linorder list"
  by (metis length_0_conv length_sort)

lemma filter_sort_id: "filter P (sort xs) = sort (filter P xs)"
  for xs :: "'a :: linorder list"
  using filter_sort [where f = "\<lambda>x. x"] by auto

lemma sort_PeersIntersection:
  "PeersIntersection (sort ps) qs = sort (PeersIntersection ps qs)"
  by (simp add: PeersIntersection_def filter_sort_id)

text \<open>Which parties \<open>fill_parties\<close> appends.\<close>

definition is_new :: "libp2p \<Rightarrow> peer list \<Rightarrow> party_id \<Rightarrow> bool" where
  "is_new L oldPeers p \<longleftrightarrow>
     \<not> IsParticipant L (case id_Decode L (Id p) of Ok q \<Rightarrow> q | _ \<Rightarrow> []) oldPeers"

lemma fill_parties_Cons:
  "fill_parties L olds (p # ps) slots i =
     (if is_new L olds p
      then if i < length slots
           then fill_parties L olds ps (slots[i := Some (p\<lparr>Index := int i\<rparr>)]) (Suc i)
           else Panic ''index out of range''
      else fill_parties L olds ps slots i)"
  by (simp add: is_new_def Let_def)

declare fill_parties.simps(2) [simp del]

fun number_from :: "nat \<Rightarrow> party_id list \<Rightarrow> party_id list" where
  "number_from i [] = []"
| "number_from i (p # ps) = p\<lparr>Index := int i\<rparr> # number_from (Suc i) ps"

lemma number_from_sel [simp]:
  "length (number_from i ps) = length ps"
  "map Id (number_from i ps) = map Id ps"
  by (induction ps arbitrary: i) auto

lemma Index_number_from: "j < length ps \<Longrightarrow> Index (number_from i ps ! j) = int (i + j)"
proof (induction ps arbitrary: i j)
  case (Cons p ps)
  then show ?case by (cases j) auto
qed simp

lemma fill_parties_exact:
  "length (filter (is_new L olds) parties) = n \<Longrightarrow>
   fill_parties L olds parties (slots @ replicate n None) (length slots)
   = Ok (slots @ map Some (number_from (length slots) (filter (is_new L olds) parties)))"
proof (induction parties arbitrary: slots n)
  case (Cons p ps)
  show ?case
  proof (cases "is_new L olds p")
    case True
    then obtain m where n: "n = Suc m" "length (filter (is_new L olds) ps) = m"
      using Cons.prems by auto
    have "fill_parties L olds ps ((slots @ [Some (p\<lparr>Index := int (length slots)\<rparr>)]) @ replicate m None)
        (length (slots @ [Some (p\<lparr>Index := int (length slots)\<rparr>)]))
      = Ok ((slots @ [Some (p\<lparr>Index := int (length slots)\<rparr>)])
         @ map Some (number_from (Suc (length slots)) (filter (is_new L olds) ps)))"
      using Cons.IH [OF n(2), of "slots @ [Some (p\<lparr>Index := int (length slots)\<rparr>)]"] by simp
    with True n(1) show ?thesis
      by (simp add: fill_parties_Cons list_update_append)
  next
    case False
    with Cons show ?thesis by (simp add: fill_parties_Cons)
  qed
qed simp

lemma fill_parties_overflow:
  "length slots < index + length (filter (is_new L olds) parties) \<Longrightarrow>
   index \<le> length slots \<Longrightarrow>
   fill_parties L olds parties slots index = Panic ''index out of range''"
proof (induction parties arbitrary: slots index)
  case (Cons p ps)
  show ?case
  proof (cases "is_new L olds p \<and> index < length slots")
    case True
    then show ?thesis
      using Cons.IH [of "slots[index := Some (p\<lparr>Index := int index\<rparr>)]" "Suc index"] Cons.prems
      by (simp add: fill_parties_Cons)
  next
    case False
    then show ?thesis using Cons by (auto simp: fill_parties_Cons)
  qed
qed simp

text \<open>Parties whose identifiers decode.\<close>

definition decodable :: "libp2p \<Rightarrow> party_id list \<Rightarrow> bool" where
  "decodable L ps \<longleftrightarrow> (\<forall>p \<in> set ps. \<exists>q. id_Decode L (Id p) = Ok q \<and> id_String L q = Id p)"

lemma is_new_iff:
  assumes "decodable L (p # olds)" and "PeersFromParties L olds = Ok ps"
  shows "is_new L ps p \<longleftrightarrow> Id p \<notin> Id ` set olds"
proof -
  have "map (id_String L) ps = map Id olds"
    using assms
  proof (induction olds arbitrary: ps)
    case (Cons o os)
    then show ?case by (auto simp: PeersFromParties_def res_simps decodable_def)
  qed (simp add: PeersFromParties_def)
  then have "set (map (id_String L) ps) = Id ` set olds" by simp
  moreover obtain q where "id_Decode L (Id p) = Ok q" "id_String L q = Id p"
    using assms(1) by (auto simp: decodable_def)
  moreover have "is_new L ps p \<longleftrightarrow> Id p \<notin> set (map (id_String L) ps)"
    using \<open>id_Decode L (Id p) = Ok q\<close> \<open>id_String L q = Id p\<close>
    by (force simp: is_new_def IsParticipant_def list_ex_iff)
  ultimately show ?thesis by simp
qed

lemma PeersFromParties_decodable: "decodable L olds \<Longrightarrow> \<exists>ps. PeersFromParties L olds = Ok ps"
  by (induction olds) (auto simp: PeersFromParties_def decodable_def)

lemma filter_is_new:
  assumes "decodable L (olds @ parties)" and "PeersFromParties L olds = Ok ps"
  shows "filter (is_new L ps) parties = filter (\<lambda>p. Id p \<notin> Id ` set olds) parties"
proof (rule filter_cong [OF refl])
  fix p assume "p \<in> set parties"
  then have "decodable L (p # olds)" using assms(1) by (auto simp: decodable_def)
  then show "is_new L ps p = (Id p \<notin> Id ` set olds)" by (rule is_new_iff [OF _ assms(2)])
qed

text \<open>How many parties are new, when the identifiers are distinct.\<close>

lemma length_new_parties:
  assumes "distinct (map Id parties)"
  shows "length (filter (\<lambda>p. Id p \<notin> X) parties) = length parties - card (Id ` set parties \<inter> X)"
proof -
  have "length (filter (\<lambda>p. Id p \<notin> X) parties) = length (filter (\<lambda>i. i \<notin> X) (map Id parties))"
    by (simp add: filter_map comp_def)
  also have "\<dots> = card (Id ` set parties - X)"
    using assms by (subst distinct_card [symmetric]) (auto intro: arg_cong [where f = card])
  also have "\<dots> = card (Id ` set parties) - card (Id ` set parties \<inter> X)"
    by (simp add: card_Diff_subset_Int)
  also have "card (Id ` set parties) = length parties"
    using assms distinct_card by fastforce
  finally show ?thesis .
qed

section \<open>Properties\<close>

text \<open>The announcement of an honest coordinator is accepted: a relayer whose share names the same
  committee, in any order, and whose peer store holds the same peers accepts the start
  parameters, and reads the old threshold and the old committee out of them.\<close>

theorem resharing_params_accepted:
  assumes "mset (KeyPeers (rkey r)) = mset (KeyPeers (rkey c)) \<or> KeyPeers (rkey r) = []"
    and "set (Peerstore h) = set (Peerstore hc)"
    and "0 < Threshold (rkey c)" and "Threshold (rkey c) < 2 ^ 63"
    and "Threshold (rkey c) \<le> int (length (PeersIntersection (KeyPeers (rkey c)) (Peerstore hc)))"
    and "text_ok J (params_json L (resharing_params hc c))"
    and "ids_ok L (KeyPeers (rkey c))"
  shows "\<exists>r'. resharing_unmarshallStartParams J L h r (resharing_StartParams J L hc c ready)
    = (r', Ok \<lparr>OldThreshold = Threshold (rkey c),
               OldSubset = sort (PeersIntersection (KeyPeers (rkey c)) (Peerstore hc))\<rparr>)"
proof -
  let ?old = "PeersIntersection (KeyPeers (rkey c)) (Peerstore hc)"
  have "dec_text_list (id_Decode L) [] (JArr (map (\<lambda>p. JStr (id_String L p)) ?old)) [] = Ok ?old"
    using assms(7) by (intro dec_text_list_map) (auto simp: ids_ok_def PeersIntersection_def)
  moreover have "KeyPeers (rkey r) = [] \<or>
      PeersIntersection (sort (KeyPeers (rkey r))) (Peerstore h) = sort ?old"
    using assms(1,2) by (metis PeersIntersection_def filter_sort_id mset_sort properties_for_sort
        sort_PeersIntersection sorted_sort)
  ultimately show ?thesis
    using assms(3-6)
    by (simp add: resharing_unmarshallStartParams_def resharing_StartParams_def)
      (auto simp: params_json_def resharing_params_def field_eval validateStartParams_def Let_def)
qed


text \<open>When the old committee is part of the new one, the parties of the new committee are the old
  ones, first and unchanged, followed by the others, each new party carrying its own position
  as its index.\<close>

theorem sortParties_extends:
  assumes "decodable L (old @ parties)" and "distinct (map Id parties)" and "distinct (map Id old)"
    and "Id ` set old \<subseteq> Id ` set parties"
  shows "\<exists>ps. sortParties L parties old = Ok (map Some ps) \<and> length ps = length parties
    \<and> take (length old) ps = old \<and> mset (map Id ps) = mset (map Id parties)
    \<and> (\<forall>i < length ps. length old \<le> i \<longrightarrow> Index (ps ! i) = int i)"
proof -
  let ?new = "filter (\<lambda>p. Id p \<notin> Id ` set old) parties"
  let ?ps = "old @ number_from (length old) ?new"
  have dec: "decodable L old" using assms(1) by (auto simp: decodable_def)
  then obtain qs where qs: "PeersFromParties L old = Ok qs"
    using PeersFromParties_decodable by blast
  have card: "card (Id ` set parties \<inter> Id ` set old) = length old"
    using assms(3,4) by (metis distinct_card inf.absorb2 length_map list.set_map)
  have le: "length old \<le> length parties"
    using card assms(2) by (metis card_mono distinct_card finite_imageI finite_set inf_le1 length_map list.set_map)
  have len: "length ?new = length parties - length old"
    using length_new_parties [OF assms(2)] card by simp
  have f: "filter (is_new L qs) parties = ?new" by (rule filter_is_new [OF assms(1) qs])
  have "sortParties L parties old = Ok (map Some ?ps)"
    using fill_parties_exact [of L qs parties "length parties - length old" "map Some old"] len f le
    by (simp add: sortParties_def qs)
  moreover have "mset (map Id ?ps) = mset (map Id parties)"
  proof (rule set_eq_iff_mset_eq_distinct [THEN iffD1])
    show "distinct (map Id ?ps)"
      using assms(2,3) by (auto simp: distinct_map_filter image_iff)
    show "distinct (map Id parties)" by (rule assms(2))
    show "set (map Id ?ps) = set (map Id parties)"
      using assms(4) by auto
  qed
  moreover have "\<forall>i < length ?ps. length old \<le> i \<longrightarrow> Index (?ps ! i) = int i"
  proof (intro allI impI)
    fix i assume "i < length ?ps" "length old \<le> i"
    then show "Index (?ps ! i) = int i"
      using Index_number_from [of "i - length old" ?new "length old"] by (simp add: nth_append)
  qed
  moreover have "length ?ps = length parties" "take (length old) ?ps = old"
    using len le by simp_all
  ultimately show ?thesis by blast
qed

text \<open>When a member of the announced old committee is not among the new peers, ordering the parties
  writes past the end of the slice and panics. A relayer without a share does not compare the
  announced committee with anything, so nothing before this call excludes the case.\<close>

theorem sortParties_unknown_old_panics:
  assumes "decodable L (old @ parties)" and "distinct (map Id parties)" and "distinct (map Id old)"
    and "\<not> Id ` set old \<subseteq> Id ` set parties" and "length old \<le> length parties"
  shows "sortParties L parties old = Panic ''index out of range''"
proof -
  have "decodable L old" using assms(1) by (auto simp: decodable_def)
  then obtain qs where qs: "PeersFromParties L old = Ok qs"
    using PeersFromParties_decodable by blast
  have "card (Id ` set parties \<inter> Id ` set old) < card (Id ` set old)"
    using assms(4) by (intro psubset_card_mono) auto
  also have "card (Id ` set old) = length old" using assms(3) distinct_card by fastforce
  finally have "length parties - length old < length (filter (\<lambda>p. Id p \<notin> Id ` set old) parties)"
    using length_new_parties [OF assms(2), of "Id ` set old"] assms(5) by linarith
  then show ?thesis
    using fill_parties_overflow [of "map Some old @ replicate (length parties - length old) None"
        "length old" L qs parties] filter_is_new [OF assms(1) qs] assms(5)
    by (simp add: sortParties_def qs)
qed

subsection \<open>The theorems at concrete inputs\<close>

definition sample_party :: "peer \<Rightarrow> party_id" where
  "sample_party p = \<lparr>Id = p, Moniker = p, KeyInt = 0, Index = 0\<rparr>"

definition sample_resharing :: "peer list \<Rightarrow> unit resharing" where
  "sample_resharing ps =
     \<lparr>SID = ''resharing-7'', PartyStore = Map.empty, Started = False, ProcPeers = committee, TssTimeout = 600,
      rkey = \<lparr>Key = (), Threshold = 1, KeyPeers = ps\<rparr>, rsubscriptionID = [], newThreshold = 2\<rparr>"

theorem resharing_params_accepted_witness:
  "let c = sample_resharing [''bbbbbbbb'', ''aaaaaaaa'']; r = sample_resharing [''aaaaaaaa'', ''bbbbbbbb''];
       J = one_doc (params_json raw_ids (resharing_params sample_host c)) []
   in \<exists>r'. resharing_unmarshallStartParams J raw_ids sample_host r
            (resharing_StartParams J raw_ids sample_host c [])
      = (r', Ok \<lparr>OldThreshold = Threshold (rkey c),
                 OldSubset = sort (PeersIntersection (KeyPeers (rkey c)) (Peerstore sample_host))\<rparr>)"
  unfolding Let_def
  by (rule resharing_params_accepted)
    (simp_all add: sample_resharing_def sample_host_def committee_def PeersIntersection_def)


theorem sortParties_extends_witness:
  "\<exists>ps. sortParties raw_ids (map sample_party [''a'', ''b'', ''c'']) (map sample_party [''b'', ''c'']) = Ok (map Some ps)
    \<and> length ps = length (map sample_party [''a'', ''b'', ''c''])
    \<and> take (length (map sample_party [''b'', ''c''])) ps = map sample_party [''b'', ''c'']
    \<and> mset (map Id ps) = mset (map Id (map sample_party [''a'', ''b'', ''c'']))
    \<and> (\<forall>i < length ps. length (map sample_party [''b'', ''c'']) \<le> i \<longrightarrow> Index (ps ! i) = int i)"
  by (rule sortParties_extends) (auto simp: decodable_def sample_party_def)

theorem sortParties_unknown_old_panics_witness:
  "sortParties raw_ids (map sample_party [''a'', ''b'']) (map sample_party [''b'', ''x''])
   = Panic ''index out of range''"
  by (rule sortParties_unknown_old_panics) (auto simp: decodable_def sample_party_def)

end
