(* ===== verification/Coordinator.thy ===== *)
theory Coordinator
  imports Resharing
begin

text \<open>
  The coordinator of tss processes, \<open>tss/coordinator.go\<close>. The two loops of a session, \<open>initiate\<close> on
  the coordinating relayer and \<open>waitForStart\<close> on the others, and the watchdog \<open>watchExecution\<close> are
  step functions over the events their \<open>select\<close> receives; \<open>Execute\<close> runs one of the loops and the
  watchdog side by side, so its events are an interleaving of theirs. The table of pending
  sessions that admits or refuses an \<open>Execute\<close> is a step relation of its own, since it is what
  concurrent calls share. What a loop does to the outside is a list of actions, in order.
\<close>

record tss_process =
  tp_SessionID :: string
  tp_Ready :: "peer list \<Rightarrow> peer list \<Rightarrow> bool res"
  tp_StartParams :: "peer list \<Rightarrow> bytes"
  tp_ValidCoordinators :: "peer list"
  tp_Timeout :: nat
  tp_Retryable :: bool

text \<open>The three processes as values of the interface \<open>TssProcess\<close>.\<close>

definition signing_process :: "json_text \<Rightarrow> libp2p \<Rightarrow> keccak \<Rightarrow> 'k signing \<Rightarrow> tss_process" where
  "signing_process J L K s =
     \<lparr>tp_SessionID = SID s, tp_Ready = signing_Ready s, tp_StartParams = signing_StartParams J L K s,
      tp_ValidCoordinators = signing_ValidCoordinators s, tp_Timeout = TssTimeout s,
      tp_Retryable = signing_Retryable\<rparr>"

definition keygen_process :: "host \<Rightarrow> keygen \<Rightarrow> tss_process" where
  "keygen_process h k =
     \<lparr>tp_SessionID = SID k, tp_Ready = keygen_Ready h, tp_StartParams = keygen_StartParams,
      tp_ValidCoordinators = keygen_ValidCoordinators h, tp_Timeout = TssTimeout k,
      tp_Retryable = keygen_Retryable\<rparr>"

definition resharing_process :: "json_text \<Rightarrow> libp2p \<Rightarrow> host \<Rightarrow> 'k resharing \<Rightarrow> tss_process" where
  "resharing_process J L h r =
     \<lparr>tp_SessionID = SID r, tp_Ready = resharing_Ready h, tp_StartParams = resharing_StartParams J L h r,
      tp_ValidCoordinators = resharing_ValidCoordinators L h r, tp_Timeout = TssTimeout r,
      tp_Retryable = resharing_Retryable\<rparr>"

section \<open>Actions\<close>

text \<open>\<open>SpawnRun c params\<close> is \<open>go c.startProcess(ctx, tssProcess, c, params, ...)\<close>.\<close>

datatype coord_action = Broadcast send | SpawnRun bool bytes

text \<open>
  \<open>startProcess\<close>: what becomes of the result of \<open>Run\<close>. A process that was already running reports
  nothing; otherwise the result reaches the loop only if the loop is waiting in its \<open>select\<close>.
\<close>

definition startProcess :: "unit res \<Rightarrow> bool \<Rightarrow> unit res option" where
  "startProcess runResult loopWaiting =
     (if runResult = Fail ErrProcessStarted then None
      else if loopWaiting then Some runResult else None)"

definition broadcastInitiateMsg :: "host \<Rightarrow> string \<Rightarrow> coord_action" where
  "broadcastInitiateMsg h sessionID =
     Broadcast \<lparr>to = Peerstore h, body = [], kind = TssInitiateMsg, session = sessionID\<rparr>"

section \<open>The coordinating relayer\<close>

record init_state =
  readyPeers :: "peer list"
  ticking :: bool
  acts :: "coord_action list"
  outcome :: "unit res option"

datatype init_event = RunEnded "unit res" | ReadyFrom peer | InitTick | InitCtxDone

definition initiate_begin :: "host \<Rightarrow> tss_process \<Rightarrow> init_state" where
  "initiate_begin h p =
     \<lparr>readyPeers = [host_ID h], ticking = True,
      acts = [broadcastInitiateMsg h (tp_SessionID p)], outcome = None\<rparr>"

definition start_actions :: "host \<Rightarrow> tss_process \<Rightarrow> bytes \<Rightarrow> bytes \<Rightarrow> coord_action list" where
  "start_actions h p startMsgBytes params =
     [Broadcast \<lparr>to = Peerstore h, body = startMsgBytes, kind = TssStartMsg, session = tp_SessionID p\<rparr>,
      SpawnRun True params]"

definition on_ready ::
  "json_text \<Rightarrow> host \<Rightarrow> tss_process \<Rightarrow> peer list \<Rightarrow> init_state \<Rightarrow> peer \<Rightarrow> init_state" where
  "on_ready J h p excluded st wFrom =
     (let rp = (if wFrom \<notin> set excluded \<and> wFrom \<notin> set (readyPeers st)
                then readyPeers st @ [wFrom] else readyPeers st);
          st1 = st\<lparr>readyPeers := rp\<rparr>
      in case tp_Ready p rp excluded of
           Fail e \<Rightarrow> st1\<lparr>outcome := Some (Fail e)\<rparr>
         | Panic m \<Rightarrow> st1\<lparr>outcome := Some (Panic m)\<rparr>
         | Ok False \<Rightarrow> st1
         | Ok True \<Rightarrow>
             let startParams = tp_StartParams p rp in
             case MarshalStartMessage J startParams of
               Fail e \<Rightarrow> st1\<lparr>outcome := Some (Fail e)\<rparr>
             | Panic m \<Rightarrow> st1\<lparr>outcome := Some (Panic m)\<rparr>
             | Ok startMsgBytes \<Rightarrow>
                 st1\<lparr>acts := acts st @ start_actions h p startMsgBytes startParams, ticking := False\<rparr>)"

fun initiate_step ::
  "json_text \<Rightarrow> host \<Rightarrow> tss_process \<Rightarrow> peer list \<Rightarrow> init_state \<Rightarrow> init_event \<Rightarrow> init_state" where
  "initiate_step J h p excluded st ev =
     (if outcome st \<noteq> None then st
      else case ev of
             RunEnded r \<Rightarrow> st\<lparr>outcome := Some r\<rparr>
           | ReadyFrom q \<Rightarrow> on_ready J h p excluded st q
           | InitTick \<Rightarrow>
               (if ticking st then st\<lparr>acts := acts st @ [broadcastInitiateMsg h (tp_SessionID p)]\<rparr> else st)
           | InitCtxDone \<Rightarrow> st\<lparr>outcome := Some (Ok ())\<rparr>)"

definition initiate :: "json_text \<Rightarrow> host \<Rightarrow> tss_process \<Rightarrow> peer list \<Rightarrow> init_event list \<Rightarrow> init_state" where
  "initiate J h p excluded es = foldl (initiate_step J h p excluded) (initiate_begin h p) es"

section \<open>The other relayers\<close>

record wait_state =
  wacts :: "coord_action list"
  woutcome :: "unit res option"

datatype wait_event = InitiateFrom peer | StartFrom peer bytes | WRunEnded "unit res" | WaitCtxDone

definition wait_begin :: wait_state where
  "wait_begin = \<lparr>wacts = [], woutcome = None\<rparr>"

fun waitForStart_step ::
  "json_text \<Rightarrow> tss_process \<Rightarrow> peer \<Rightarrow> wait_state \<Rightarrow> wait_event \<Rightarrow> wait_state" where
  "waitForStart_step J p coord st ev =
     (if woutcome st \<noteq> None then st
      else case ev of
             InitiateFrom q \<Rightarrow>
               (if coord \<noteq> [] \<and> q \<noteq> coord then st
                else st\<lparr>wacts := wacts st @
                       [Broadcast \<lparr>to = [q], body = [], kind = TssReadyMsg, session = tp_SessionID p\<rparr>]\<rparr>)
           | WRunEnded r \<Rightarrow> st\<lparr>woutcome := Some r\<rparr>
           | StartFrom q payload \<Rightarrow>
               (if coord \<noteq> [] \<and> q \<noteq> coord then st
                else case UnmarshalStartMessage J payload of
                       Fail e \<Rightarrow> st\<lparr>woutcome := Some (Fail e)\<rparr>
                     | Panic m \<Rightarrow> st\<lparr>woutcome := Some (Panic m)\<rparr>
                     | Ok msg \<Rightarrow> st\<lparr>wacts := wacts st @ [SpawnRun False (Params msg)]\<rparr>)
           | WaitCtxDone \<Rightarrow> st\<lparr>woutcome := Some (Ok ())\<rparr>)"

definition waitForStart :: "json_text \<Rightarrow> tss_process \<Rightarrow> peer \<Rightarrow> wait_event list \<Rightarrow> wait_state" where
  "waitForStart J p coord es = foldl (waitForStart_step J p coord) wait_begin es"

section \<open>The watchdog\<close>

record watch_state =
  watch_outcome :: "unit res option"
  watch_stops :: nat
  watch_cancels :: bool

datatype watch_event = Timeout | FailFrom peer | WatchCtxDone

definition watch_begin :: watch_state where
  "watch_begin = \<lparr>watch_outcome = None, watch_stops = 0, watch_cancels = False\<rparr>"

fun watchExecution_step ::
  "libp2p \<Rightarrow> tss_process \<Rightarrow> peer \<Rightarrow> watch_state \<Rightarrow> watch_event \<Rightarrow> watch_state" where
  "watchExecution_step L p coord st ev =
     (if watch_outcome st \<noteq> None then st
      else case ev of
             Timeout \<Rightarrow>
               st\<lparr>watch_outcome := Some (Ok ()), watch_stops := Suc (watch_stops st), watch_cancels := True\<rparr>
           | WatchCtxDone \<Rightarrow> st\<lparr>watch_outcome := Some (Ok ())\<rparr>
           | FailFrom q \<Rightarrow>
               (if id_String L q \<noteq> id_String L coord then st
                else st\<lparr>watch_outcome := Some (Fail (Errorf
                       (''tss fail message received for process '' @ tp_SessionID p)))\<rparr>))"

section \<open>Execute\<close>

text \<open>Which of the two loops \<open>start\<close> enters.\<close>

datatype start_state = Initiating init_state | Waiting wait_state

definition start :: "libp2p \<Rightarrow> host \<Rightarrow> tss_process \<Rightarrow> peer \<Rightarrow> start_state" where
  "start L h p coord =
     (if id_String L coord = id_String L (host_ID h) then Initiating (initiate_begin h p)
      else Waiting wait_begin)"

fun start_outcome :: "start_state \<Rightarrow> unit res option" where
  "start_outcome (Initiating st) = outcome st"
| "start_outcome (Waiting st) = woutcome st"

text \<open>The coordinator of the session: the one the request names, or the elected one.\<close>

definition session_coordinator :: "libp2p \<Rightarrow> keccak \<Rightarrow> tss_process \<Rightarrow> peer \<Rightarrow> peer" where
  "session_coordinator L K p coord =
     (if id_String L coord = [] then static_Coordinator L K (tp_SessionID p) (tp_ValidCoordinators p)
      else coord)"

record exec_state =
  starting :: start_state
  watching :: watch_state
  cancelled :: bool

datatype exec_event = EInit init_event | EWait wait_event | EWatch watch_event

definition exec_begin :: "libp2p \<Rightarrow> host \<Rightarrow> tss_process \<Rightarrow> peer \<Rightarrow> exec_state" where
  "exec_begin L h p coord =
     \<lparr>starting = start L h p coord, watching = watch_begin, cancelled = False\<rparr>"

text \<open>
  A goroutine sees the context done only after it was cancelled; it is cancelled when \<open>start\<close>
  returns (by \<open>cancel\<close> or, on an error, by the pool), when the watchdog fails or when it times out.
\<close>

fun exec_enabled :: "exec_state \<Rightarrow> exec_event \<Rightarrow> bool" where
  "exec_enabled st (EInit InitCtxDone) = cancelled st"
| "exec_enabled st (EWait WaitCtxDone) = cancelled st"
| "exec_enabled st (EWatch WatchCtxDone) = cancelled st"
| "exec_enabled st _ = True"

definition sync_cancel :: "exec_state \<Rightarrow> exec_state" where
  "sync_cancel st = st\<lparr>cancelled := cancelled st \<or> start_outcome (starting st) \<noteq> None
     \<or> watch_cancels (watching st)
     \<or> (case watch_outcome (watching st) of Some (Fail _) \<Rightarrow> True | _ \<Rightarrow> False)\<rparr>"

definition exec_move ::
  "json_text \<Rightarrow> libp2p \<Rightarrow> host \<Rightarrow> tss_process \<Rightarrow> peer \<Rightarrow> exec_state \<Rightarrow> exec_event \<Rightarrow> exec_state" where
  "exec_move J L h p coord st ev =
     (case (ev, starting st) of
        (EInit e, Initiating s) \<Rightarrow> st\<lparr>starting := Initiating (initiate_step J h p [] s e)\<rparr>
      | (EWait e, Waiting s) \<Rightarrow> st\<lparr>starting := Waiting (waitForStart_step J p coord s e)\<rparr>
      | (EWatch e, _) \<Rightarrow> st\<lparr>watching := watchExecution_step L p coord (watching st) e\<rparr>
      | _ \<Rightarrow> st)"

definition exec_step ::
  "json_text \<Rightarrow> libp2p \<Rightarrow> host \<Rightarrow> tss_process \<Rightarrow> peer \<Rightarrow> exec_state \<Rightarrow> exec_event \<Rightarrow> exec_state" where
  "exec_step J L h p coord st ev =
     (if exec_enabled st ev then sync_cancel (exec_move J L h p coord st ev) else st)"

text \<open>
  \<open>p.Wait()\<close> returns once both goroutines have, and repeats a panic of either. If one of the two
  errors is a \<open>SubsetError\<close> the execution has not failed; of two other errors, which the pool joins,
  the first stands for both. The deferred function then stops the process once more.
\<close>

fun res_errors :: "unit res \<Rightarrow> go_error list" where
  "res_errors (Fail e) = [e]"
| "res_errors _ = []"

fun is_subset_error :: "go_error \<Rightarrow> bool" where
  "is_subset_error (SubsetError q) = True"
| "is_subset_error _ = False"

fun pool_result :: "unit res \<Rightarrow> unit res \<Rightarrow> unit res" where
  "pool_result (Panic m) b = Panic m"
| "pool_result a (Panic m) = Panic m"
| "pool_result a b =
     (let errs = res_errors a @ res_errors b
      in if errs = [] \<or> list_ex is_subset_error errs then Ok () else Fail (hd errs))"

definition exec_result :: "exec_state \<Rightarrow> unit res option" where
  "exec_result st =
     (case (start_outcome (starting st), watch_outcome (watching st)) of
        (Some a, Some b) \<Rightarrow> Some (pool_result a b)
      | _ \<Rightarrow> None)"

definition exec_stops :: "exec_state \<Rightarrow> nat" where
  "exec_stops st = Suc (watch_stops (watching st))"

definition Execute ::
  "json_text \<Rightarrow> libp2p \<Rightarrow> keccak \<Rightarrow> host \<Rightarrow> tss_process \<Rightarrow> peer \<Rightarrow> exec_event list \<Rightarrow> exec_state" where
  "Execute J L K h p coord es =
     (let c = session_coordinator L K p coord
      in foldl (exec_step J L h p c) (exec_begin L h p c) es)"

section \<open>The table of pending sessions\<close>

record pending_table =
  pendingProcesses :: "string \<rightharpoonup> bool"
  running :: "string list"

definition NewCoordinator :: pending_table where
  "NewCoordinator = \<lparr>pendingProcesses = Map.empty, running = []\<rparr>"

text \<open>The first lines of \<open>Execute\<close>, under the process lock, and its deferred function.\<close>

definition admit :: "pending_table \<Rightarrow> string \<Rightarrow> pending_table \<times> unit res" where
  "admit c sessionID =
     (if pendingProcesses c sessionID = Some True
      then (c, Fail (Errorf ''process already pending''))
      else (c\<lparr>pendingProcesses := (pendingProcesses c)(sessionID \<mapsto> True),
              running := sessionID # running c\<rparr>, Ok ()))"

definition release :: "pending_table \<Rightarrow> string \<Rightarrow> pending_table" where
  "release c sessionID =
     c\<lparr>pendingProcesses := (pendingProcesses c)(sessionID \<mapsto> False),
       running := remove1 sessionID (running c)\<rparr>"

inductive table_step :: "pending_table \<Rightarrow> pending_table \<Rightarrow> bool" where
  call: "admit c sess = (c', r) \<Longrightarrow> table_step c c'"
| return: "sess \<in> set (running c) \<Longrightarrow> table_step c (release c sess)"

inductive table_reachable :: "pending_table \<Rightarrow> bool" where
  init: "table_reachable NewCoordinator"
| step: "table_reachable c \<Longrightarrow> table_step c c' \<Longrightarrow> table_reachable c'"

section \<open>The coordinating relayer keeps its promise\<close>

text \<open>
  Whenever a start message was broadcast or the process was started, it was for a list of
  ready peers that the process itself had found sufficient.
\<close>

definition backed :: "host \<Rightarrow> tss_process \<Rightarrow> peer list \<Rightarrow> bytes \<Rightarrow> bool" where
  "backed h p excluded params \<longleftrightarrow>
     (\<exists>rp. tp_Ready p rp excluded = Ok True \<and> distinct rp \<and> host_ID h \<in> set rp
        \<and> set rp \<inter> set excluded \<subseteq> {host_ID h} \<and> params = tp_StartParams p rp)"

fun action_ok :: "json_text \<Rightarrow> host \<Rightarrow> tss_process \<Rightarrow> peer list \<Rightarrow> coord_action \<Rightarrow> bool" where
  "action_ok J h p excluded (SpawnRun c params) = (c \<and> backed h p excluded params)"
| "action_ok J h p excluded (Broadcast m) =
     (to m = Peerstore h \<and> session m = tp_SessionID p \<and>
      (kind m = TssInitiateMsg \<or>
       kind m = TssStartMsg \<and> (\<exists>params. body m = jrender J (start_json J params) \<and> backed h p excluded params)))"

definition init_inv :: "json_text \<Rightarrow> host \<Rightarrow> tss_process \<Rightarrow> peer list \<Rightarrow> init_state \<Rightarrow> bool" where
  "init_inv J h p excluded st \<longleftrightarrow>
     distinct (readyPeers st) \<and> host_ID h \<in> set (readyPeers st)
     \<and> set (readyPeers st) \<inter> set excluded \<subseteq> {host_ID h}
     \<and> (\<forall>a \<in> set (acts st). action_ok J h p excluded a)"

lemma init_inv_begin: "init_inv J h p excluded (initiate_begin h p)"
  by (auto simp: init_inv_def initiate_begin_def broadcastInitiateMsg_def)

lemma init_inv_on_ready:
  assumes "init_inv J h p excluded st"
  shows "init_inv J h p excluded (on_ready J h p excluded st q)"
proof -
  let ?rp = "if q \<notin> set excluded \<and> q \<notin> set (readyPeers st) then readyPeers st @ [q] else readyPeers st"
  have rp: "distinct ?rp" "host_ID h \<in> set ?rp" "set ?rp \<inter> set excluded \<subseteq> {host_ID h}"
    using assms by (auto simp: init_inv_def)
  then have "tp_Ready p ?rp excluded = Ok True \<Longrightarrow> backed h p excluded (tp_StartParams p ?rp)"
    unfolding backed_def by blast
  then show ?thesis
    using assms rp
    by (auto simp: on_ready_def init_inv_def Let_def MarshalStartMessage_def start_actions_def
        split: res.splits bool.splits)
qed

interpretation initiating: event_loop "initiate_step J h p excluded" "init_inv J h p excluded"
  for J h p excluded
proof
  fix st :: init_state and ev
  assume "init_inv J h p excluded st"
  then show "init_inv J h p excluded (initiate_step J h p excluded st ev)"
    by (cases ev)
      (simp_all add: init_inv_on_ready, auto simp: init_inv_def broadcastInitiateMsg_def)
qed

text \<open>
  The contract between the loop and the process: what the process calls ready is a quorum. Every
  start message is then backed by a quorum.
\<close>

locale quorum_process =
  fixes p :: tss_process
    and quorum :: "peer list \<Rightarrow> bool"
  assumes ready_quorum: "tp_Ready p rp ex = Ok True \<Longrightarrow> quorum rp"
begin

lemma start_needs_quorum:
  assumes "Broadcast m \<in> set (acts (initiate J h p ex es))" and "kind m = TssStartMsg"
  shows "\<exists>rp. quorum rp \<and> distinct rp \<and> host_ID h \<in> set rp
    \<and> body m = jrender J (start_json J (tp_StartParams p rp))"
proof -
  have "init_inv J h p ex (initiate J h p ex es)"
    unfolding initiate_def by (rule initiating.run_keeps [OF init_inv_begin])
  then have "action_ok J h p ex (Broadcast m)"
    using assms(1) by (auto simp: init_inv_def)
  then show ?thesis
    using assms(2) ready_quorum by (auto simp: backed_def)
qed

lemma run_needs_quorum:
  assumes "SpawnRun c params \<in> set (acts (initiate J h p ex es))"
  shows "c \<and> (\<exists>rp. quorum rp \<and> distinct rp \<and> host_ID h \<in> set rp \<and> params = tp_StartParams p rp)"
proof -
  have "init_inv J h p ex (initiate J h p ex es)"
    unfolding initiate_def by (rule initiating.run_keeps [OF init_inv_begin])
  then have "action_ok J h p ex (SpawnRun c params)"
    using assms by (auto simp: init_inv_def)
  then show ?thesis
    using ready_quorum by (auto simp: backed_def)
qed

end

interpretation sq: quorum_process "signing_process J L K s"
  "\<lambda>rp. int (length (readyParticipants s rp)) = Threshold (skey s) + 1" for J L K s
  by unfold_locales (simp add: signing_process_def signing_Ready_def)

interpretation kq: quorum_process "keygen_process h k" "\<lambda>rp. length rp = length (Peerstore h)" for h k
  by unfold_locales (auto simp: keygen_process_def keygen_Ready_def split: if_splits)

interpretation rq: quorum_process "resharing_process J L h r" "\<lambda>rp. length rp = length (Peerstore h)"
  for J L h r
  by unfold_locales (auto simp: resharing_process_def resharing_Ready_def)



section \<open>Enough ready peers start the process\<close>

definition started :: "tss_process \<Rightarrow> init_state \<Rightarrow> bool" where
  "started p st \<longleftrightarrow>
     (\<exists>m. Broadcast m \<in> set (acts st) \<and> kind m = TssStartMsg \<and> session m = tp_SessionID p)
     \<and> (\<exists>params. SpawnRun True params \<in> set (acts st))"

fun before_end :: "init_event \<Rightarrow> bool" where
  "before_end (ReadyFrom q) = True"
| "before_end InitTick = True"
| "before_end _ = False"

definition announced :: "init_event list \<Rightarrow> peer list \<Rightarrow> peer set" where
  "announced es excluded = {q. ReadyFrom q \<in> set es} - set excluded"

definition gathering :: "'k signing \<Rightarrow> tss_process \<Rightarrow> peer set \<Rightarrow> init_state \<Rightarrow> bool" where
  "gathering s p ps st \<longleftrightarrow>
     outcome st = None \<and> set (readyPeers st) = ps \<and> distinct (readyPeers st)
     \<and> (int (length (readyParticipants s (readyPeers st))) \<le> Threshold (skey s) \<or> started p st)"

definition joined :: "peer list \<Rightarrow> peer list \<Rightarrow> peer \<Rightarrow> peer list" where
  "joined excluded rs q = (if q \<notin> set excluded \<and> q \<notin> set rs then rs @ [q] else rs)"

lemma on_ready_signing:
  "on_ready J h (signing_process J L K s) ex st q =
     (let rp = joined ex (readyPeers st) q; params = signing_StartParams J L K s rp in
      if int (length (readyParticipants s rp)) = Threshold (skey s) + 1
      then st\<lparr>readyPeers := rp, ticking := False,
              acts := acts st @ start_actions h (signing_process J L K s) (jrender J (start_json J params)) params\<rparr>
      else st\<lparr>readyPeers := rp\<rparr>)"
  by (simp add: on_ready_def joined_def Let_def signing_process_def signing_Ready_def MarshalStartMessage_def)

lemma joined_facts:
  "set (joined ex rs q) = set rs \<union> ({q} - set ex)" "distinct rs \<Longrightarrow> distinct (joined ex rs q)"
  "length (readyParticipants s (joined ex rs q)) \<le> Suc (length (readyParticipants s rs))"
  by (auto simp: joined_def readyParticipants_def)

lemma gathering_on_ready:
  assumes "gathering s (signing_process J L K s) ps st"
  shows "gathering s (signing_process J L K s) (ps \<union> ({q} - set ex))
    (on_ready J h (signing_process J L K s) ex st q)"
proof (cases "int (length (readyParticipants s (joined ex (readyPeers st) q))) = Threshold (skey s) + 1")
  case True
  then have "started (signing_process J L K s) (on_ready J h (signing_process J L K s) ex st q)"
    by (auto simp: on_ready_signing Let_def started_def start_actions_def)
  with True assms show ?thesis
    by (simp add: gathering_def on_ready_signing Let_def joined_facts)
next
  case False
  then have eq: "on_ready J h (signing_process J L K s) ex st q
      = st\<lparr>readyPeers := joined ex (readyPeers st) q\<rparr>"
    by (simp add: on_ready_signing Let_def)
  have "int (length (readyParticipants s (joined ex (readyPeers st) q))) \<le> Threshold (skey s)
      \<or> started (signing_process J L K s) st"
    using assms False joined_facts(3) [of s ex "readyPeers st" q] by (auto simp: gathering_def)
  then show ?thesis
    using assms by (simp add: eq gathering_def joined_facts started_def)
qed

lemma initiate_snoc:
  "initiate J h p ex (es @ [e]) = initiate_step J h p ex (initiate J h p ex es) e"
  by (simp add: initiate_def)

lemma gathering_initiate:
  assumes "list_all before_end es" and "1 \<le> Threshold (skey s)"
  shows "gathering s (signing_process J L K s) (insert (host_ID h) (announced es ex))
    (initiate J h (signing_process J L K s) ex es)"
  using assms(1)
proof (induction es rule: rev_induct)
  case Nil
  then show ?case
    using assms(2) by (simp add: initiate_def initiate_begin_def gathering_def announced_def readyParticipants_def)
next
  case (snoc e es)
  let ?p = "signing_process J L K s"
  have IH: "gathering s ?p (insert (host_ID h) (announced es ex)) (initiate J h ?p ex es)"
    and none: "outcome (initiate J h ?p ex es) = None"
    using snoc by (auto simp: gathering_def)
  show ?case
  proof (cases e)
    case (ReadyFrom q)
    have "insert (host_ID h) (announced es ex) \<union> ({q} - set ex) = insert (host_ID h) (announced (es @ [e]) ex)"
      using ReadyFrom by (auto simp: announced_def)
    then show ?thesis
      using gathering_on_ready [OF IH, of q ex h] none ReadyFrom by (simp add: initiate_snoc)
  next
    case InitTick
    then have "announced (es @ [e]) ex = announced es ex" by (auto simp: announced_def)
    then show ?thesis
      using IH none InitTick by (auto simp: initiate_snoc gathering_def started_def)
  qed (use snoc.prems in auto)
qed

text \<open>C14: a signing session with a coordinator starts as soon as it can: once threshold + 1 distinct
  holders of a key share, itself included when it holds one, have reported ready, the start
  message has been broadcast and the local party started, whatever else arrived before and in
  whatever order, duplicates included.\<close>

theorem signing_start_liveness:
  assumes "list_all before_end es" and "1 \<le> Threshold (skey s)"
    and "Threshold (skey s) < int (card (insert (host_ID h) (announced es ex) \<inter> set (KeyPeers (skey s))))"
  shows "started (signing_process J L K s) (initiate J h (signing_process J L K s) ex es)"
proof -
  let ?st = "initiate J h (signing_process J L K s) ex es"
  have g: "gathering s (signing_process J L K s) (insert (host_ID h) (announced es ex)) ?st"
    by (rule gathering_initiate [OF assms(1,2)])
  have "length (readyParticipants s (readyPeers ?st)) = card (set (readyParticipants s (readyPeers ?st)))"
    using g by (simp add: gathering_def readyParticipants_def distinct_card [symmetric] del: set_filter)
  moreover have "set (readyParticipants s (readyPeers ?st))
      = insert (host_ID h) (announced es ex) \<inter> set (KeyPeers (skey s))"
    using g by (auto simp: gathering_def readyParticipants_def)
  ultimately have "\<not> int (length (readyParticipants s (readyPeers ?st))) \<le> Threshold (skey s)"
    using assms(3) by simp
  with g show ?thesis by (simp add: gathering_def)
qed

theorem signing_start_liveness_witness:
  "started (signing_process (one_doc JNull []) raw_ids id sample_signing)
     (initiate (one_doc JNull []) sample_host (signing_process (one_doc JNull []) raw_ids id sample_signing) []
       [ReadyFrom ''zzzzzzzz'', InitTick, ReadyFrom ''cccccccc''])"
proof (rule signing_start_liveness)
  have "insert (host_ID sample_host)
        (announced [ReadyFrom ''zzzzzzzz'', InitTick, ReadyFrom ''cccccccc''] []) \<inter> set (KeyPeers (skey sample_signing))
      = {''aaaaaaaa'', ''cccccccc''}"
    by (auto simp: announced_def sample_host_def sample_defs)
  then show "Threshold (skey sample_signing) < int (card (insert (host_ID sample_host)
        (announced [ReadyFrom ''zzzzzzzz'', InitTick, ReadyFrom ''cccccccc''] []) \<inter> set (KeyPeers (skey sample_signing))))"
    by (simp add: sample_defs)
qed (simp_all add: sample_defs)

section \<open>The other relayers follow the coordinator only\<close>

definition wait_inv :: "json_text \<Rightarrow> tss_process \<Rightarrow> peer \<Rightarrow> wait_event list \<Rightarrow> wait_state \<Rightarrow> bool" where
  "wait_inv J p coord es st \<longleftrightarrow>
     (\<forall>a \<in> set (wacts st). case a of
        Broadcast m \<Rightarrow> to m = [coord] \<and> kind m = TssReadyMsg \<and> session m = tp_SessionID p
                      \<and> InitiateFrom coord \<in> set es
      | SpawnRun c params \<Rightarrow> \<not> c \<and> (\<exists>payload. StartFrom coord payload \<in> set es
                      \<and> UnmarshalStartMessage J payload = Ok \<lparr>Params = params\<rparr>))"

lemma wait_inv_more: "wait_inv J p coord es st \<Longrightarrow> wait_inv J p coord (es @ [e]) st"
  unfolding wait_inv_def by (fastforce split: coord_action.splits)

lemma wait_inv_step:
  assumes "wait_inv J p coord es st" and "coord \<noteq> []"
  shows "wait_inv J p coord (es @ [e]) (waitForStart_step J p coord st e)"
proof -
  have old: "wait_inv J p coord (es @ [e]) st" by (rule wait_inv_more [OF assms(1)])
  show ?thesis
  proof (cases e)
    case (StartFrom q payload)
    have "Ok \<lparr>Params = Params m\<rparr> = Ok m" for m :: start_message by simp
    with StartFrom old assms(2) show ?thesis
      by (cases "UnmarshalStartMessage J payload") (auto simp: wait_inv_def)
  qed (use old assms(2) in \<open>auto simp: wait_inv_def\<close>)
qed

lemma wait_inv_waitForStart: "coord \<noteq> [] \<Longrightarrow> wait_inv J p coord es (waitForStart J p coord es)"
proof (induction es rule: rev_induct)
  case Nil
  then show ?case by (simp add: waitForStart_def wait_begin_def wait_inv_def)
next
  case (snoc e es)
  then show ?case
    using wait_inv_step [of J p coord es "waitForStart J p coord es" e] by (simp add: waitForStart_def)
qed

text \<open>C23: a relayer that takes part in a session answers and follows the coordinator alone: every
  ready message goes to the coordinator after an initiate message of the coordinator, and the
  party runs only with the parameters of a start message that the coordinator sent.\<close>

theorem participant_follows_coordinator:
  assumes "coord \<noteq> []" and "a \<in> set (wacts (waitForStart J p coord es))"
  shows "case a of
      Broadcast m \<Rightarrow> to m = [coord] \<and> kind m = TssReadyMsg \<and> session m = tp_SessionID p
                    \<and> InitiateFrom coord \<in> set es
    | SpawnRun c params \<Rightarrow> \<not> c \<and> (\<exists>payload. StartFrom coord payload \<in> set es
                    \<and> UnmarshalStartMessage J payload = Ok \<lparr>Params = params\<rparr>)"
  using wait_inv_waitForStart [OF assms(1), of J p es] assms(2) unfolding wait_inv_def by blast

theorem participant_follows_coordinator_witness:
  "case SpawnRun False [5] of
      Broadcast m \<Rightarrow> to m = [''aaaaaaaa''] \<and> kind m = TssReadyMsg
                    \<and> session m = tp_SessionID (keygen_process sample_host sample_keygen)
                    \<and> InitiateFrom ''aaaaaaaa'' \<in> set [StartFrom ''bbbbbbbb'' [1], StartFrom ''aaaaaaaa'' [0]]
    | SpawnRun c params \<Rightarrow> \<not> c \<and>
        (\<exists>payload. StartFrom ''aaaaaaaa'' payload \<in> set [StartFrom ''bbbbbbbb'' [1], StartFrom ''aaaaaaaa'' [0]]
          \<and> UnmarshalStartMessage (one_doc (JObj [(''params'', JStr [])]) [5]) payload = Ok \<lparr>Params = params\<rparr>)"
  by (rule participant_follows_coordinator)
    (simp_all add: waitForStart_def wait_begin_def UnmarshalStartMessage_def json_unmarshal_tree_def field_eval)

section \<open>One execution per session\<close>

inductive_cases table_stepE: "table_step c c'"

definition table_inv :: "pending_table \<Rightarrow> bool" where
  "table_inv c \<longleftrightarrow> distinct (running c)
     \<and> (\<forall>sess. sess \<in> set (running c) \<longleftrightarrow> pendingProcesses c sess = Some True)"

lemma table_inv_admit: "table_inv c \<Longrightarrow> table_inv (fst (admit c sess))"
  by (simp add: table_inv_def admit_def)

lemma table_inv_release: "table_inv c \<Longrightarrow> table_inv (release c sess)"
  by (simp add: table_inv_def release_def)

lemma table_inv_step: "table_inv c \<Longrightarrow> table_step c c' \<Longrightarrow> table_inv c'"
  by (erule table_stepE) (metis fst_conv table_inv_admit, metis table_inv_release)

lemma table_inv_reachable: "table_reachable c \<Longrightarrow> table_inv c"
proof (induction rule: table_reachable.induct)
  case init
  then show ?case by (simp add: table_inv_def NewCoordinator_def)
qed (rule table_inv_step)

text \<open>Whatever calls of \<open>Execute\<close> begin and end in whatever order, no two of them run the same
  session at the same time, and a call is refused, changing nothing, exactly when one for its
  session is running; a session that has ended can be executed again.\<close>

theorem sessions_exclusive:
  assumes "table_reachable c"
  shows "distinct (running c)
    \<and> (sess \<in> set (running c) \<longleftrightarrow> admit c sess = (c, Fail (Errorf ''process already pending'')))
    \<and> snd (admit (release c sess) sess) = Ok ()"
  using table_inv_reachable [OF assms] by (auto simp: table_inv_def admit_def release_def)

theorem sessions_exclusive_witness:
  "let c = fst (admit NewCoordinator ''1-5'') in
   distinct (running c)
    \<and> (''1-5'' \<in> set (running c) \<longleftrightarrow> admit c ''1-5'' = (c, Fail (Errorf ''process already pending'')))
    \<and> snd (admit (release c ''1-5'') ''1-5'') = Ok ()"
  unfolding Let_def
  by (rule sessions_exclusive, rule table_reachable.step [OF table_reachable.init])
    (rule table_step.call, rule prod.collapse [symmetric])

section \<open>How an execution ends\<close>

definition exec_inv :: "exec_state \<Rightarrow> bool" where
  "exec_inv st \<longleftrightarrow>
     (start_outcome (starting st) \<noteq> None \<longrightarrow> cancelled st) \<and>
     (watch_stops (watching st) = (if watch_cancels (watching st) then 1 else 0)) \<and>
     (watch_cancels (watching st) \<longrightarrow> cancelled st \<and> watch_outcome (watching st) = Some (Ok ())) \<and>
     ((\<exists>e. watch_outcome (watching st) = Some (Fail e)) \<longrightarrow> cancelled st)"

lemma exec_inv_begin: "exec_inv (exec_begin L h p coord)"
  by (simp add: exec_inv_def exec_begin_def start_def initiate_begin_def wait_begin_def watch_begin_def)

lemma watch_step_stops:
  assumes "watch_stops w = (if watch_cancels w then 1 else 0)"
    and "watch_cancels w \<longrightarrow> watch_outcome w = Some (Ok ())"
  shows "watch_stops (watchExecution_step L p coord w e) =
      (if watch_cancels (watchExecution_step L p coord w e) then 1 else 0)"
    and "watch_cancels (watchExecution_step L p coord w e) \<longrightarrow>
      watch_outcome (watchExecution_step L p coord w e) = Some (Ok ())"
  using assms by (cases e; auto)+

lemma exec_move_watching:
  "watching (exec_move J L h p coord st ev) = watching st
   \<or> (\<exists>e. watching (exec_move J L h p coord st ev) = watchExecution_step L p coord (watching st) e)"
  by (auto simp: exec_move_def split: exec_event.splits start_state.splits)

lemma exec_inv_sync_cancel:
  assumes "watch_stops (watching st) = (if watch_cancels (watching st) then 1 else 0)"
    and "watch_cancels (watching st) \<longrightarrow> watch_outcome (watching st) = Some (Ok ())"
  shows "exec_inv (sync_cancel st)"
  using assms by (auto simp: exec_inv_def sync_cancel_def)

lemma exec_inv_step:
  assumes "exec_inv st"
  shows "exec_inv (exec_step J L h p coord st ev)"
proof -
  let ?w = "watching (exec_move J L h p coord st ev)"
  have "watch_stops ?w = (if watch_cancels ?w then 1 else 0)
      \<and> (watch_cancels ?w \<longrightarrow> watch_outcome ?w = Some (Ok ()))"
    using exec_move_watching [of J L h p coord st ev] watch_step_stops [of "watching st" L p coord] assms
    unfolding exec_inv_def by metis
  then show ?thesis
    using assms exec_inv_sync_cancel [of "exec_move J L h p coord st ev"] by (simp add: exec_step_def)
qed

interpretation executing: event_loop "exec_step J L h p coord" exec_inv for J L h p coord
  by unfold_locales (rule exec_inv_step)

lemma exec_inv_Execute: "exec_inv (Execute J L K h p coord es)"
  unfolding Execute_def Let_def by (rule executing.run_keeps [OF exec_inv_begin])

lemma Execute_append:
  "Execute J L K h p coord (es @ fs) =
     foldl (exec_step J L h p (session_coordinator L K p coord)) (Execute J L K h p coord es) fs"
  by (simp add: Execute_def Let_def)

definition drain :: "exec_event list" where
  "drain = [EWatch WatchCtxDone, EInit InitCtxDone, EWait WaitCtxDone]"

lemma drained:
  assumes "cancelled st"
  shows "exec_result (foldl (exec_step J L h p coord) st drain) \<noteq> None"
  using assms
  by (cases "starting st")
    (auto simp: drain_def exec_step_def exec_move_def sync_cancel_def exec_result_def
      split: option.splits)



definition fail_inv :: "libp2p \<Rightarrow> peer \<Rightarrow> exec_event list \<Rightarrow> exec_state \<Rightarrow> bool" where
  "fail_inv L coord es st \<longleftrightarrow>
     ((\<exists>e. watch_outcome (watching st) = Some (Fail e)) \<longrightarrow>
      (\<exists>q. EWatch (FailFrom q) \<in> set es \<and> id_String L q = id_String L coord))"

lemma fail_inv_step:
  assumes "fail_inv L coord es st"
  shows "fail_inv L coord (es @ [e]) (exec_step J L h p coord st e)"
proof (cases e)
  case (EWatch w)
  with assms show ?thesis
    by (cases w) (auto simp: fail_inv_def exec_step_def exec_move_def sync_cancel_def)
qed (use assms in \<open>auto simp: fail_inv_def exec_step_def exec_move_def sync_cancel_def split: start_state.splits\<close>)

lemma fail_inv_run:
  "fail_inv L coord es (foldl (exec_step J L h p coord) (exec_begin L h p coord) es)"
proof (induction es rule: rev_induct)
  case Nil
  then show ?case by (simp add: fail_inv_def exec_begin_def watch_begin_def)
next
  case (snoc e es)
  then show ?case using fail_inv_step by simp
qed

lemma pool_result_Fail:
  "pool_result a b = Fail e \<Longrightarrow> \<not> is_subset_error e \<and> (a = Fail e \<or> b = Fail e)"
  by (cases a; cases b) (auto simp: Let_def split: if_splits)



text \<open>The calls of \<open>Stop\<close> that an execution of a key generation makes.\<close>

fun keygen_stops :: "nat \<Rightarrow> 'ch sub_manager \<Rightarrow> ks_store \<Rightarrow> keygen \<Rightarrow> ('ch sub_manager \<times> ks_store) res" where
  "keygen_stops 0 ms ks k = Ok (ms, ks)"
| "keygen_stops (Suc n) ms ks k = res_bind (keygen_Stop ms ks k) (\<lambda>(ms', ks'). keygen_stops n ms' ks' k)"

lemma exec_stops_timeout:
  assumes "watch_outcome (watching (Execute J L K h p coord es)) = None"
  shows "exec_stops (Execute J L K h p coord (es @ [EWatch Timeout])) = 2"
  using assms exec_inv_Execute [of J L K h p coord es]
  by (auto simp: Execute_append exec_stops_def exec_step_def exec_move_def sync_cancel_def exec_inv_def
      split: if_splits)

text \<open>A key generation that times out ends the whole relayer: the watchdog stops the process and
  the deferred function of \<open>Execute\<close> stops it again, and the second \<open>Stop\<close> unlocks a mutex that is not
  locked, a fatal error in Go; so does the first if \<open>Run\<close> never took the lock.\<close>

theorem keygen_timeout_fatal:
  assumes "watch_outcome (watching (Execute J L K h (keygen_process h k) coord es)) = None"
  shows "keygen_stops (exec_stops (Execute J L K h (keygen_process h k) coord (es @ [EWatch Timeout]))) ms ks k
    = Panic ''sync: unlock of unlocked mutex''"
  unfolding exec_stops_timeout [OF assms]
  by (auto simp: numeral_2_eq_2 keygen_Stop_def UnlockKeyshare_def)

theorem keygen_timeout_fatal_witness:
  "keygen_stops (exec_stops (Execute (one_doc JNull []) raw_ids id sample_host
       (keygen_process sample_host sample_keygen) ''bbbbbbbb'' ([] @ [EWatch Timeout])))
     (NewSessionSubscriptionManager :: nat sub_manager) \<lparr>locked = True, ks_file = None\<rparr> sample_keygen
   = Panic ''sync: unlock of unlocked mutex''"
  by (rule keygen_timeout_fatal)
    (simp add: Execute_def Let_def exec_begin_def watch_begin_def)

end
