(* ===== verification/Ttl_Cache.thy ===== *)
theory Ttl_Cache
  imports Go_Prelude
begin

text \<open>
  The expiring map of the package ttlcache, which the signature cache and the price source share: its
  operations are the record \<open>('c, 'v) ttl_cache\<close>, and what the code relies on is \<open>cache_ok\<close>: \<open>view\<close> reads
  a state of the cache as a map, an entry may vanish as time passes and never changes otherwise.
\<close>

record ('c, 'v) ttl_cache =
  tc_New :: 'c
  tc_Set :: "'c \<Rightarrow> string \<Rightarrow> 'v \<Rightarrow> 'c"
  tc_Get :: "'c \<Rightarrow> string \<Rightarrow> 'v option \<times> 'c"
  tc_Elapse :: "'c \<Rightarrow> nat \<Rightarrow> 'c"

definition cache_ok :: "('c \<Rightarrow> string \<Rightarrow> 'v option) \<Rightarrow> ('c, 'v) ttl_cache \<Rightarrow> bool" where
  "cache_ok view C \<longleftrightarrow>
     view (tc_New C) = Map.empty
     \<and> (\<forall>c k v. view (tc_Set C c k v) = (view c)(k \<mapsto> v))
     \<and> (\<forall>c k. fst (tc_Get C c k) = view c k \<and> view (snd (tc_Get C c k)) = view c)
     \<and> (\<forall>c n k. view (tc_Elapse C c n) k = view c k \<or> view (tc_Elapse C c n) k = None)"

lemma view_elapse:
  "cache_ok view C \<Longrightarrow> view (tc_Elapse C c n) k = Some v \<Longrightarrow> view c k = Some v"
  unfolding cache_ok_def by (metis option.distinct(1))

text \<open>A cache that is a map and never forgets.\<close>

definition map_cache :: "(string \<rightharpoonup> 'v, 'v) ttl_cache" where
  "map_cache = \<lparr>tc_New = Map.empty, tc_Set = (\<lambda>c k v. c(k \<mapsto> v)), tc_Get = (\<lambda>c k. (c k, c)), tc_Elapse = (\<lambda>c n. c)\<rparr>"

lemma map_cache_ok [simp]: "cache_ok id map_cache"
  by (simp add: cache_ok_def map_cache_def)

end
