(* ===== verification/Tokens.thy ===== *)
theory Tokens
  imports Go_Float Ttl_Cache
begin

text \<open>
  Tokens, prices and confirmations: \<open>config/token.go\<close>, \<open>price/coinmarketcap.go\<close>, \<open>chains/util.go\<close> and
  \<open>chains/evm/message/confirmations.go\<close>. How long the relayer waits before it signs depends on the
  value of the order, which is the amount times a quoted price, computed in \<open>big.Float\<close>. A Go map
  that the code iterates over is an association list in the order of the iteration. An address
  and a transaction hash are byte strings.
\<close>

type_synonym address = bytes
type_synonym hash = bytes

section \<open>The token store\<close>

record token_config =
  tc_Address :: address
  Decimals :: nat

type_synonym token_store = "uint64 \<rightharpoonup> (string \<times> token_config) list"

fun find_address :: "address \<Rightarrow> (string \<times> token_config) list \<Rightarrow> (string \<times> token_config) option" where
  "find_address a [] = None"
| "find_address a ((symbol, c) # ts) = (if tc_Address c = a then Some (symbol, c) else find_address a ts)"

definition ConfigByAddress :: "token_store \<Rightarrow> uint64 \<Rightarrow> address \<Rightarrow> (string \<times> token_config) res" where
  "ConfigByAddress S chainID a =
     (case S chainID of
        None \<Rightarrow> Fail (Errorf (''no tokens for chain '' @ show_nat (unat chainID)))
      | Some tokens \<Rightarrow> of_option (Errorf ''no symbol for address'') (find_address a tokens))"

definition ConfigBySymbol :: "token_store \<Rightarrow> uint64 \<Rightarrow> string \<Rightarrow> token_config res" where
  "ConfigBySymbol S chainID symbol =
     (case S chainID of
        None \<Rightarrow> Fail (Errorf (''no tokens for chain '' @ show_nat (unat chainID)))
      | Some tokens \<Rightarrow> of_option (Errorf (''no config for token '' @ symbol)) (map_of tokens symbol))"

section \<open>Prices\<close>

record http_response =
  StatusCode :: int
  http_Body :: "bytes res"

text \<open>\<open>Status.ErrorCode\<close>, \<open>Status.ErrorMessage\<close> and the price of one symbol in \<open>Data\<close>.\<close>

definition sub_members :: "(string \<times> json) list \<Rightarrow> string \<Rightarrow> (string \<times> json) list res" where
  "sub_members kvs f = (case jfield f kvs of None \<Rightarrow> Ok [] | Some j \<Rightarrow> members j)"

text \<open>The keys of a Go map are matched exactly, unlike the names of struct fields.\<close>

definition map_entry :: "string \<Rightarrow> (string \<times> json) list \<Rightarrow> json" where
  "map_entry k kvs = (case map_of (rev kvs) k of None \<Rightarrow> JNull | Some j \<Rightarrow> j)"

definition quote_price :: "json \<Rightarrow> float64 res" where
  "quote_price j =
     res_bind (members j) (\<lambda>entry.
     res_bind (sub_members entry ''quote'') (\<lambda>quote.
     res_bind (sub_members quote ''USD'') (\<lambda>usd.
     struct_field usd ''price'' dec_float64 (F64 False 0 0))))"

text \<open>Every entry of \<open>Data\<close> is decoded, so an entry of the wrong shape fails the whole document.\<close>

definition cmc_price :: "json_text \<Rightarrow> string \<Rightarrow> bytes \<Rightarrow> float64 res" where
  "cmc_price J symbol response =
     res_bind (json_unmarshal_tree J response) (\<lambda>j.
     res_bind (members j) (\<lambda>kvs.
     res_bind (sub_members kvs ''status'') (\<lambda>st.
     res_bind (struct_field st ''error_code'' dec_int64 0) (\<lambda>code.
     res_bind (struct_field st ''error_message'' dec_string []) (\<lambda>msg.
     res_bind (sub_members kvs ''data'') (\<lambda>entries.
     res_bind (res_map (\<lambda>(k, v). quote_price v) entries) (\<lambda>_.
     res_bind (res_guard (code = 0) (Errorf (''API Error: '' @ show_int code @ '' - '' @ msg))) (\<lambda>_.
     quote_price (map_entry symbol entries)))))))))"

text \<open>\<open>get\<close> is what building the request and \<open>client.Do\<close> answer for the symbol.\<close>

definition TokenPrice ::
  "json_text \<Rightarrow> ('c, float64) ttl_cache \<Rightarrow> (string \<Rightarrow> http_response res) \<Rightarrow> 'c \<Rightarrow> string \<Rightarrow> 'c \<times> float64 res" where
  "TokenPrice J C get c symbol =
     (case tc_Get C c symbol of
        (Some p, c1) \<Rightarrow> (c1, Ok p)
      | (None, c1) \<Rightarrow>
          (case res_bind (get symbol) (\<lambda>resp.
                res_bind (res_guard (StatusCode resp = 200) (Errorf ''HTTP request failed'')) (\<lambda>_.
                res_bind (http_Body resp) (cmc_price J symbol))) of
             Ok p \<Rightarrow> (tc_Set C c1 symbol p, Ok p)
           | Fail e \<Rightarrow> (c1, Fail e)
           | Panic m \<Rightarrow> (c1, Panic m)))"

section \<open>Blocks and amounts\<close>

text \<open>\<open>big.Int\<close>'s \<open>Mod\<close> and \<open>Div\<close> are Euclidean and panic for a zero divisor.\<close>

definition big_mod :: "int \<Rightarrow> int \<Rightarrow> int" where
  "big_mod x y = x mod \<bar>y\<bar>"

definition big_div :: "int \<Rightarrow> int \<Rightarrow> int" where
  "big_div x y = (if y < 0 then - (x div \<bar>y\<bar>) else x div y)"

definition CalculateStartingBlock :: "int option \<Rightarrow> int option \<Rightarrow> int res" where
  "CalculateStartingBlock startBlock blockConfirmations =
     (case (startBlock, blockConfirmations) of
        (Some s, Some b) \<Rightarrow>
          (if b = 0 then Panic ''division by zero'' else Ok (s - big_mod s b))
      | _ \<Rightarrow> Fail (Errorf ''startBlock or blockConfirmations can not be nill when calculating CalculateStartingBlock''))"

definition ScaleTokenAmount :: "int \<Rightarrow> int \<Rightarrow> int \<Rightarrow> int" where
  "ScaleTokenAmount amount srcDecimals dstDecimals =
     (if srcDecimals = dstDecimals then amount
      else if srcDecimals > dstDecimals then big_div amount (10 ^ nat (srcDecimals - dstDecimals))
      else amount * 10 ^ nat (dstDecimals - srcDecimals))"

section \<open>The confirmation watcher\<close>

record watcher =
  tokenStore :: token_store
  w_confirmations :: "(uint64 \<times> uint64) list"
  blocktime :: uint64

text \<open>The value of an order: \<open>None\<close> for the nil result that \<open>big.Float.Int\<close> gives for an infinity.\<close>

definition price_times :: "float64 \<Rightarrow> int option \<Rightarrow> nat \<Rightarrow> int option res" where
  "price_times price amount decimals =
     res_bind (NewFloat price) (\<lambda>p.
     res_bind (deref amount) (\<lambda>a.
     case p of
       None \<Rightarrow> (if a = 0 then Panic ''multiplication of zero with infinity'' else Ok None)
     | Some x \<Rightarrow> Ok (Some (bf_Int (Quo (Mul x (SetInt a)) (SetInt (10 ^ decimals)))))))"

definition orderValue ::
  "(string \<Rightarrow> float64 res) \<Rightarrow> watcher \<Rightarrow> uint64 \<Rightarrow> address \<Rightarrow> int option \<Rightarrow> int option res" where
  "orderValue pricer w chainID token amount =
     res_bind (ConfigByAddress (tokenStore w) chainID token) (\<lambda>(symbol, c).
     res_bind (pricer symbol) (\<lambda>price.
     price_times price amount (Decimals c)))"

fun first_above :: "int \<Rightarrow> uint64 list \<Rightarrow> uint64 option" where
  "first_above v [] = None"
| "first_above v (b # bs) = (if v < uint b then Some b else first_above v bs)"

definition minimalConfirmations :: "watcher \<Rightarrow> int option \<Rightarrow> uint64 res" where
  "minimalConfirmations w orderVal =
     (let buckets = sort (map fst (w_confirmations w)) in
      if buckets = [] then Fail (Errorf ''order value exceeds confirmation buckets'')
      else res_bind (deref orderVal) (\<lambda>v.
           case first_above v buckets of
             None \<Rightarrow> Fail (Errorf ''order value exceeds confirmation buckets'')
           | Some b \<Rightarrow> Ok (case map_of (w_confirmations w) b of None \<Rightarrow> 0 | Some n \<Rightarrow> n)))"

text \<open>
  One turn of the loop of \<open>wait\<close>: the context is done, or the two calls answer. \<open>Receipt\<close> holds the
  block of the transaction, \<open>None\<close> while there is no receipt. The result is the sequence of times
  slept, in nanoseconds as the code computes them, and how the loop ended, if it did.
\<close>

datatype wait_turn = TurnDone | Turn "int option res" "int res"

definition sleep_for :: "uint64 \<Rightarrow> uint64 \<Rightarrow> int \<Rightarrow> uint64" where
  "sleep_for bt required confirmations = bt * (required - big_uint64 confirmations)"

fun wait_conf :: "uint64 \<Rightarrow> uint64 \<Rightarrow> wait_turn list \<Rightarrow> uint64 list \<times> unit res option" where
  "wait_conf bt required [] = ([], None)"
| "wait_conf bt required (TurnDone # ts) = ([], Some (Fail (Errorf ''timed out waiting for confirmations'')))"
| "wait_conf bt required (Turn (Ok (Some txBlock)) (Ok current) # ts) =
     (let confirmations = current - txBlock in
      if uint required \<le> confirmations then ([], Some (Ok ()))
      else case wait_conf bt required ts of (sl, r) \<Rightarrow> (sleep_for bt required confirmations # sl, r))"
| "wait_conf bt required (Turn (Panic m) b # ts) = ([], Some (Panic m))"
| "wait_conf bt required (Turn (Ok (Some txBlock)) (Panic m) # ts) = ([], Some (Panic m))"
| "wait_conf bt required (Turn r b # ts) =
     (case wait_conf bt required ts of (sl, r) \<Rightarrow> (bt # sl, r))"

definition WaitForTokenConfirmations ::
  "(string \<Rightarrow> float64 res) \<Rightarrow> watcher \<Rightarrow> uint64 \<Rightarrow> address \<Rightarrow> int option \<Rightarrow> wait_turn list \<Rightarrow>
   uint64 list \<times> unit res option" where
  "WaitForTokenConfirmations pricer w chainID token amount turns =
     (case res_bind (orderValue pricer w chainID token amount) (minimalConfirmations w) of
        Ok required \<Rightarrow> wait_conf (blocktime w) required turns
      | Fail e \<Rightarrow> ([], Some (Fail e))
      | Panic m \<Rightarrow> ([], Some (Panic m)))"

definition WaitForOrderConfirmations ::
  "watcher \<Rightarrow> float64 \<Rightarrow> wait_turn list \<Rightarrow> uint64 list \<times> unit res option" where
  "WaitForOrderConfirmations w orderVal turns =
     (case res_bind (NewFloat orderVal) (\<lambda>f. minimalConfirmations w (map_option bf_Int f)) of
        Ok required \<Rightarrow> wait_conf (blocktime w) required turns
      | Fail e \<Rightarrow> ([], Some (Fail e))
      | Panic m \<Rightarrow> ([], Some (Panic m)))"

text \<open>The result of a wait as its caller sees it. Nothing comes after a wait that has not ended, as nothing
  comes after a panic.\<close>

definition await :: "'x \<times> unit res option \<Rightarrow> unit res" where
  "await r = (case snd r of Some x \<Rightarrow> x | None \<Rightarrow> Panic ''still waiting'')"

lemma await_Ok [res_simps]: "await r = Ok () \<longleftrightarrow> snd r = Some (Ok ())"
  by (auto simp: await_def split: option.splits)

section \<open>Lemmas\<close>

lemma first_above_sorted:
  assumes "sorted bs"
  shows "first_above v bs = Some b \<Longrightarrow> b \<in> set bs \<and> v < uint b \<and> (\<forall>b' \<in> set bs. v < uint b' \<longrightarrow> b \<le> b')"
    and "first_above v bs = None \<longleftrightarrow> (\<forall>b \<in> set bs. uint b \<le> v)"
  using assms by (induction bs) (auto split: if_splits)

lemma minimalConfirmations_least:
  assumes "minimalConfirmations w (Some v) = Ok n" and "distinct (map fst (w_confirmations w))"
  shows "\<exists>b. (b, n) \<in> set (w_confirmations w) \<and> v < uint b
    \<and> (\<forall>(b', _) \<in> set (w_confirmations w). v < uint b' \<longrightarrow> b \<le> b')"
proof -
  obtain b where b: "first_above v (sort (map fst (w_confirmations w))) = Some b"
    "n = (case map_of (w_confirmations w) b of None \<Rightarrow> 0 | Some n \<Rightarrow> n)"
    using assms(1) by (auto simp: minimalConfirmations_def Let_def split: if_splits option.splits)
  note fa = first_above_sorted(1) [OF sorted_sort b(1)]
  then obtain m where "map_of (w_confirmations w) b = Some m"
    by (metis map_of_eq_None_iff option.exhaust set_map set_sort)
  then have "(b, n) \<in> set (w_confirmations w)" using b(2) by (simp add: map_of_SomeD)
  moreover have "\<forall>(b', _) \<in> set (w_confirmations w). v < uint b' \<longrightarrow> b \<le> b'"
    using fa by force
  ultimately show ?thesis using fa by blast
qed

lemma wait_conf_Ok:
  "wait_conf bt n ts = (sl, Some (Ok ())) \<Longrightarrow>
   \<exists>tx cur. Turn (Ok (Some tx)) (Ok cur) \<in> set ts \<and> tx + uint n \<le> cur"
proof (induction bt n ts arbitrary: sl rule: wait_conf.induct)
  case (3 bt required txBlock current ts)
  show ?case
  proof (cases "uint required \<le> current - txBlock")
    case True
    then show ?thesis by (intro exI [of _ txBlock] exI [of _ current]) simp
  next
    case False
    then obtain sl' where "wait_conf bt required ts = (sl', Some (Ok ()))"
      using "3.prems" by (auto simp: Let_def split: prod.splits)
    from "3.IH" [OF refl False this] show ?thesis by auto
  qed
qed (auto split: prod.splits)

fun turn_ok :: "uint64 \<Rightarrow> wait_turn \<Rightarrow> bool" where
  "turn_ok n (Turn (Ok (Some tx)) (Ok cur)) = (tx + uint n \<le> cur)"
| "turn_ok n _ = False"

fun turn_goes_on :: "wait_turn \<Rightarrow> bool" where
  "turn_goes_on TurnDone = False"
| "turn_goes_on (Turn (Panic m) b) = False"
| "turn_goes_on (Turn r (Panic m)) = False"
| "turn_goes_on _ = True"

lemma wait_conf_live:
  "list_all turn_goes_on ts \<Longrightarrow> list_ex (turn_ok n) ts \<Longrightarrow> snd (wait_conf bt n ts) = Some (Ok ())"
proof (induction bt n ts rule: wait_conf.induct)
  case (3 bt required txBlock current ts)
  then show ?case by (auto simp: Let_def split: prod.splits)
qed (auto split: prod.splits)

lemma wait_confirmed:
  assumes "WaitForTokenConfirmations pricer w chainID token amount turns = (sl, Some (Ok ()))"
    and "distinct (map fst (w_confirmations w))"
  shows "\<exists>v b n tx cur. orderValue pricer w chainID token amount = Ok (Some v)
    \<and> (b, n) \<in> set (w_confirmations w) \<and> v < uint b
    \<and> (\<forall>(b', _) \<in> set (w_confirmations w). v < uint b' \<longrightarrow> b \<le> b')
    \<and> Turn (Ok (Some tx)) (Ok cur) \<in> set turns \<and> tx + uint n \<le> cur"
proof -
  obtain ov n where ov: "orderValue pricer w chainID token amount = Ok ov" "minimalConfirmations w ov = Ok n"
    and w: "wait_conf (blocktime w) n turns = (sl, Some (Ok ()))"
    using assms(1) by (auto simp: WaitForTokenConfirmations_def res_simps split: res.splits)
  obtain v where v: "ov = Some v"
    using ov(2) by (cases ov) (auto simp: minimalConfirmations_def Let_def split: if_splits)
  show ?thesis
    using minimalConfirmations_least [OF ov(2) [unfolded v] assms(2)] wait_conf_Ok [OF w] ov(1) v by blast
qed

text \<open>
  Reference definitions. A turn of the loop decides or it does not, and the wait ends with the first
  decision; the bucket is the least one above the value.
\<close>

fun verdict :: "uint64 \<Rightarrow> wait_turn \<Rightarrow> unit res option" where
  "verdict n TurnDone = Some (Fail (Errorf ''timed out waiting for confirmations''))"
| "verdict n (Turn (Panic m) b) = Some (Panic m)"
| "verdict n (Turn (Ok (Some tx)) (Panic m)) = Some (Panic m)"
| "verdict n (Turn (Ok (Some tx)) (Ok cur)) = (if tx + uint n \<le> cur then Some (Ok ()) else None)"
| "verdict n (Turn r b) = None"

definition first_verdict :: "uint64 \<Rightarrow> wait_turn list \<Rightarrow> unit res option" where
  "first_verdict n ts = (case List.map_filter (verdict n) ts of [] \<Rightarrow> None | r # _ \<Rightarrow> Some r)"

lemma wait_conf_verdict: "snd (wait_conf bt n ts) = first_verdict n ts"
proof (induction bt n ts rule: wait_conf.induct)
  case (3 bt required txBlock current ts)
  then show ?case
    by (cases "uint required \<le> current - txBlock") (auto simp: first_verdict_def Let_def List.map_filter_simps split: prod.splits)
qed (auto simp: first_verdict_def List.map_filter_simps split: prod.splits)

lemma minimalConfirmations_Min:
  "minimalConfirmations w (Some v) =
     (let above = {b \<in> fst ` set (w_confirmations w). v < uint b} in
      if above = {} then Fail (Errorf ''order value exceeds confirmation buckets'')
      else Ok (the (map_of (w_confirmations w) (Min above))))"
proof -
  let ?bs = "sort (map fst (w_confirmations w))"
  have bs: "set ?bs = fst ` set (w_confirmations w)" by simp
  show ?thesis
  proof (cases "first_above v ?bs")
    case None
    then have "{b \<in> fst ` set (w_confirmations w). v < uint b} = {}"
      using first_above_sorted(2) [OF sorted_sort] bs by fastforce
    then show ?thesis by (simp add: minimalConfirmations_def Let_def None)
  next
    case (Some b)
    note fa = first_above_sorted(1) [OF sorted_sort Some]
    have b: "b \<in> fst ` set (w_confirmations w)" "v < uint b" "\<And>b'. b' \<in> fst ` set (w_confirmations w) \<Longrightarrow> v < uint b' \<Longrightarrow> b \<le> b'"
      using fa bs by auto
    have "Min {b \<in> fst ` set (w_confirmations w). v < uint b} = b"
      by (rule Min_eqI) (use b in auto)
    moreover have "{b \<in> fst ` set (w_confirmations w). v < uint b} \<noteq> {}" using b by blast
    moreover obtain n where "map_of (w_confirmations w) b = Some n"
      using b(1) by (metis map_of_eq_None_iff option.exhaust)
    moreover have "?bs \<noteq> []" using Some by auto
    ultimately show ?thesis by (simp add: minimalConfirmations_def Some Let_def)
  qed
qed

section \<open>Properties\<close>

lemmas float_eval = SetInt_def Mul_def Quo_def bf_Int_def round_ratio_def lead_def shift_ratio_def
  half_even_def pow2_def bitlen.simps Let_def



text \<open>A transfer is confirmed only after the number of blocks that the configuration asks for in the
  smallest bucket above the order's value: when the wait returns without an error, a receipt at
  some block and a head at least that many blocks later were seen; an order at or above every
  bucket is refused.\<close>

theorem confirmations_respected:
  assumes "WaitForTokenConfirmations pricer w chainID token amount turns = (sl, Some (Ok ()))"
    and "distinct (map fst (w_confirmations w))"
  shows "\<exists>v b n tx cur. orderValue pricer w chainID token amount = Ok (Some v)
    \<and> (b, n) \<in> set (w_confirmations w) \<and> v < uint b
    \<and> (\<forall>(b', _) \<in> set (w_confirmations w). v < uint b' \<longrightarrow> b \<le> b')
    \<and> Turn (Ok (Some tx)) (Ok cur) \<in> set turns \<and> tx + uint n \<le> cur"
  by (rule wait_confirmed [OF assms])

definition sample_watcher :: watcher where
  "sample_watcher = \<lparr>tokenStore = [1 \<mapsto> [(''USDC'', \<lparr>tc_Address = [7], Decimals = 6\<rparr>)]],
     w_confirmations = [(1000, 10), (100, 2)], blocktime = 12\<rparr>"

definition sample_turns :: "wait_turn list" where
  "sample_turns = [Turn (Ok None) (Ok 4), Turn (Ok (Some 5)) (Ok 6), Turn (Ok (Some 5)) (Ok 7)]"

lemma sample_confirmed_at:
  assumes "tokenStore w = tokenStore sample_watcher" and "w_confirmations w = w_confirmations sample_watcher"
  shows "snd (WaitForTokenConfirmations (\<lambda>_. Ok (F64 False 1 0)) w 1 [7] (Some 50000000) sample_turns) = Some (Ok ())"
proof -
  have "price_times (F64 False 1 0) (Some 50000000) 6 = Ok (Some 50)"
    by (simp add: price_times_def float_eval)
  then have "orderValue (\<lambda>_. Ok (F64 False 1 0)) w 1 [7] (Some 50000000) = Ok (Some 50)"
    by (simp add: orderValue_def ConfigByAddress_def assms sample_watcher_def)
  moreover have "minimalConfirmations w (Some 50) = Ok 2"
    by (simp add: minimalConfirmations_def assms sample_watcher_def)
  moreover have "snd (wait_conf bt 2 sample_turns) = Some (Ok ())" for bt
    by (simp add: sample_turns_def)
  ultimately show ?thesis by (simp add: WaitForTokenConfirmations_def)
qed

lemma sample_confirmed:
  "\<exists>sl. WaitForTokenConfirmations (\<lambda>_. Ok (F64 False 1 0)) sample_watcher 1 [7] (Some 50000000) sample_turns = (sl, Some (Ok ()))"
  using sample_confirmed_at [OF refl refl] by (metis prod.collapse)

theorem confirmations_respected_witness:
  "\<exists>v b n tx cur. orderValue (\<lambda>_. Ok (F64 False 1 0)) sample_watcher 1 [7] (Some 50000000) = Ok (Some v)
    \<and> (b, n) \<in> set (w_confirmations sample_watcher) \<and> v < uint b
    \<and> Turn (Ok (Some tx)) (Ok cur) \<in> set sample_turns \<and> tx + uint n \<le> cur"
proof -
  obtain sl where "WaitForTokenConfirmations (\<lambda>_. Ok (F64 False 1 0)) sample_watcher 1 [7] (Some 50000000) sample_turns
      = (sl, Some (Ok ()))"
    using sample_confirmed by blast
  moreover have "distinct (map fst (w_confirmations sample_watcher))" by (simp add: sample_watcher_def)
  ultimately show ?thesis using confirmations_respected by blast
qed

text \<open>C20: waiting for confirmations is equivalent to its specification: sorting the buckets and searching them
  finds the confirmations of the least bucket above the order's value, and the loop ends exactly
  with the first turn that decides, a head far enough ahead, the end of the context or a panic; when
  there is no such turn it goes on.\<close>

theorem confirmation_wait_reference:
  "snd (WaitForTokenConfirmations pricer w chainID token amount turns) =
     (case orderValue pricer w chainID token amount of
        Fail e \<Rightarrow> Some (Fail e)
      | Panic m \<Rightarrow> Some (Panic m)
      | Ok ov \<Rightarrow>
          (let above = (\<lambda>v. {b \<in> fst ` set (w_confirmations w). v < uint b});
               refused = Errorf ''order value exceeds confirmation buckets'' in
           case ov of
             None \<Rightarrow> if w_confirmations w = [] then Some (Fail refused) else Some (Panic ''nil pointer dereference'')
           | Some v \<Rightarrow> if above v = {} then Some (Fail refused)
                       else first_verdict (the (map_of (w_confirmations w) (Min (above v)))) turns))"
proof (cases "orderValue pricer w chainID token amount")
  case (Ok ov)
  show ?thesis
  proof (cases ov)
    case None
    have "minimalConfirmations w None =
        (if w_confirmations w = [] then Fail (Errorf ''order value exceeds confirmation buckets'') else Panic ''nil pointer dereference'')"
      by (cases "w_confirmations w") (simp_all add: minimalConfirmations_def)
    then show ?thesis by (simp add: WaitForTokenConfirmations_def Ok None)
  next
    case (Some v)
    show ?thesis by (simp add: WaitForTokenConfirmations_def Ok Some minimalConfirmations_Min Let_def wait_conf_verdict)
  qed
qed (simp_all add: WaitForTokenConfirmations_def)

text \<open>Converting an amount to a token with more decimals and back gives the amount again, and to one
  with fewer decimals and back loses less than one unit of the coarser token, never in the
  borrower's favour.\<close>

theorem scale_roundtrip:
  assumes "0 \<le> amount"
  shows "if src \<le> dst then ScaleTokenAmount (ScaleTokenAmount amount src dst) dst src = amount
    else ScaleTokenAmount (ScaleTokenAmount amount src dst) dst src \<le> amount
      \<and> amount < ScaleTokenAmount (ScaleTokenAmount amount src dst) dst src + 10 ^ nat (src - dst)"
proof (cases "src \<le> dst")
  case True
  then show ?thesis by (auto simp: ScaleTokenAmount_def big_div_def)
next
  case False
  let ?k = "10 ^ nat (src - dst) :: int"
  have "ScaleTokenAmount (ScaleTokenAmount amount src dst) dst src = amount div ?k * ?k"
    using False by (simp add: ScaleTokenAmount_def big_div_def)
  moreover have "amount = amount div ?k * ?k + amount mod ?k" by (rule div_mult_mod_eq [symmetric])
  moreover have "0 \<le> amount mod ?k" "amount mod ?k < ?k" by simp_all
  ultimately show ?thesis unfolding if_not_P [OF False] by linarith
qed

theorem scale_roundtrip_witness:
  "if (6::int) \<le> 18 then ScaleTokenAmount (ScaleTokenAmount 1234567 6 18) 18 6 = 1234567
    else ScaleTokenAmount (ScaleTokenAmount 1234567 6 18) 18 6 \<le> 1234567
      \<and> 1234567 < ScaleTokenAmount (ScaleTokenAmount 1234567 6 18) 18 6 + 10 ^ nat (6 - 18)"
  by (rule scale_roundtrip) simp

end
