(* ===== verification/Evm_Base.thy ===== *)
theory Evm_Base
  imports Coordinator Tokens Go_Strconv
begin

text \<open>
  What the message handlers share. \<open>eth\<close> is what they use of go-ethereum: conversions between byte
  strings, hashes and addresses, their text and JSON forms, \<open>Keccak256\<close>, typed data hashing and ABI
  packing. A handler is a run: the actions it takes, in order, and the result or error it ends
  with (\<open>'a run\<close>). The actions are the report to the API (\<open>data.ErrChn <- err\<close>), the broadcast to the
  other relayers and the execution of a signing process. \<open>message.go\<close> gives the data of the
  requests, with the JSON form in which they travel between relayers.
\<close>

section \<open>The go-ethereum library\<close>

datatype typed_value =
    TVString string
  | TVStrings "string list"
  | TVInt "int option"
  | TVInts "int option list"
  | TVBytes bytes

type_synonym typed_message = "(string \<times> typed_value) list"

record typed_domain =
  dom_Name :: string
  dom_ChainId :: int
  dom_Version :: string
  VerifyingContract :: string

record typed_data =
  Types :: "(string \<times> (string \<times> string) list) list"
  PrimaryType :: string
  Domain :: typed_domain
  Message :: typed_message

record eth =
  Keccak256 :: "bytes \<Rightarrow> bytes"
  DomainMap :: "typed_domain \<Rightarrow> typed_message"
  HashStruct :: "typed_data \<Rightarrow> string \<Rightarrow> typed_message \<Rightarrow> bytes res"
  Hex :: "address \<Rightarrow> string"
  hash_Hex :: "hash \<Rightarrow> string"
  LeftPadBytes :: "bytes \<Rightarrow> nat \<Rightarrow> bytes"
  BytesToAddress :: "bytes \<Rightarrow> address"
  BytesToHash :: "bytes \<Rightarrow> hash"
  HexToHash :: "string \<Rightarrow> hash"
  HexToAddress :: "string \<Rightarrow> address"
  addr_text :: "string \<Rightarrow> address res"
  hash_text :: "string \<Rightarrow> hash res"

text \<open>\<open>UnmarshalText\<close> reads what \<open>MarshalText\<close> writes; both types write their hexadecimal form.\<close>

definition eth_text_ok :: "eth \<Rightarrow> address list \<Rightarrow> hash list \<Rightarrow> bool" where
  "eth_text_ok E as hs \<longleftrightarrow>
     (\<forall>a \<in> set as. addr_text E (Hex E a) = Ok a) \<and> (\<forall>h \<in> set hs. hash_text E (hash_Hex E h) = Ok h)"

text \<open>\<open>big.Int.Bytes()\<close>: the absolute value, big-endian, without leading zeros.\<close>

fun nat_bytes :: "nat \<Rightarrow> bytes" where
  "nat_bytes n = (if n = 0 then [] else nat_bytes (n div 256) @ [of_nat (n mod 256)])"

declare nat_bytes.simps [simp del]

section \<open>Runs\<close>

datatype 'k action =
    Report "go_error option"
  | Notify send
  | Exec "'k signing" peer

type_synonym ('k, 'a) run = "'k action list \<times> 'a res"

fun run_bind :: "('k, 'a) run \<Rightarrow> ('a \<Rightarrow> ('k, 'b) run) \<Rightarrow> ('k, 'b) run" where
  "run_bind (w, Ok x) f = (case f x of (w', r) \<Rightarrow> (w @ w', r))"
| "run_bind (w, Fail e) f = (w, Fail e)"
| "run_bind (w, Panic m) f = (w, Panic m)"

definition emit :: "'k action \<Rightarrow> ('k, unit) run" where
  "emit a = ([a], Ok ())"

text \<open>\<open>if err != nil { return nil, err }\<close>, and the same with the error sent to the channel first.\<close>

definition try_run :: "'a res \<Rightarrow> ('k, 'a) run" where
  "try_run r = ([], r)"

fun try_report :: "'a res \<Rightarrow> ('k, 'a) run" where
  "try_report (Ok x) = ([], Ok x)"
| "try_report (Fail e) = ([Report (Some e)], Fail e)"
| "try_report (Panic m) = ([], Panic m)"

definition reports :: "'k action list \<Rightarrow> 'k action list" where
  "reports w = filter (\<lambda>a. case a of Report e \<Rightarrow> True | _ \<Rightarrow> False) w"

definition execs :: "'k action list \<Rightarrow> ('k signing \<times> peer) list" where
  "execs w = concat (map (\<lambda>a. case a of Exec s c \<Rightarrow> [(s, c)] | _ \<Rightarrow> []) w)"

lemma reports_simps [simp]:
  "reports [] = []" "reports (Report e # w) = Report e # reports w" "reports (Notify m # w) = reports w"
  "reports (Exec s c # w) = reports w" "reports (v @ w) = reports v @ reports w"
  by (simp_all add: reports_def)

lemma execs_simps [simp]:
  "execs [] = []" "execs (Report e # w) = execs w" "execs (Notify m # w) = execs w"
  "execs (Exec s c # w) = (s, c) # execs w" "execs (v @ w) = execs v @ execs w"
  by (simp_all add: execs_def)

lemma run_bind_emit [simp]: "run_bind (emit a) f = (a # fst (f ()), snd (f ()))"
  by (simp add: emit_def split: prod.splits)

lemma run_bind_try: "run_bind (try_run r) f =
    (case r of Ok x \<Rightarrow> f x | Fail e \<Rightarrow> ([], Fail e) | Panic m \<Rightarrow> ([], Panic m))"
  by (cases r) (auto simp: try_run_def split: prod.splits)

lemma try_run_sel [simp]: "fst (try_run r) = []" "snd (try_run r) = r"
  by (simp_all add: try_run_def)

lemma run_bind_report: "run_bind (try_report r) f =
    (case r of Ok x \<Rightarrow> f x | Fail e \<Rightarrow> ([Report (Some e)], Fail e) | Panic m \<Rightarrow> ([], Panic m))"
  by (cases r) (auto split: prod.splits)

section \<open>The environment of a handler\<close>

text \<open>
  The host, the encodings, the key share store and what \<open>coordinator.Execute\<close> returns. \<open>NewSigning\<close>
  waits for the key share's lock, so it runs on the store with the lock free.
\<close>

record 'k env =
  eJ :: json_text
  eL :: libp2p
  eC :: "'k key_codec"
  eE :: eth
  eHost :: host
  eStore :: ks_store
  eExecute :: "'k signing \<Rightarrow> peer \<Rightarrow> unit res"

definition new_signing :: "'k env \<Rightarrow> bytes \<Rightarrow> string \<Rightarrow> 'k signing res" where
  "new_signing V unlockHash sessionID =
     (case NewSigning (eJ V) (eL V) (eC V) (be_nat unlockHash) sessionID ((eStore V)\<lparr>locked := False\<rparr>) of
        Some (_, r) \<Rightarrow> r
      | None \<Rightarrow> Panic ''lock'')"

definition chain_session :: "uint64 \<Rightarrow> string \<Rightarrow> string" where
  "chain_session chainID s = show_nat (unat chainID) @ ''-'' @ s"

text \<open>The end of every handler: the signing process for the hash, and its execution.\<close>

definition sign_and_execute :: "'k env \<Rightarrow> bytes \<Rightarrow> string \<Rightarrow> peer \<Rightarrow> ('k, unit) run" where
  "sign_and_execute V unlockHash sessionID coord =
     run_bind (try_run (new_signing V unlockHash sessionID)) (\<lambda>s.
     run_bind (emit (Exec s coord)) (\<lambda>_.
     try_run (eExecute V s coord)))"

lemma new_signing_Ok:
  "new_signing V u sess = Ok s \<Longrightarrow> smsg s = be_nat u \<and> SID s = sess"
  using NewSigning_fields(2,3)
  by (fastforce simp: new_signing_def split: option.splits prod.splits)

lemma sign_and_execute_execs:
  "(s, c) \<in> set (execs (fst (sign_and_execute V u sess coord))) \<Longrightarrow>
   smsg s = be_nat u \<and> SID s = sess \<and> c = coord"
  by (auto simp: sign_and_execute_def run_bind_try split: res.splits dest: new_signing_Ok)

lemma sign_and_execute_reports [simp]: "reports (fst (sign_and_execute V u sess coord)) = []"
  by (auto simp: sign_and_execute_def run_bind_try split: res.splits)

section \<open>Requests\<close>

record across_data =
  a_DepositTxHash :: hash
  a_DepositId :: "int option"
  a_Nonce :: "int option"
  a_BorrowAmount :: "int option"
  a_LiquidityPool :: address
  a_RepaymentChainID :: uint64
  a_Caller :: address
  a_Coordinator :: peer
  a_Deadline :: uint64
  a_Source :: uint64
  a_Destination :: uint64

record lifi_escrow_data =
  e_OrderID :: string
  e_Coordinator :: peer
  e_LiquidityPool :: address
  e_Caller :: address
  e_DepositTxHash :: string
  e_BorrowAmount :: "int option"
  e_Deadline :: uint64
  e_Nonce :: "int option"
  e_Source :: uint64
  e_Destination :: uint64

record sprinter_credit_data =
  s_DepositID :: string
  s_BorrowAmount :: "int option"
  s_Calldata :: string
  s_Deadline :: uint64
  s_LiquidityPool :: address
  s_Caller :: address
  s_Nonce :: "int option"
  s_Coordinator :: peer
  s_Source :: uint64
  s_Destination :: uint64
  s_TokenOut :: string

record lifi_unlock_data =
  u_OrderID :: string
  u_Settler :: address
  u_Coordinator :: peer
  u_Source :: uint64
  u_Destination :: uint64

text \<open>\<open>message.Message\<close> of sygma-core, without its time stamp.\<close>

record 'd relayer_message =
  m_Source :: uint64
  m_Destination :: uint64
  m_Data :: 'd
  m_Type :: string

definition NewAcrossMessage :: "uint64 \<Rightarrow> uint64 \<Rightarrow> across_data \<Rightarrow> across_data relayer_message" where
  "NewAcrossMessage src dst d =
     \<lparr>m_Source = src, m_Destination = dst, m_Data = d, m_Type = message_type_String AcrossMsg\<rparr>"

definition NewLifiEscrowMessage :: "uint64 \<Rightarrow> uint64 \<Rightarrow> lifi_escrow_data \<Rightarrow> lifi_escrow_data relayer_message" where
  "NewLifiEscrowMessage src dst d =
     \<lparr>m_Source = src, m_Destination = dst, m_Data = d, m_Type = message_type_String LifiEscrowMsg\<rparr>"

definition NewSprinterCreditMessage ::
  "uint64 \<Rightarrow> uint64 \<Rightarrow> sprinter_credit_data \<Rightarrow> sprinter_credit_data relayer_message" where
  "NewSprinterCreditMessage src dst d =
     \<lparr>m_Source = src, m_Destination = dst, m_Data = d, m_Type = message_type_String SprinterCreditMsg\<rparr>"

definition NewLifiUnlockMessage :: "uint64 \<Rightarrow> uint64 \<Rightarrow> lifi_unlock_data \<Rightarrow> lifi_unlock_data relayer_message" where
  "NewLifiUnlockMessage src dst d =
     \<lparr>m_Source = src, m_Destination = dst, m_Data = d, m_Type = message_type_String LifiUnlockMsg\<rparr>"

section \<open>Their JSON form\<close>

definition enc_addr :: "eth \<Rightarrow> address \<Rightarrow> json" where
  "enc_addr E a = JStr (Hex E a)"

definition enc_peer :: "libp2p \<Rightarrow> peer \<Rightarrow> json" where
  "enc_peer L p = JStr (id_String L p)"

definition zero_address :: address where
  "zero_address = replicate 20 0"

definition zero_hash :: hash where
  "zero_hash = replicate 32 0"

definition dec_addr :: "eth \<Rightarrow> address decoder" where
  "dec_addr E = dec_text (addr_text E)"

definition dec_peer :: "libp2p \<Rightarrow> peer decoder" where
  "dec_peer L = dec_text (id_Decode L)"

definition across_json :: "eth \<Rightarrow> libp2p \<Rightarrow> across_data \<Rightarrow> json" where
  "across_json E L d = JObj
     [(''DepositTxHash'', JStr (hash_Hex E (a_DepositTxHash d))), (''DepositId'', enc_bigint (a_DepositId d)),
      (''Nonce'', enc_bigint (a_Nonce d)), (''BorrowAmount'', enc_bigint (a_BorrowAmount d)),
      (''LiquidityPool'', enc_addr E (a_LiquidityPool d)), (''RepaymentChainID'', enc_uint64 (a_RepaymentChainID d)),
      (''Caller'', enc_addr E (a_Caller d)), (''Coordinator'', enc_peer L (a_Coordinator d)),
      (''Deadline'', enc_uint64 (a_Deadline d)), (''Source'', enc_uint64 (a_Source d)),
      (''Destination'', enc_uint64 (a_Destination d))]"

definition unmarshal_across :: "json_text \<Rightarrow> eth \<Rightarrow> libp2p \<Rightarrow> bytes \<Rightarrow> across_data res" where
  "unmarshal_across J E L b =
     res_bind (json_unmarshal_tree J b) (\<lambda>j.
     res_bind (members j) (\<lambda>kvs.
     res_bind (struct_field kvs ''DepositTxHash'' (dec_text (hash_text E)) zero_hash) (\<lambda>h.
     res_bind (struct_field kvs ''DepositId'' dec_bigint None) (\<lambda>i.
     res_bind (struct_field kvs ''Nonce'' dec_bigint None) (\<lambda>n.
     res_bind (struct_field kvs ''BorrowAmount'' dec_bigint None) (\<lambda>b.
     res_bind (struct_field kvs ''LiquidityPool'' (dec_addr E) zero_address) (\<lambda>lp.
     res_bind (struct_field kvs ''RepaymentChainID'' dec_uint64 0) (\<lambda>rc.
     res_bind (struct_field kvs ''Caller'' (dec_addr E) zero_address) (\<lambda>ca.
     res_bind (struct_field kvs ''Coordinator'' (dec_peer L) []) (\<lambda>co.
     res_bind (struct_field kvs ''Deadline'' dec_uint64 0) (\<lambda>de.
     res_bind (struct_field kvs ''Source'' dec_uint64 0) (\<lambda>so.
     res_bind (struct_field kvs ''Destination'' dec_uint64 0) (\<lambda>ds.
     Ok \<lparr>a_DepositTxHash = h, a_DepositId = i, a_Nonce = n, a_BorrowAmount = b, a_LiquidityPool = lp,
         a_RepaymentChainID = rc, a_Caller = ca, a_Coordinator = co, a_Deadline = de, a_Source = so,
         a_Destination = ds\<rparr>)))))))))))))"

definition lifi_escrow_json :: "eth \<Rightarrow> libp2p \<Rightarrow> lifi_escrow_data \<Rightarrow> json" where
  "lifi_escrow_json E L d = JObj
     [(''OrderID'', JStr (e_OrderID d)), (''Coordinator'', enc_peer L (e_Coordinator d)),
      (''LiquidityPool'', enc_addr E (e_LiquidityPool d)), (''Caller'', enc_addr E (e_Caller d)),
      (''DepositTxHash'', JStr (e_DepositTxHash d)), (''BorrowAmount'', enc_bigint (e_BorrowAmount d)),
      (''Deadline'', enc_uint64 (e_Deadline d)), (''Nonce'', enc_bigint (e_Nonce d)),
      (''Source'', enc_uint64 (e_Source d)), (''Destination'', enc_uint64 (e_Destination d))]"

definition unmarshal_lifi_escrow :: "json_text \<Rightarrow> eth \<Rightarrow> libp2p \<Rightarrow> bytes \<Rightarrow> lifi_escrow_data res" where
  "unmarshal_lifi_escrow J E L b =
     res_bind (json_unmarshal_tree J b) (\<lambda>j.
     res_bind (members j) (\<lambda>kvs.
     res_bind (struct_field kvs ''OrderID'' dec_string []) (\<lambda>i.
     res_bind (struct_field kvs ''Coordinator'' (dec_peer L) []) (\<lambda>co.
     res_bind (struct_field kvs ''LiquidityPool'' (dec_addr E) zero_address) (\<lambda>lp.
     res_bind (struct_field kvs ''Caller'' (dec_addr E) zero_address) (\<lambda>ca.
     res_bind (struct_field kvs ''DepositTxHash'' dec_string []) (\<lambda>h.
     res_bind (struct_field kvs ''BorrowAmount'' dec_bigint None) (\<lambda>b.
     res_bind (struct_field kvs ''Deadline'' dec_uint64 0) (\<lambda>de.
     res_bind (struct_field kvs ''Nonce'' dec_bigint None) (\<lambda>n.
     res_bind (struct_field kvs ''Source'' dec_uint64 0) (\<lambda>so.
     res_bind (struct_field kvs ''Destination'' dec_uint64 0) (\<lambda>ds.
     Ok \<lparr>e_OrderID = i, e_Coordinator = co, e_LiquidityPool = lp, e_Caller = ca, e_DepositTxHash = h,
         e_BorrowAmount = b, e_Deadline = de, e_Nonce = n, e_Source = so, e_Destination = ds\<rparr>))))))))))))"

definition sprinter_json :: "eth \<Rightarrow> libp2p \<Rightarrow> sprinter_credit_data \<Rightarrow> json" where
  "sprinter_json E L d = JObj
     [(''DepositID'', JStr (s_DepositID d)), (''BorrowAmount'', enc_bigint (s_BorrowAmount d)),
      (''Calldata'', JStr (s_Calldata d)), (''Deadline'', enc_uint64 (s_Deadline d)),
      (''LiquidityPool'', enc_addr E (s_LiquidityPool d)), (''Caller'', enc_addr E (s_Caller d)),
      (''Nonce'', enc_bigint (s_Nonce d)), (''Coordinator'', enc_peer L (s_Coordinator d)),
      (''Source'', enc_uint64 (s_Source d)), (''Destination'', enc_uint64 (s_Destination d)),
      (''TokenOut'', JStr (s_TokenOut d))]"

definition unmarshal_sprinter :: "json_text \<Rightarrow> eth \<Rightarrow> libp2p \<Rightarrow> bytes \<Rightarrow> sprinter_credit_data res" where
  "unmarshal_sprinter J E L b =
     res_bind (json_unmarshal_tree J b) (\<lambda>j.
     res_bind (members j) (\<lambda>kvs.
     res_bind (struct_field kvs ''DepositID'' dec_string []) (\<lambda>i.
     res_bind (struct_field kvs ''BorrowAmount'' dec_bigint None) (\<lambda>b.
     res_bind (struct_field kvs ''Calldata'' dec_string []) (\<lambda>cd.
     res_bind (struct_field kvs ''Deadline'' dec_uint64 0) (\<lambda>de.
     res_bind (struct_field kvs ''LiquidityPool'' (dec_addr E) zero_address) (\<lambda>lp.
     res_bind (struct_field kvs ''Caller'' (dec_addr E) zero_address) (\<lambda>ca.
     res_bind (struct_field kvs ''Nonce'' dec_bigint None) (\<lambda>n.
     res_bind (struct_field kvs ''Coordinator'' (dec_peer L) []) (\<lambda>co.
     res_bind (struct_field kvs ''Source'' dec_uint64 0) (\<lambda>so.
     res_bind (struct_field kvs ''Destination'' dec_uint64 0) (\<lambda>ds.
     res_bind (struct_field kvs ''TokenOut'' dec_string []) (\<lambda>t.
     Ok \<lparr>s_DepositID = i, s_BorrowAmount = b, s_Calldata = cd, s_Deadline = de, s_LiquidityPool = lp,
         s_Caller = ca, s_Nonce = n, s_Coordinator = co, s_Source = so, s_Destination = ds,
         s_TokenOut = t\<rparr>)))))))))))))"

definition lifi_unlock_json :: "eth \<Rightarrow> libp2p \<Rightarrow> lifi_unlock_data \<Rightarrow> json" where
  "lifi_unlock_json E L d = JObj
     [(''OrderID'', JStr (u_OrderID d)), (''Settler'', enc_addr E (u_Settler d)),
      (''Coordinator'', enc_peer L (u_Coordinator d)), (''Source'', enc_uint64 (u_Source d)),
      (''Destination'', enc_uint64 (u_Destination d))]"

definition unmarshal_lifi_unlock :: "json_text \<Rightarrow> eth \<Rightarrow> libp2p \<Rightarrow> bytes \<Rightarrow> lifi_unlock_data res" where
  "unmarshal_lifi_unlock J E L b =
     res_bind (json_unmarshal_tree J b) (\<lambda>j.
     res_bind (members j) (\<lambda>kvs.
     res_bind (struct_field kvs ''OrderID'' dec_string []) (\<lambda>i.
     res_bind (struct_field kvs ''Settler'' (dec_addr E) zero_address) (\<lambda>s.
     res_bind (struct_field kvs ''Coordinator'' (dec_peer L) []) (\<lambda>co.
     res_bind (struct_field kvs ''Source'' dec_uint64 0) (\<lambda>so.
     res_bind (struct_field kvs ''Destination'' dec_uint64 0) (\<lambda>ds.
     Ok \<lparr>u_OrderID = i, u_Settler = s, u_Coordinator = co, u_Source = so, u_Destination = ds\<rparr>)))))))"

lemma dec_enc_addr [simp]: "eth_text_ok E as hs \<Longrightarrow> a \<in> set as \<Longrightarrow> dec_addr E (enc_addr E a) z = Ok a"
  by (simp add: eth_text_ok_def dec_addr_def enc_addr_def)

lemma dec_enc_peer [simp]: "ids_ok L [p] \<Longrightarrow> dec_peer L (enc_peer L p) z = Ok p"
  by (simp add: ids_ok_def dec_peer_def enc_peer_def)

lemma unmarshal_across_json:
  assumes "text_ok J (across_json E L d)" and "ids_ok L [a_Coordinator d]"
    and "eth_text_ok E [a_LiquidityPool d, a_Caller d] [a_DepositTxHash d]"
  shows "unmarshal_across J E L (jrender J (across_json E L d)) = Ok d"
proof -
  have h: "hash_text E (hash_Hex E (a_DepositTxHash d)) = Ok (a_DepositTxHash d)"
    using assms(3) by (simp add: eth_text_ok_def)
  show ?thesis
    using assms(1)
    by (simp add: unmarshal_across_def)
      (simp add: across_json_def field_eval h dec_enc_addr [OF assms(3)] dec_enc_peer [OF assms(2)])
qed

text \<open>The other requests that survive their JSON form; the hypotheses are those of the Across one.\<close>

lemma unmarshal_lifi_escrow_json:
  assumes "text_ok J (lifi_escrow_json E L d)" and "ids_ok L [e_Coordinator d]"
    and "eth_text_ok E [e_LiquidityPool d, e_Caller d] []"
  shows "unmarshal_lifi_escrow J E L (jrender J (lifi_escrow_json E L d)) = Ok d"
  using assms(1)
  by (simp add: unmarshal_lifi_escrow_def)
    (simp add: lifi_escrow_json_def field_eval dec_enc_addr [OF assms(3)] dec_enc_peer [OF assms(2)])

lemma unmarshal_sprinter_json:
  assumes "text_ok J (sprinter_json E L d)" and "ids_ok L [s_Coordinator d]"
    and "eth_text_ok E [s_LiquidityPool d, s_Caller d] []"
  shows "unmarshal_sprinter J E L (jrender J (sprinter_json E L d)) = Ok d"
  using assms(1)
  by (simp add: unmarshal_sprinter_def)
    (simp add: sprinter_json_def field_eval dec_enc_addr [OF assms(3)] dec_enc_peer [OF assms(2)])

lemma unmarshal_lifi_unlock_json:
  assumes "text_ok J (lifi_unlock_json E L d)" and "ids_ok L [u_Coordinator d]" and "eth_text_ok E [u_Settler d] []"
  shows "unmarshal_lifi_unlock J E L (jrender J (lifi_unlock_json E L d)) = Ok d"
  using assms(1)
  by (simp add: unmarshal_lifi_unlock_def)
    (simp add: lifi_unlock_json_def field_eval dec_enc_addr [OF assms(3)] dec_enc_peer [OF assms(2)])

section \<open>Reporting\<close>

text \<open>
  The API waits for one report per request and the channel holds one, so a handler has to report
  exactly once, and nothing before the report says that the request is accepted may be signed.
  \<open>quiet\<close> runs report nothing; \<open>proper\<close> ones report once, unless they panic before they do.
\<close>

definition quiet :: "('k, 'a) run \<Rightarrow> bool" where
  "quiet r \<longleftrightarrow> reports (fst r) = []"

fun panics :: "'a res \<Rightarrow> bool" where
  "panics (Panic m) = True"
| "panics r = False"

definition proper :: "('k, 'a) run \<Rightarrow> bool" where
  "proper r \<longleftrightarrow>
     (if panics (snd r) then length (reports (fst r)) \<le> 1 else length (reports (fst r)) = 1)
     \<and> (execs (fst r) \<noteq> [] \<longrightarrow> reports (fst r) = [Report None])"

named_theorems run_intros \<open>rules for the reports of runs\<close>

lemma quiet_try [run_intros]:
  assumes "\<And>x. r = Ok x \<Longrightarrow> quiet (f x)"
  shows "quiet (run_bind (try_run r) f)"
  using assms by (cases r) (auto simp: quiet_def run_bind_try)

lemma quiet_sign [run_intros]: "quiet (sign_and_execute V u sess coord)"
  by (simp add: quiet_def)

lemma proper_report [run_intros]:
  assumes "\<And>x. r = Ok x \<Longrightarrow> proper (f x)"
  shows "proper (run_bind (try_report r) f)"
  using assms by (cases r) (auto simp: proper_def run_bind_report)

lemma proper_accept [run_intros]:
  assumes "quiet (f ())"
  shows "proper (run_bind (emit (Report None)) f)"
  using assms by (auto simp: proper_def quiet_def)

lemma proper_notify [run_intros]:
  assumes "reports w = []" and "execs w = []" and "proper (f x)"
  shows "proper (run_bind (w, Ok x) f)"
  using assms by (auto simp: proper_def split: prod.splits)

lemma proper_fail [run_intros]: "proper ([Report (Some e)], Fail e)"
  by (simp add: proper_def)

text \<open>The executions of a run, step by step.\<close>

lemma execs_bind_try: "x \<in> set (execs (fst (run_bind (try_run r) f))) \<longleftrightarrow>
    (\<exists>y. r = Ok y \<and> x \<in> set (execs (fst (f y))))"
  by (cases r) (auto simp: run_bind_try)

lemma execs_bind_report: "x \<in> set (execs (fst (run_bind (try_report r) f))) \<longleftrightarrow>
    (\<exists>y. r = Ok y \<and> x \<in> set (execs (fst (f y))))"
  by (cases r) (auto simp: run_bind_report)

lemma execs_bind_emit: "x \<in> set (execs (fst (run_bind (emit (Report e)) f))) \<longleftrightarrow> x \<in> set (execs (fst (f ())))"
  by simp

lemma execs_bind_notify:
  "execs w = [] \<Longrightarrow> x \<in> set (execs (fst (run_bind (w, Ok y) f))) \<longleftrightarrow> x \<in> set (execs (fst (f y)))"
  by (auto split: prod.splits)

lemmas execs_bind = execs_bind_try execs_bind_report execs_bind_emit

text \<open>Looking up an address in a Go map.\<close>

definition map_get :: "('a \<rightharpoonup> address) \<Rightarrow> 'a \<Rightarrow> address" where
  "map_get m k = (case m k of None \<Rightarrow> zero_address | Some a \<Rightarrow> a)"

text \<open>\<open>%s\<close> of a \<open>*big.Int\<close>.\<close>

definition big_str :: "int option \<Rightarrow> string" where
  "big_str i = (case i of None \<Rightarrow> ''<nil>'' | Some n \<Rightarrow> show_int n)"

text \<open>A run of checks only: it takes no action but to report the error it ends with.\<close>

definition checks :: "('k, 'a) run \<Rightarrow> bool" where
  "checks r \<longleftrightarrow> fst r = (case snd r of Fail e \<Rightarrow> [Report (Some e)] | _ \<Rightarrow> [])"

lemma checks_report [run_intros]: "checks (try_report r)"
  by (cases r) (simp_all add: checks_def)

lemma checks_bind [run_intros]:
  assumes "checks r" and "\<And>x. checks (f x)"
  shows "checks (run_bind r f)"
proof -
  obtain w s where r: "r = (w, s)" by fastforce
  show ?thesis
  proof (cases s)
    case (Ok x)
    then show ?thesis using assms(1) assms(2) [of x] by (simp add: r checks_def split: prod.splits)
  qed (use assms(1) in \<open>simp_all add: r checks_def\<close>)
qed

lemma proper_checks [run_intros]:
  assumes "checks r" and "\<And>x. snd r = Ok x \<Longrightarrow> proper (f x)"
  shows "proper (run_bind r f)"
proof -
  obtain w s where r: "r = (w, s)" by fastforce
  show ?thesis
    using assms by (cases s) (auto simp: r checks_def proper_def split: prod.splits)
qed

lemma snd_report [simp]: "snd (try_report r) = r"
  by (cases r) simp_all

lemma snd_bind: "snd (run_bind r f) = res_bind (snd r) (\<lambda>x. snd (f x))"
  by (cases r; cases "snd r") (auto split: prod.splits)

lemma execs_checks:
  assumes "checks r"
  shows "x \<in> set (execs (fst (run_bind r f))) \<longleftrightarrow> (\<exists>y. snd r = Ok y \<and> x \<in> set (execs (fst (f y))))"
proof -
  obtain w s where r: "r = (w, s)" by fastforce
  show ?thesis
    using assms by (cases s) (auto simp: r checks_def split: prod.splits)
qed

section \<open>What the API relies on\<close>

text \<open>The first value a run sends to the error channel, if it sends one.\<close>

fun report_of :: "'k action list \<Rightarrow> go_error option option" where
  "report_of (Report e # w) = Some e"
| "report_of _ = None"

definition first_report :: "'k action list \<Rightarrow> go_error option option" where
  "first_report w = report_of (reports w)"

text \<open>A run answers when whatever it signs was accepted first, and when it reports at all unless it panics.\<close>

definition answers :: "('k, 'a) run \<Rightarrow> bool" where
  "answers r \<longleftrightarrow> (execs (fst r) \<noteq> [] \<longrightarrow> first_report (fst r) = Some None)
     \<and> (\<not> panics (snd r) \<longrightarrow> first_report (fst r) \<noteq> None)"

lemma reports_shape: "reports w = [] \<or> (\<exists>e w'. reports w = Report e # w')"
  by (induction w) (auto simp: reports_def split: action.splits)

lemma proper_answers: "proper r \<Longrightarrow> answers r"
  using reports_shape [of "fst r"] by (auto simp: proper_def answers_def first_report_def split: if_splits)

lemma answers_accept: "answers (run_bind (emit (Report None)) f)"
  by (simp add: answers_def first_report_def)

lemma answers_report:
  assumes "\<And>x. r = Ok x \<Longrightarrow> answers (f x)"
  shows "answers (run_bind (try_report r) f)"
  using assms by (cases r) (auto simp: answers_def first_report_def run_bind_report)

lemma answers_notify:
  assumes "reports w = []" and "execs w = []" and "answers (f x)"
  shows "answers (run_bind (w, Ok x) f)"
  using assms by (auto simp: answers_def first_report_def split: prod.splits)

text \<open>The contract of a handler towards the API, and the stronger one of a handler that reports once.\<close>

locale answering =
  fixes handle :: "'m \<Rightarrow> ('k, unit) run"
  assumes answers: "answers (handle m)"
begin

lemma signs_accepted: "execs (fst (handle m)) \<noteq> [] \<Longrightarrow> first_report (fst (handle m)) = Some None"
  using answers by (simp add: answers_def)

lemma refused_unsigned: "first_report (fst (handle m)) = Some (Some e) \<Longrightarrow> execs (fst (handle m)) = []"
  using signs_accepted by force

lemma replies: "\<not> panics (snd (handle m)) \<Longrightarrow> first_report (fst (handle m)) \<noteq> None"
  using answers by (simp add: answers_def)

end

locale reporting =
  fixes handle :: "'m \<Rightarrow> ('k, unit) run"
  assumes proper: "proper (handle m)"

sublocale reporting \<subseteq> answering handle
  by unfold_locales (rule proper_answers [OF proper])

context reporting
begin

lemma reports_once: "length (reports (fst (handle m))) \<le> 1"
  using proper [of m] by (auto simp: proper_def split: if_splits)

end

section \<open>What the other relayers rely on\<close>

text \<open>
  A handler that gets a request from the API names itself its coordinator and broadcasts the request;
  another relayer decodes it and handles it. \<open>announce\<close> is the message for a request, \<open>lead\<close> sets the
  coordinator, \<open>hear\<close> is what the other relayer does with a payload and \<open>handle'\<close> its handler;
  \<open>same\<close> says that the two relayers have the same encodings and \<open>fit\<close> that a request survives them.
\<close>

locale broadcasting =
  fixes handle :: "'d \<Rightarrow> ('k, unit) run"
    and announce :: "'d \<Rightarrow> send"
    and lead :: "'d \<Rightarrow> 'd"
    and decode :: "bytes \<Rightarrow> 'd res"
    and fit :: "'d \<Rightarrow> bool"
    and same :: bool
    and hear :: "bytes \<Rightarrow> ('k, unit) run"
    and handle' :: "'d \<Rightarrow> ('k, unit) run"
  assumes announced: "Notify n \<in> set (fst (handle d)) \<Longrightarrow> n = announce (lead d)"
    and decode_announce: "fit d \<Longrightarrow> decode (body (announce d)) = Ok d"
    and heard: "same \<Longrightarrow> decode b = Ok d \<Longrightarrow> hear b = handle' d"
begin

lemma relayed:
  assumes "Notify n \<in> set (fst (handle d))" and "fit (lead d)" and same
  shows "hear (body n) = handle' (lead d)"
  using announced [OF assms(1)] decode_announce [OF assms(2)] heard [OF assms(3)] by simp

end

text \<open>Only the first step of a handler broadcasts.\<close>

definition mute :: "('k, 'a) run \<Rightarrow> bool" where
  "mute r \<longleftrightarrow> (\<forall>n. Notify n \<notin> set (fst r))"

named_theorems mute_intros \<open>rules for runs that broadcast nothing\<close>

lemma mute_try [mute_intros]: "(\<And>x. mute (f x)) \<Longrightarrow> mute (run_bind (try_run r) f)"
  by (cases r) (auto simp: mute_def run_bind_try)

lemma mute_report [mute_intros]: "(\<And>x. mute (f x)) \<Longrightarrow> mute (run_bind (try_report r) f)"
  by (cases r) (auto simp: mute_def run_bind_report)

lemma mute_accept [mute_intros]: "mute (f ()) \<Longrightarrow> mute (run_bind (emit (Report e)) f)"
  by (auto simp: mute_def)

lemma mute_sign [mute_intros]: "mute (sign_and_execute V u sess coord)"
  by (auto simp: mute_def sign_and_execute_def run_bind_try split: res.splits)

lemma mute_checks [mute_intros]:
  assumes "checks r" and "\<And>x. mute (f x)"
  shows "mute (run_bind r f)"
proof -
  obtain w s where r: "r = (w, s)" by fastforce
  show ?thesis
    using assms by (cases s) (auto simp: r checks_def mute_def split: prod.splits)
qed

lemma notify_first:
  assumes "Notify n \<in> set (fst (run_bind r f))" and "\<And>x. mute (f x)"
  shows "Notify n \<in> set (fst r)"
proof -
  obtain w s where r: "r = (w, s)" by fastforce
  show ?thesis
  proof (cases s)
    case (Ok x)
    then show ?thesis using assms(1) assms(2) [of x] by (auto simp: r mute_def split: prod.splits)
  qed (use assms(1) in \<open>simp_all add: r\<close>)
qed

text \<open>Two relayers that encode requests in the same way.\<close>

definition same_encoding :: "'k env \<Rightarrow> 'k env \<Rightarrow> bool" where
  "same_encoding V W \<longleftrightarrow> eJ W = eJ V \<and> eL W = eL V \<and> eE W = eE V"

end
