(* ===== verification/Unlock_Hash.thy ===== *)
theory Unlock_Hash
  imports Evm_Base
begin

text \<open>
  The hashes that the liquidity pool checks, \<open>chains/evm/signature/hash.go\<close>: the EIP-712 messages
  \<open>Borrow\<close> and \<open>BorrowMany\<close> with their types and domain, and how their two digests are combined. What
  a signature binds is proved relative to the hash functions not colliding on the two messages
  compared.
\<close>

record borrow =
  b_calldata :: bytes
  b_amount :: "int option"
  b_token :: address
  b_chain :: int
  b_target :: address
  b_deadline :: uint64
  b_caller :: address
  b_pool :: address
  b_nonce :: "int option"

definition domain_types :: "(string \<times> string) list" where
  "domain_types = [(''name'', ''string''), (''version'', ''string''), (''chainId'', ''uint256''),
     (''verifyingContract'', ''address'')]"

definition borrow_domain :: "eth \<Rightarrow> borrow \<Rightarrow> typed_domain" where
  "borrow_domain E b =
     \<lparr>dom_Name = ''LiquidityPool'', dom_ChainId = b_chain b, dom_Version = ''1.0.0'',
      VerifyingContract = Hex E (b_pool b)\<rparr>"

definition borrow_message :: "eth \<Rightarrow> borrow \<Rightarrow> typed_message" where
  "borrow_message E b =
     [(''caller'', TVString (Hex E (b_caller b))), (''borrowToken'', TVString (Hex E (b_token b))),
      (''amount'', TVInt (b_amount b)), (''target'', TVString (Hex E (b_target b))),
      (''targetCallData'', TVBytes (b_calldata b)), (''nonce'', TVInt (b_nonce b)),
      (''deadline'', TVInt (Some (uint (b_deadline b))))]"

definition borrow_data :: "eth \<Rightarrow> borrow \<Rightarrow> typed_data" where
  "borrow_data E b =
     \<lparr>Types = [(''EIP712Domain'', domain_types),
        (''Borrow'', [(''caller'', ''address''), (''borrowToken'', ''address''), (''amount'', ''uint256''),
                      (''target'', ''address''), (''targetCallData'', ''bytes''), (''nonce'', ''uint256''),
                      (''deadline'', ''uint256'')])],
      PrimaryType = ''Borrow'', Domain = borrow_domain E b, Message = borrow_message E b\<rparr>"

text \<open>The digests of the domain and of the message, after the two bytes \<open>0x19 0x01\<close>.\<close>

definition eip712 :: "eth \<Rightarrow> typed_data \<Rightarrow> bytes res" where
  "eip712 E t =
     res_bind (HashStruct E t ''EIP712Domain'' (DomainMap E (Domain t))) (\<lambda>domainSeparator.
     res_bind (HashStruct E t (PrimaryType t) (Message t)) (\<lambda>messageHash.
     Ok ([0x19, 0x01] @ domainSeparator @ messageHash)))"

definition BorrowUnlockHash ::
  "eth \<Rightarrow> bytes \<Rightarrow> int option \<Rightarrow> address \<Rightarrow> int option \<Rightarrow> address \<Rightarrow> uint64 \<Rightarrow> address \<Rightarrow> address \<Rightarrow> int option \<Rightarrow>
   bytes res" where
  "BorrowUnlockHash E calldata outputAmount outputToken destinationChainId target deadline caller pool nonce =
     res_bind (deref destinationChainId) (\<lambda>chainId.
     res_bind (eip712 E (borrow_data E
       \<lparr>b_calldata = calldata, b_amount = outputAmount, b_token = outputToken, b_chain = chainId,
        b_target = target, b_deadline = deadline, b_caller = caller, b_pool = pool, b_nonce = nonce\<rparr>)) (\<lambda>rawData.
     Ok (Keccak256 E rawData)))"

definition BorrowManyUnlockHash ::
  "eth \<Rightarrow> bytes \<Rightarrow> int option list \<Rightarrow> address list \<Rightarrow> int option \<Rightarrow> address \<Rightarrow> uint64 \<Rightarrow> address \<Rightarrow> address \<Rightarrow>
   int option \<Rightarrow> bytes res" where
  "BorrowManyUnlockHash E calldata outputAmounts outputTokens destinationChainId target deadline caller pool nonce =
     res_bind (deref destinationChainId) (\<lambda>chainId.
     res_bind (eip712 E
       \<lparr>Types = [(''EIP712Domain'', domain_types),
          (''BorrowMany'', [(''caller'', ''address''), (''borrowTokens'', ''address[]''), (''amounts'', ''uint256[]''),
                        (''target'', ''address''), (''targetCallData'', ''bytes''), (''nonce'', ''uint256''),
                        (''deadline'', ''uint256'')])],
        PrimaryType = ''BorrowMany'',
        Domain = \<lparr>dom_Name = ''LiquidityPool'', dom_ChainId = chainId, dom_Version = ''1.0.0'',
                  VerifyingContract = Hex E pool\<rparr>,
        Message = [(''caller'', TVString (Hex E caller)), (''borrowTokens'', TVStrings (map (Hex E) outputTokens)),
                   (''amounts'', TVInts outputAmounts), (''target'', TVString (Hex E target)),
                   (''targetCallData'', TVBytes calldata), (''nonce'', TVInt nonce),
                   (''deadline'', TVInt (Some (uint deadline)))]\<rparr>) (\<lambda>rawData.
     Ok (Keccak256 E rawData)))"

section \<open>What the hash binds\<close>

text \<open>
  The hypotheses about the hash functions, for two messages: digests of 32 bytes, and no collision
  between the two pairs of inputs.
\<close>

definition digests :: "eth \<Rightarrow> borrow \<Rightarrow> (bytes \<times> bytes) res" where
  "digests E b =
     res_bind (HashStruct E (borrow_data E b) ''EIP712Domain'' (DomainMap E (borrow_domain E b))) (\<lambda>d.
     res_bind (HashStruct E (borrow_data E b) ''Borrow'' (borrow_message E b)) (\<lambda>m. Ok (d, m)))"

definition raw_of :: "bytes \<times> bytes \<Rightarrow> bytes" where
  "raw_of dm = [0x19, 0x01] @ fst dm @ snd dm"

text \<open>For a struct hash the domain and the message are what matters; equal digests come from equal ones.\<close>

definition no_collision :: "eth \<Rightarrow> borrow \<Rightarrow> borrow \<Rightarrow> bool" where
  "no_collision E b1 b2 \<longleftrightarrow>
     (\<forall>d1 m1 d2 m2. digests E b1 = Ok (d1, m1) \<longrightarrow> digests E b2 = Ok (d2, m2) \<longrightarrow>
        length d1 = 32 \<and> length d2 = 32
        \<and> (Keccak256 E (raw_of (d1, m1)) = Keccak256 E (raw_of (d2, m2)) \<longrightarrow> raw_of (d1, m1) = raw_of (d2, m2))
        \<and> (d1 = d2 \<longrightarrow> borrow_domain E b1 = borrow_domain E b2)
        \<and> (m1 = m2 \<longrightarrow> borrow_message E b1 = borrow_message E b2))"

definition hash_of :: "eth \<Rightarrow> borrow \<Rightarrow> bytes res" where
  "hash_of E b =
     BorrowUnlockHash E (b_calldata b) (b_amount b) (b_token b) (Some (b_chain b)) (b_target b)
       (b_deadline b) (b_caller b) (b_pool b) (b_nonce b)"

lemma hash_of_digests:
  "hash_of E b = res_bind (digests E b) (\<lambda>dm. Ok (Keccak256 E (raw_of dm)))"
proof -
  have "hash_of E b = res_bind (eip712 E (borrow_data E b)) (\<lambda>r. Ok (Keccak256 E r))"
    by (cases b) (simp add: hash_of_def BorrowUnlockHash_def)
  also have "eip712 E (borrow_data E b) = res_bind (digests E b) (\<lambda>dm. Ok (raw_of dm))"
    by (cases "HashStruct E (borrow_data E b) ''EIP712Domain'' (DomainMap E (borrow_domain E b))";
        cases "HashStruct E (borrow_data E b) ''Borrow'' (borrow_message E b)")
      (simp_all add: eip712_def digests_def raw_of_def borrow_data_def)
  finally show ?thesis by (cases "digests E b") simp_all
qed

lemma uint_inj: "uint a = uint b \<Longrightarrow> a = b" for a b :: "'a::len word"
  by (metis word_of_int_uint)

lemma hash_of_binds:
  assumes "hash_of E b1 = Ok h" and "hash_of E b2 = Ok h" and "no_collision E b1 b2"
    and "inj_on (Hex E) {b_token b1, b_token b2, b_target b1, b_target b2, b_caller b1, b_caller b2,
           b_pool b1, b_pool b2}"
  shows "b1 = b2"
proof -
  obtain d1 m1 where 1: "digests E b1 = Ok (d1, m1)" "Keccak256 E (raw_of (d1, m1)) = h"
    using assms(1) by (auto simp: hash_of_digests res_bind_Ok_iff)
  obtain d2 m2 where 2: "digests E b2 = Ok (d2, m2)" "Keccak256 E (raw_of (d2, m2)) = h"
    using assms(2) by (auto simp: hash_of_digests res_bind_Ok_iff)
  note nc = assms(3) [unfolded no_collision_def, rule_format, OF 1(1) 2(1)]
  then have "raw_of (d1, m1) = raw_of (d2, m2)" "length d1 = length d2" using 1(2) 2(2) by auto
  then have "d1 = d2" "m1 = m2" by (simp_all add: raw_of_def)
  with nc have eq: "borrow_domain E b1 = borrow_domain E b2" "borrow_message E b1 = borrow_message E b2"
    by auto
  have "b_calldata b1 = b_calldata b2" "b_amount b1 = b_amount b2" "b_nonce b1 = b_nonce b2"
    "b_chain b1 = b_chain b2" "uint (b_deadline b1) = uint (b_deadline b2)"
    using eq by (simp_all add: borrow_domain_def borrow_message_def)
  moreover have "b_token b1 = b_token b2" "b_target b1 = b_target b2" "b_caller b1 = b_caller b2"
    "b_pool b1 = b_pool b2"
    using eq by (auto simp: borrow_domain_def borrow_message_def intro!: inj_onD [OF assms(4)])
  ultimately show ?thesis by (simp add: uint_inj)
qed

text \<open>C22: an unlock hash binds everything the borrower gets: two requests with the same hash agree in
  calldata, amount, token, chain, target, deadline, caller, liquidity pool and nonce.\<close>

theorem unlock_hash_binds:
  assumes "BorrowUnlockHash E cd1 am1 tok1 (Some ch1) tg1 dl1 ca1 pool1 n1 = Ok h"
    and "BorrowUnlockHash E cd2 am2 tok2 (Some ch2) tg2 dl2 ca2 pool2 n2 = Ok h"
    and "no_collision E
      \<lparr>b_calldata = cd1, b_amount = am1, b_token = tok1, b_chain = ch1, b_target = tg1, b_deadline = dl1,
       b_caller = ca1, b_pool = pool1, b_nonce = n1\<rparr>
      \<lparr>b_calldata = cd2, b_amount = am2, b_token = tok2, b_chain = ch2, b_target = tg2, b_deadline = dl2,
       b_caller = ca2, b_pool = pool2, b_nonce = n2\<rparr>"
    and "inj_on (Hex E) {tok1, tok2, tg1, tg2, ca1, ca2, pool1, pool2}"
  shows "cd1 = cd2 \<and> am1 = am2 \<and> tok1 = tok2 \<and> ch1 = ch2 \<and> tg1 = tg2 \<and> dl1 = dl2 \<and> ca1 = ca2
    \<and> pool1 = pool2 \<and> n1 = n2"
proof -
  let ?b1 = "\<lparr>b_calldata = cd1, b_amount = am1, b_token = tok1, b_chain = ch1, b_target = tg1, b_deadline = dl1,
       b_caller = ca1, b_pool = pool1, b_nonce = n1\<rparr>"
  let ?b2 = "\<lparr>b_calldata = cd2, b_amount = am2, b_token = tok2, b_chain = ch2, b_target = tg2, b_deadline = dl2,
       b_caller = ca2, b_pool = pool2, b_nonce = n2\<rparr>"
  have "?b1 = ?b2"
    by (rule hash_of_binds [OF _ _ assms(3), of h])
      (simp_all only: hash_of_def borrow.select_convs assms(1,2,4))
  then show ?thesis by simp
qed

text \<open>An instance whose struct hash is the amount of the message, padded.\<close>

definition sample_hash_struct :: "typed_data \<Rightarrow> string \<Rightarrow> typed_message \<Rightarrow> bytes res" where
  "sample_hash_struct t p m =
     Ok (replicate 31 0 @ [case map_of m ''amount'' of Some (TVInt (Some a)) \<Rightarrow> word_of_int a | _ \<Rightarrow> 0])"

definition sample_eth :: eth where
  "sample_eth = \<lparr>Keccak256 = id, DomainMap = (\<lambda>d. []), HashStruct = sample_hash_struct,
     Hex = map (\<lambda>b. char_of (unat b)), hash_Hex = map (\<lambda>b. char_of (unat b)),
     LeftPadBytes = (\<lambda>b n. replicate (n - length b) 0 @ b), BytesToAddress = (\<lambda>b. drop (length b - 20) b),
     BytesToHash = id, HexToHash = string_bytes, HexToAddress = string_bytes,
     addr_text = (\<lambda>s. Ok (string_bytes s)), hash_text = (\<lambda>s. Ok (string_bytes s))\<rparr>"

lemma sample_hash:
  "BorrowUnlockHash sample_eth cd (Some a) tok (Some ch) tg dl ca pool n
   = Ok ([0x19, 0x01] @ (replicate 31 0 @ [0]) @ (replicate 31 0 @ [word_of_int a]))"
  by (simp add: BorrowUnlockHash_def eip712_def borrow_data_def borrow_message_def sample_eth_def
      sample_hash_struct_def)

lemma inj_one: "inj_on f {a}" "inj_on f {a, a}"
  by (simp_all add: inj_on_def)

theorem unlock_hash_binds_witness:
  "BorrowUnlockHash sample_eth [7] (Some 5) [1] (Some 10) [1] 9 [1] [1] (Some 1)
   \<noteq> BorrowUnlockHash sample_eth [7] (Some 6) [1] (Some 10) [1] 9 [1] [1] (Some 1)"
proof
  assume eq: "BorrowUnlockHash sample_eth [7] (Some 5) [1] (Some 10) [1] 9 [1] [1] (Some 1)
    = BorrowUnlockHash sample_eth [7] (Some 6) [1] (Some 10) [1] 9 [1] [1] (Some 1)"
  have nc: "no_collision sample_eth
      \<lparr>b_calldata = [7], b_amount = Some 5, b_token = [1], b_chain = 10, b_target = [1], b_deadline = 9,
       b_caller = [1], b_pool = [1], b_nonce = Some 1\<rparr>
      \<lparr>b_calldata = [7], b_amount = Some 6, b_token = [1], b_chain = 10, b_target = [1], b_deadline = 9,
       b_caller = [1], b_pool = [1], b_nonce = Some 1\<rparr>"
    by (auto simp: no_collision_def digests_def sample_eth_def sample_hash_struct_def borrow_message_def
        borrow_domain_def raw_of_def)
  have inj: "inj_on (Hex sample_eth) {[1], [1], [1], [1], [1], [1], [1], [1]}"
    by simp
  have "Some (5::int) = Some 6"
    using unlock_hash_binds [OF eq [unfolded sample_hash [of _ 6]] sample_hash nc inj] by blast
  then show False by simp
qed

end
