(* ===== verification/Across.thy ===== *)
theory Across
  imports Unlock_Hash
begin

text \<open>
  Across: finding the deposit in the receipt of a transaction (\<open>protocol/across/deposit.go\<close> with the
  events of \<open>calls/events/events.go\<close> and the route of \<open>calls/contracts/hubPool.go\<close>) and the handler of
  its requests, \<open>chains/evm/message/across.go\<close>. Packing and unpacking by the contract ABI and the
  calls to the node are arguments.
\<close>

section \<open>Events\<close>

record tx_log =
  Removed :: bool
  Topics :: "hash list"
  log_Data :: bytes
  log_Address :: address

definition GetTopic :: "eth \<Rightarrow> string \<Rightarrow> hash" where
  "GetTopic E es = Keccak256 E (string_bytes es)"

definition AcrossDepositSig :: string where
  "AcrossDepositSig = ''FundsDeposited(bytes32,bytes32,uint256,uint256,uint256,uint256,uint32,uint32,uint32,bytes32,bytes32,bytes32,bytes)''"

record across_deposit =
  InputToken :: hash
  OutputToken :: hash
  InputAmount :: int
  OutputAmount :: int
  DestinationChainId :: int
  DepositId :: int
  QuoteTimestamp :: "32 word"
  ExclusivityDeadline :: "32 word"
  FillDeadline :: "32 word"
  Depositor :: hash
  Recipient :: hash
  ExclusiveRelayer :: hash
  dep_Message :: bytes

record v3_relay_data =
  r_Depositor :: hash
  r_Recipient :: hash
  r_ExclusiveRelayer :: hash
  r_InputToken :: hash
  r_OutputToken :: hash
  r_InputAmount :: int
  r_OutputAmount :: int
  r_OriginChainId :: int
  r_DepositId :: int
  r_FillDeadline :: "32 word"
  r_ExclusivityDeadline :: "32 word"
  r_Message :: bytes

definition ToV3RelayData :: "across_deposit \<Rightarrow> int \<Rightarrow> v3_relay_data" where
  "ToV3RelayData a originChainID =
     \<lparr>r_Depositor = Depositor a, r_Recipient = Recipient a, r_ExclusiveRelayer = ExclusiveRelayer a,
      r_InputToken = InputToken a, r_OutputToken = OutputToken a, r_InputAmount = InputAmount a,
      r_OutputAmount = OutputAmount a, r_OriginChainId = originChainID, r_DepositId = DepositId a,
      r_FillDeadline = FillDeadline a, r_ExclusivityDeadline = ExclusivityDeadline a,
      r_Message = dep_Message a\<rparr>"

text \<open>The ABI of the spoke pool.\<close>

record spoke_pool =
  UnpackDeposit :: "bytes \<Rightarrow> across_deposit res"
  PackFillRelay :: "v3_relay_data \<Rightarrow> int \<Rightarrow> bytes \<Rightarrow> bytes res"

definition Calldata :: "eth \<Rightarrow> spoke_pool \<Rightarrow> v3_relay_data \<Rightarrow> int \<Rightarrow> address \<Rightarrow> bytes res" where
  "Calldata E P a repaymentChainID repaymentAddress =
     PackFillRelay P a repaymentChainID (LeftPadBytes E repaymentAddress 32)"

section \<open>The hub pool\<close>

text \<open>\<open>route\<close> is the contract call and the conversion of its result.\<close>

definition DestinationToken ::
  "eth \<Rightarrow> (string \<rightharpoonup> token_config) \<Rightarrow> (int \<Rightarrow> address \<Rightarrow> address res) \<Rightarrow> int \<Rightarrow> string \<Rightarrow> address res" where
  "DestinationToken E tokens route destinationChainId symbol =
     (case tokens symbol of
        None \<Rightarrow> Fail (Errorf (''no hub pool token configured for symbol '' @ symbol))
      | Some c \<Rightarrow>
          res_bind (route destinationChainId (tc_Address c)) (\<lambda>out.
          if Hex E out = Hex E zero_address then Fail (Errorf (''rebalance route not configured for '' @ symbol))
          else Ok out))"

section \<open>Finding the deposit\<close>

record deposit_fetcher =
  df_chainID :: uint64
  df_tokens :: token_store
  df_receipt :: "hash \<Rightarrow> tx_log list res"
  df_matcher :: "int \<Rightarrow> string \<Rightarrow> address res"

definition parseDeposit :: "eth \<Rightarrow> spoke_pool \<Rightarrow> deposit_fetcher \<Rightarrow> tx_log \<Rightarrow> across_deposit res" where
  "parseDeposit E P F l =
     res_bind (UnpackDeposit P (log_Data l)) (\<lambda>d0.
     case Topics l of
       _ # t1 # t2 # t3 # _ \<Rightarrow>
         (let d = d0\<lparr>DestinationChainId := int (be_nat t1), DepositId := int (be_nat t2), Depositor := t3\<rparr> in
          if OutputToken d \<noteq> zero_hash then Ok d
          else res_bind (ConfigByAddress (df_tokens F) (df_chainID F) (BytesToAddress E (drop 12 (InputToken d))))
                 (\<lambda>(symbol, _).
               res_bind (df_matcher F (DestinationChainId d) symbol) (\<lambda>address.
               Ok (d\<lparr>OutputToken := BytesToHash E address\<rparr>))))
     | _ \<Rightarrow> Fail (Errorf ''across deposit missing topics''))"

definition id_topic :: "eth \<Rightarrow> int \<Rightarrow> hash" where
  "id_topic E depositID = BytesToHash E (LeftPadBytes E (nat_bytes (nat \<bar>depositID\<bar>)) 32)"

definition deposit_log :: "eth \<Rightarrow> int \<Rightarrow> tx_log \<Rightarrow> bool" where
  "deposit_log E depositID l \<longleftrightarrow>
     \<not> Removed l \<and> \<not> length (Topics l) < 3 \<and> Topics l ! 0 = GetTopic E AcrossDepositSig
     \<and> Topics l ! 2 = id_topic E depositID"

text \<open>\<open>depositID.Bytes()\<close> is reached, and panics for nil, only at a log with the deposit topic.\<close>

fun scan_logs ::
  "eth \<Rightarrow> spoke_pool \<Rightarrow> deposit_fetcher \<Rightarrow> int option \<Rightarrow> tx_log list \<Rightarrow> across_deposit res" where
  "scan_logs E P F depositID [] = Fail (Errorf (''deposit with id '' @ big_str depositID @ '' not found''))"
| "scan_logs E P F depositID (l # ls) =
     (if Removed l \<or> length (Topics l) < 3 \<or> Topics l ! 0 \<noteq> GetTopic E AcrossDepositSig
      then scan_logs E P F depositID ls
      else res_bind (deref depositID) (\<lambda>i.
           if Topics l ! 2 \<noteq> id_topic E i then scan_logs E P F depositID ls
           else parseDeposit E P F l))"

definition Deposit :: "eth \<Rightarrow> spoke_pool \<Rightarrow> deposit_fetcher \<Rightarrow> hash \<Rightarrow> int option \<Rightarrow> across_deposit res" where
  "Deposit E P F h depositID = res_bind (df_receipt F h) (scan_logs E P F depositID)"

section \<open>The handler\<close>

record across_handler =
  ah_chainID :: uint64
  ah_tokens :: token_store
  ah_pools :: "uint64 \<rightharpoonup> address"
  ah_repayers :: "uint64 \<rightharpoonup> address"
  ah_fetch :: "hash \<Rightarrow> int option \<Rightarrow> across_deposit res"
  ah_wait :: "uint64 \<Rightarrow> hash \<Rightarrow> address \<Rightarrow> int option \<Rightarrow> unit res"

definition across_notify :: "'k env \<Rightarrow> across_handler \<Rightarrow> across_data \<Rightarrow> ('k, across_data) run" where
  "across_notify V H d =
     (if a_Coordinator d \<noteq> [] then ([], Ok d)
      else let d' = d\<lparr>a_Coordinator := host_ID (eHost V)\<rparr>
           in ([Notify \<lparr>to = Peerstore (eHost V), body = jrender (eJ V) (across_json (eE V) (eL V) d'),
                        kind = AcrossMsg, session = chain_session (ah_chainID H) AcrossSessionID\<rparr>], Ok d'))"

text \<open>The checks up to the report that accepts the request, for the deposit that was found.\<close>

definition across_check :: "'k env \<Rightarrow> across_handler \<Rightarrow> across_data \<Rightarrow> across_deposit \<Rightarrow> ('k, unit) run" where
  "across_check V H data d =
     (let token = BytesToAddress (eE V) (InputToken d) in
      run_bind (try_report (res_wrap ''failed to get source token'' (ConfigByAddress (ah_tokens H) (ah_chainID H) token)))
        (\<lambda>(symbol, srcToken).
      run_bind (try_report (res_wrap ''failed to get destination token''
          (ConfigBySymbol (ah_tokens H) (big_uint64 (DestinationChainId d)) symbol))) (\<lambda>destToken.
      run_bind (try_report (deref (a_BorrowAmount data))) (\<lambda>amount.
      run_bind (try_report (res_guard
          (amount \<le> ScaleTokenAmount (InputAmount d) (int (Decimals srcToken)) (int (Decimals destToken)))
          (Errorf ''borrow amount exceeds input amount''))) (\<lambda>_.
      try_report (ah_wait H (ah_chainID H) (a_DepositTxHash data) token (Some (InputAmount d))))))))"

definition across_unlock_hash ::
  "'k env \<Rightarrow> spoke_pool \<Rightarrow> across_handler \<Rightarrow> across_data \<Rightarrow> address \<Rightarrow> across_deposit \<Rightarrow> bytes res" where
  "across_unlock_hash V P H data repaymentAddress d =
     res_bind (Calldata (eE V) P (ToV3RelayData d (uint (ah_chainID H))) (uint (a_RepaymentChainID data))
        repaymentAddress) (\<lambda>calldata.
     BorrowUnlockHash (eE V) calldata (a_BorrowAmount data) (BytesToAddress (eE V) (OutputToken d))
       (Some (DestinationChainId d)) (map_get (ah_pools H) (big_uint64 (DestinationChainId d)))
       (a_Deadline data) (a_Caller data) (a_LiquidityPool data) (a_Nonce data))"

definition across_HandleMessage ::
  "'k env \<Rightarrow> spoke_pool \<Rightarrow> across_handler \<Rightarrow> across_data relayer_message \<Rightarrow> ('k, unit) run" where
  "across_HandleMessage V P H m =
     (case ah_repayers H (a_RepaymentChainID (m_Data m)) of
        None \<Rightarrow> (let e = Errorf ''invalid repayment chain'' in ([Report (Some e)], Fail e))
      | Some repaymentAddress \<Rightarrow>
          run_bind (across_notify V H (m_Data m)) (\<lambda>data.
          run_bind (try_report (ah_fetch H (a_DepositTxHash data) (a_DepositId data))) (\<lambda>d.
          run_bind (across_check V H data d) (\<lambda>_.
          run_bind (emit (Report None)) (\<lambda>_.
          run_bind (try_run (across_unlock_hash V P H data repaymentAddress d)) (\<lambda>unlockHash.
          sign_and_execute V unlockHash (chain_session (ah_chainID H) (big_str (a_DepositId data)))
            (a_Coordinator data)))))))"

text \<open>One message of the subscription of \<open>Listen\<close>; a payload that does not decode is dropped.\<close>

definition across_Listen_session :: "across_handler \<Rightarrow> string \<times> message_type" where
  "across_Listen_session H = (chain_session (ah_chainID H) AcrossSessionID, AcrossMsg)"

definition across_on_message ::
  "'k env \<Rightarrow> spoke_pool \<Rightarrow> across_handler \<Rightarrow> wrapped_message \<Rightarrow> ('k, unit) run" where
  "across_on_message V P H wMsg =
     (case unmarshal_across (eJ V) (eE V) (eL V) (Payload wMsg) of
        Ok d \<Rightarrow> across_HandleMessage V P H (NewAcrossMessage (a_Source d) (a_Destination d) d)
      | _ \<Rightarrow> ([], Ok ()))"

section \<open>Lemmas\<close>

lemma scan_logs_Ok:
  "scan_logs E P F depositID ls = Ok d \<Longrightarrow>
   \<exists>l i. l \<in> set ls \<and> depositID = Some i \<and> deposit_log E i l \<and> parseDeposit E P F l = Ok d"
proof (induction ls)
  case (Cons l ls)
  show ?case
  proof (cases "Removed l \<or> length (Topics l) < 3 \<or> Topics l ! 0 \<noteq> GetTopic E AcrossDepositSig")
    case True
    then show ?thesis using Cons by auto
  next
    case False
    then obtain i where i: "depositID = Some i"
      "(if Topics l ! 2 \<noteq> id_topic E i then scan_logs E P F depositID ls else parseDeposit E P F l) = Ok d"
      using Cons.prems by (auto simp: res_simps)
    then show ?thesis
      using Cons.IH False by (cases "Topics l ! 2 = id_topic E i") (auto simp: deposit_log_def)
  qed
qed simp

lemma across_notify_run:
  "\<exists>w. across_notify V H d = (w, Ok (d\<lparr>a_Coordinator := if a_Coordinator d \<noteq> [] then a_Coordinator d else host_ID (eHost V)\<rparr>))
     \<and> reports w = [] \<and> execs w = []"
  by (simp add: across_notify_def Let_def)

lemma checks_across_check: "checks (across_check V H data d)"
  unfolding across_check_def Let_def by (auto intro!: run_intros split: prod.splits)

lemma across_check_Ok:
  assumes "snd (across_check V H data d) = Ok u"
  shows "\<exists>symbol src dst b.
     ConfigByAddress (ah_tokens H) (ah_chainID H) (BytesToAddress (eE V) (InputToken d)) = Ok (symbol, src)
   \<and> ConfigBySymbol (ah_tokens H) (big_uint64 (DestinationChainId d)) symbol = Ok dst
   \<and> a_BorrowAmount data = Some b
   \<and> b \<le> ScaleTokenAmount (InputAmount d) (int (Decimals src)) (int (Decimals dst))
   \<and> ah_wait H (ah_chainID H) (a_DepositTxHash data) (BytesToAddress (eE V) (InputToken d)) (Some (InputAmount d)) = Ok ()"
  using assms by (auto simp: across_check_def Let_def snd_bind res_simps split: prod.splits)

lemma proper_across: "proper (across_HandleMessage V P H m)"
proof (cases "ah_repayers H (a_RepaymentChainID (m_Data m))")
  case None
  then show ?thesis by (simp add: across_HandleMessage_def Let_def proper_fail)
next
  case (Some repay)
  obtain w d where "across_notify V H (m_Data m) = (w, Ok d)" "reports w = []" "execs w = []"
    using across_notify_run by metis
  then show ?thesis
    using Some unfolding across_HandleMessage_def
    by (simp only: option.case) (intro run_intros checks_across_check; assumption)
qed

lemma across_exec:
  assumes "(s, c) \<in> set (execs (fst (across_HandleMessage V P H m)))"
  shows "\<exists>repay data d u.
     ah_repayers H (a_RepaymentChainID (m_Data m)) = Some repay
   \<and> data = (m_Data m)\<lparr>a_Coordinator := c\<rparr>
   \<and> ah_fetch H (a_DepositTxHash data) (a_DepositId data) = Ok d
   \<and> snd (across_check V H data d) = Ok ()
   \<and> across_unlock_hash V P H data repay d = Ok u \<and> smsg s = be_nat u
   \<and> SID s = chain_session (ah_chainID H) (big_str (a_DepositId data))
   \<and> c = (if a_Coordinator (m_Data m) \<noteq> [] then a_Coordinator (m_Data m) else host_ID (eHost V))"
proof -
  obtain repay where repay: "ah_repayers H (a_RepaymentChainID (m_Data m)) = Some repay"
    using assms by (cases "ah_repayers H (a_RepaymentChainID (m_Data m))") (auto simp: across_HandleMessage_def Let_def)
  obtain w data where w: "across_notify V H (m_Data m) = (w, Ok data)" "execs w = []"
    "data = (m_Data m)\<lparr>a_Coordinator := a_Coordinator data\<rparr>"
    "a_Coordinator data = (if a_Coordinator (m_Data m) \<noteq> [] then a_Coordinator (m_Data m) else host_ID (eHost V))"
    using across_notify_run [of V H "m_Data m"] by fastforce
  obtain d u where du: "ah_fetch H (a_DepositTxHash data) (a_DepositId data) = Ok d"
    "snd (across_check V H data d) = Ok ()" "across_unlock_hash V P H data repay d = Ok u"
    "(s, c) \<in> set (execs (fst (sign_and_execute V u
       (chain_session (ah_chainID H) (big_str (a_DepositId data))) (a_Coordinator data))))"
    using assms
    by (auto simp: across_HandleMessage_def repay w(1) execs_bind_notify [OF w(2)] execs_bind
        execs_checks [OF checks_across_check] simp del: run_bind_emit run_bind.simps)
  note se = sign_and_execute_execs [OF du(4)]
  have "data = (m_Data m)\<lparr>a_Coordinator := c\<rparr>" using w(3) se by simp
  moreover have "c = (if a_Coordinator (m_Data m) \<noteq> [] then a_Coordinator (m_Data m) else host_ID (eHost V))"
    using w(4) se by simp
  ultimately show ?thesis using repay du se by blast
qed

lemma across_backed:
  assumes "(s, c) \<in> set (execs (fst (across_HandleMessage V P H m)))"
    and "ah_fetch H = Deposit (eE V) P F"
    and "ah_wait H = (\<lambda>chain h token amount. await (WaitForTokenConfirmations pricer w chain token amount (turns h)))"
    and "data = (m_Data m)\<lparr>a_Coordinator := c\<rparr>"
  shows "\<exists>logs l i d b repay u symbol src dst.
     df_receipt F (a_DepositTxHash data) = Ok logs \<and> l \<in> set logs \<and> a_DepositId data = Some i
   \<and> deposit_log (eE V) i l \<and> parseDeposit (eE V) P F l = Ok d
   \<and> a_BorrowAmount data = Some b
   \<and> ConfigByAddress (ah_tokens H) (ah_chainID H) (BytesToAddress (eE V) (InputToken d)) = Ok (symbol, src)
   \<and> ConfigBySymbol (ah_tokens H) (big_uint64 (DestinationChainId d)) symbol = Ok dst
   \<and> b \<le> ScaleTokenAmount (InputAmount d) (int (Decimals src)) (int (Decimals dst))
   \<and> snd (WaitForTokenConfirmations pricer w (ah_chainID H) (BytesToAddress (eE V) (InputToken d))
       (Some (InputAmount d)) (turns (a_DepositTxHash data))) = Some (Ok ())
   \<and> ah_repayers H (a_RepaymentChainID data) = Some repay
   \<and> across_unlock_hash V P H data repay d = Ok u \<and> smsg s = be_nat u
   \<and> SID s = chain_session (ah_chainID H) (show_int i)"
proof -
  obtain repay d u where ex: "ah_repayers H (a_RepaymentChainID (m_Data m)) = Some repay"
    "ah_fetch H (a_DepositTxHash data) (a_DepositId data) = Ok d"
    "snd (across_check V H data d) = Ok ()"
    "across_unlock_hash V P H data repay d = Ok u" "smsg s = be_nat u"
    "SID s = chain_session (ah_chainID H) (big_str (a_DepositId data))"
    using across_exec [OF assms(1)] unfolding assms(4) by blast
  obtain logs l i where fetch: "df_receipt F (a_DepositTxHash data) = Ok logs" "l \<in> set logs"
    "a_DepositId data = Some i" "deposit_log (eE V) i l" "parseDeposit (eE V) P F l = Ok d"
    using ex(2) unfolding assms(2) Deposit_def res_bind_Ok_iff by (metis scan_logs_Ok)
  obtain symbol src dst b where chk:
    "ConfigByAddress (ah_tokens H) (ah_chainID H) (BytesToAddress (eE V) (InputToken d)) = Ok (symbol, src)"
    "ConfigBySymbol (ah_tokens H) (big_uint64 (DestinationChainId d)) symbol = Ok dst"
    "a_BorrowAmount data = Some b"
    "b \<le> ScaleTokenAmount (InputAmount d) (int (Decimals src)) (int (Decimals dst))"
    "ah_wait H (ah_chainID H) (a_DepositTxHash data) (BytesToAddress (eE V) (InputToken d)) (Some (InputAmount d)) = Ok ()"
    using across_check_Ok [OF ex(3)] by blast
  have "snd (WaitForTokenConfirmations pricer w (ah_chainID H) (BytesToAddress (eE V) (InputToken d))
       (Some (InputAmount d)) (turns (a_DepositTxHash data))) = Some (Ok ())"
    using chk(5) unfolding assms(3) by (simp add: await_Ok)
  then show ?thesis
    using ex fetch chk by (auto simp: assms(4) big_str_def)
qed

section \<open>The contracts it keeps\<close>

interpretation across: reporting "across_HandleMessage V P H" for V P H
  by unfold_locales (rule proper_across)

text \<open>The message that announces a request, and the requests that survive it.\<close>

definition across_announce :: "'k env \<Rightarrow> across_handler \<Rightarrow> across_data \<Rightarrow> send" where
  "across_announce V H d =
     \<lparr>to = Peerstore (eHost V), body = jrender (eJ V) (across_json (eE V) (eL V) d), kind = AcrossMsg, session = chain_session (ah_chainID H) AcrossSessionID\<rparr>"

definition across_fits :: "'k env \<Rightarrow> across_data \<Rightarrow> bool" where
  "across_fits V d \<longleftrightarrow> text_ok (eJ V) (across_json (eE V) (eL V) d) \<and> ids_ok (eL V) [a_Coordinator d]
     \<and> eth_text_ok (eE V) [a_LiquidityPool d, a_Caller d] [a_DepositTxHash d]"

interpretation across_relay: broadcasting
  "\<lambda>d. across_HandleMessage V P H (NewAcrossMessage (a_Source d) (a_Destination d) d)" "across_announce V H"
  "\<lambda>d. d\<lparr>a_Coordinator := host_ID (eHost V)\<rparr>" "unmarshal_across (eJ V) (eE V) (eL V)" "across_fits V" "same_encoding V W"
  "\<lambda>b. across_on_message W P' H' \<lparr>MessageType = AcrossMsg, SessionID = sess, Payload = b, From = q\<rparr>"
  "\<lambda>d. across_HandleMessage W P' H' (NewAcrossMessage (a_Source d) (a_Destination d) d)"
  for V P H W P' H' sess q
proof (unfold_locales, goal_cases)
  case (1 n d)
  then have "Notify n \<in> set (fst (across_notify V H d))"
    by (auto simp: across_HandleMessage_def NewAcrossMessage_def Let_def simp del: run_bind_emit split: option.splits
        elim!: notify_first intro!: mute_intros checks_across_check)
  then show ?case by (simp add: across_notify_def across_announce_def Let_def split: if_splits)
next
  case (2 d)
  then show ?case by (simp add: across_announce_def across_fits_def unmarshal_across_json)
next
  case (3 b d)
  then show ?case by (simp add: across_on_message_def same_encoding_def)
qed

section \<open>Properties\<close>


text \<open>The relayer does not look at which contract emitted the deposit event: receipts whose logs
  differ only in the emitting address give the same deposit, so an event of any contract with
  the deposit's signature counts as a deposit into the spoke pool.\<close>

theorem deposit_emitter_unchecked:
  "scan_logs E P F depositID (map (\<lambda>l. l\<lparr>log_Address := emitter l\<rparr>) ls) = scan_logs E P F depositID ls"
proof (induction ls)
  case (Cons l ls)
  have "parseDeposit E P F (l\<lparr>log_Address := emitter l\<rparr>) = parseDeposit E P F l"
    by (simp add: parseDeposit_def)
  with Cons show ?case by (cases depositID) simp_all
qed simp

text \<open>A relayer with a key share, a receipt with one deposit, and a request for it.\<close>

definition sample_env :: "int env" where
  "sample_env = \<lparr>eJ = one_doc (keyshare_json raw_ids (NewECDSAKeyshare (77::int) 1 committee) (JNum 77)) [],
     eL = raw_ids, eC = int_codec, eE = sample_eth, eHost = sample_host,
     eStore = \<lparr>locked = False, ks_file = Some [0]\<rparr>, eExecute = (\<lambda>_ _. Ok ())\<rparr>"

lemma sample_new_signing: "\<exists>s. new_signing sample_env u sess = Ok s"
  by (simp add: new_signing_def NewSigning_def LockKeyshare_def UnlockKeyshare_def sample_env_def
      GetKeyshare_def unmarshal_keyshare_def json_unmarshal_tree_def keyshare_json_def struct_field_def
      keyshare_fields int_codec_def NewECDSAKeyshare_def committee_def)

lemma sample_sign_execs:
  "\<exists>s. (s, c) \<in> set (execs (fst (sign_and_execute sample_env u sess c)))"
proof -
  obtain s where "new_signing sample_env u sess = Ok s" using sample_new_signing by blast
  then show ?thesis by (intro exI [of _ s]) (simp add: sign_and_execute_def run_bind_try)
qed

definition sample_log :: tx_log where
  "sample_log = \<lparr>Removed = False,
     Topics = [GetTopic sample_eth AcrossDepositSig, [1], replicate 31 0 @ [5], [3]], log_Data = [], log_Address = [8]\<rparr>"

definition sample_deposit :: across_deposit where
  "sample_deposit = \<lparr>InputToken = [7], OutputToken = [9], InputAmount = 50000000, OutputAmount = 49, DestinationChainId = 1,
     DepositId = 5, QuoteTimestamp = 0, ExclusivityDeadline = 0, FillDeadline = 0, Depositor = [3],
     Recipient = [4], ExclusiveRelayer = [], dep_Message = []\<rparr>"

definition sample_pool :: spoke_pool where
  "sample_pool = \<lparr>UnpackDeposit = (\<lambda>_. Ok sample_deposit), PackFillRelay = (\<lambda>_ _ _. Ok [6])\<rparr>"

definition sample_fetcher :: deposit_fetcher where
  "sample_fetcher = \<lparr>df_chainID = 1, df_tokens = tokenStore sample_watcher, df_receipt = (\<lambda>_. Ok [sample_log]),
     df_matcher = (\<lambda>_ _. Fail (Errorf []))\<rparr>"

definition sample_across :: across_handler where
  "sample_across = \<lparr>ah_chainID = 1, ah_tokens = tokenStore sample_watcher, ah_pools = [1 \<mapsto> [2]], ah_repayers = [1 \<mapsto> [4]],
     ah_fetch = Deposit sample_eth sample_pool sample_fetcher,
     ah_wait = (\<lambda>chain h token amount.
       await (WaitForTokenConfirmations (\<lambda>_. Ok (F64 False 1 0)) sample_watcher chain token amount sample_turns))\<rparr>"

definition sample_request :: across_data where
  "sample_request = \<lparr>a_DepositTxHash = [], a_DepositId = Some 5, a_Nonce = Some 1, a_BorrowAmount = Some 40,
     a_LiquidityPool = [2], a_RepaymentChainID = 1, a_Caller = [3], a_Coordinator = ''a'', a_Deadline = 9,
     a_Source = 1, a_Destination = 1\<rparr>"

lemma sample_deposit_found:
  assumes "df_receipt F [] = Ok [sample_log]"
  shows "Deposit sample_eth sample_pool F [] (Some 5) = Ok sample_deposit"
proof -
  have "id_topic sample_eth 5 = replicate 31 0 @ [5]"
    by (simp add: id_topic_def sample_eth_def nat_bytes.simps)
  moreover have "be_nat (replicate 31 0 @ [5]) = 5" unfolding be_nat_append_zeros by (simp add: be_nat_def)
  moreover have "be_nat [1] = 1" by (simp add: be_nat_def)
  moreover have "[9] \<noteq> zero_hash"
    by (auto simp: zero_hash_def dest!: arg_cong [where f = length])
  ultimately show ?thesis
    by (simp add: Deposit_def assms sample_log_def parseDeposit_def sample_pool_def sample_deposit_def)
qed

text \<open>A handler that finds the deposit and its confirmations signs the request.\<close>

lemma sample_across_runs:
  assumes "ah_chainID H = 1" and "ah_tokens H = tokenStore sample_watcher" and "ah_repayers H 1 = Some r"
    and "ah_fetch H [] (Some 5) = Ok sample_deposit" and "ah_wait H 1 [] [7] (Some 50000000) = Ok ()"
  shows "\<exists>s. (s, ''a'') \<in> set (execs (fst (across_HandleMessage sample_env sample_pool H (NewAcrossMessage 1 1 sample_request))))"
proof -
  have n: "across_notify sample_env H sample_request = ([], Ok sample_request)"
    by (simp add: across_notify_def sample_request_def)
  have r: "ah_repayers H (a_RepaymentChainID sample_request) = Some r"
    by (simp add: assms(3) sample_request_def)
  have f: "ah_fetch H (a_DepositTxHash sample_request) (a_DepositId sample_request) = Ok sample_deposit"
    by (simp add: assms(4) sample_request_def)
  have t: "BytesToAddress (eE sample_env) (InputToken sample_deposit) = [7]"
    by (simp add: sample_env_def sample_eth_def sample_deposit_def)
  have k: "across_check sample_env H sample_request sample_deposit = ([], Ok ())"
    unfolding across_check_def t
    by (simp add: run_bind_report ConfigByAddress_def ConfigBySymbol_def sample_request_def res_guard_def ScaleTokenAmount_def
      big_uint64_def assms)
      (simp add: sample_watcher_def sample_deposit_def ScaleTokenAmount_def assms)
  obtain u where u: "across_unlock_hash sample_env sample_pool H sample_request r sample_deposit = Ok u"
    by (simp add: across_unlock_hash_def Calldata_def sample_pool_def sample_env_def sample_request_def
        sample_deposit_def sample_hash)
  show ?thesis
    using sample_sign_execs
    by (simp add: across_HandleMessage_def NewAcrossMessage_def r n f u k run_bind_report run_bind_try split: prod.splits)
      (simp add: sample_request_def)
qed

lemma sample_across_exec:
  "\<exists>s. (s, ''a'') \<in> set (execs (fst (across_HandleMessage sample_env sample_pool sample_across
     (NewAcrossMessage 1 1 sample_request))))"
proof (rule sample_across_runs)
  show "ah_fetch sample_across [] (Some 5) = Ok sample_deposit"
    using sample_deposit_found [of sample_fetcher] by (simp add: sample_across_def sample_fetcher_def)
  show "ah_wait sample_across 1 [] [7] (Some 50000000) = Ok ()"
    using sample_confirmed_at [OF refl refl] by (simp add: sample_across_def await_Ok)
qed (simp_all add: sample_across_def)


text \<open>Every relayer works on the same request: what the relayer that the API asked broadcasts decodes,
  on the others, to the very data it works on itself, with itself as the coordinator.\<close>

theorem across_notify_roundtrip:
  assumes "across_notify V H d = (w, Ok d')" and "a_Coordinator d = []"
    and "text_ok (eJ V) (across_json (eE V) (eL V) d')" and "ids_ok (eL V) [host_ID (eHost V)]"
    and "eth_text_ok (eE V) [a_LiquidityPool d, a_Caller d] [a_DepositTxHash d]"
  shows "\<exists>m. w = [Notify m] \<and> unmarshal_across (eJ V) (eE V) (eL V) (body m) = Ok d'
    \<and> (session m, kind m) = across_Listen_session H \<and> a_Coordinator d' = host_ID (eHost V)
    \<and> d'\<lparr>a_Coordinator := []\<rparr> = d"
proof -
  have d': "d' = d\<lparr>a_Coordinator := host_ID (eHost V)\<rparr>"
    using assms(1,2) by (simp add: across_notify_def Let_def)
  have "unmarshal_across (eJ V) (eE V) (eL V) (jrender (eJ V) (across_json (eE V) (eL V) d')) = Ok d'"
    by (rule unmarshal_across_json) (use assms(3-5) in \<open>simp_all add: d'\<close>)
  then show ?thesis
    using assms(1,2) by (auto simp: across_notify_def Let_def across_Listen_session_def d')
qed

theorem across_notify_roundtrip_witness:
  "let d = sample_request\<lparr>a_Coordinator := []\<rparr>; d' = sample_request\<lparr>a_Coordinator := ''aaaaaaaa''\<rparr>;
       V = sample_env\<lparr>eJ := one_doc (across_json sample_eth raw_ids d') []\<rparr>
   in \<exists>m. fst (across_notify V sample_across d) = [Notify m]
        \<and> unmarshal_across (eJ V) (eE V) (eL V) (body m) = Ok d'"
proof -
  let ?d = "sample_request\<lparr>a_Coordinator := []\<rparr>" and ?d' = "sample_request\<lparr>a_Coordinator := ''aaaaaaaa''\<rparr>"
  let ?V = "sample_env\<lparr>eJ := one_doc (across_json sample_eth raw_ids ?d') []\<rparr>"
  have run: "across_notify ?V sample_across ?d = (fst (across_notify ?V sample_across ?d), Ok ?d')"
    by (simp add: across_notify_def sample_env_def sample_host_def)
  have "eth_text_ok sample_eth [a_LiquidityPool ?d, a_Caller ?d] [a_DepositTxHash ?d]"
    by (simp add: eth_text_ok_def sample_eth_def sample_request_def string_bytes_def char_of_def bit_Suc_0_iff)
  then show ?thesis
    unfolding Let_def using across_notify_roundtrip [OF run] by (simp add: sample_env_def) blast
qed

end
