(* ===== verification/Lifi.thy ===== *)
theory Lifi
  imports Across
begin

text \<open>
  LiFi: finding the open event of an order (\<open>protocol/lifi/event.go\<close>), the order API
  (\<open>protocol/lifi/api.go\<close>), the handler of escrow orders (\<open>chains/evm/message/lifiEscrow.go\<close>) and of
  unlocks (\<open>chains/evm/message/unlock.go\<close>). An order is a value of the lifi-solver library; the record
  \<open>lifi_order\<close> has the members that the code reads, and the library's own functions are arguments.
\<close>

record lifi_output =
  o_ChainID :: uint64
  Oracle :: "hash option"
  Settler :: "hash option"
  o_Recipient :: "hash option"
  o_Token :: "hash option"
  o_Amount :: int
  CallbackData :: string
  Context :: string

record lifi_order =
  lo_Inputs :: "(int \<times> int) list"
  lo_Outputs :: "lifi_output list"
  GenericInputs :: "(bytes \<times> int) list"
  lo_FillDeadline :: int
  OrderInitiatedTxHash :: "hash option"
  OnChainOrderID :: hash

record packed_output =
  po_Oracle :: hash
  po_Settler :: hash
  po_Recipient :: hash
  po_ChainId :: int
  po_Token :: hash
  po_Amount :: int
  po_CallbackData :: bytes
  po_Context :: bytes

record 'g lifi_lib =
  TotalInputsUSDValue :: "lifi_order \<Rightarrow> float64 res"
  AugmentedOrder :: "lifi_order \<Rightarrow> 'g res"
  Validate :: "'g \<Rightarrow> unit res"
  ParseOpenEvent :: "tx_log \<Rightarrow> string \<Rightarrow> lifi_order res"
  hexutil_Decode :: "string \<Rightarrow> bytes res"
  PackFillOrderOutputs :: "hash \<Rightarrow> packed_output list \<Rightarrow> int \<Rightarrow> bytes \<Rightarrow> bytes res"

section \<open>The open event\<close>

record event_fetcher =
  ef_receipt :: "hash \<Rightarrow> tx_log list res"
  inputSettler :: address

definition OpenEventTopic :: string where
  "OpenEventTopic = ''0x9ff74bd56d00785b881ef9fa3f03d7b598686a39a9bcff89a6008db588b18a7b''"

definition open_log :: "eth \<Rightarrow> event_fetcher \<Rightarrow> hash \<Rightarrow> tx_log \<Rightarrow> bool" where
  "open_log E F orderID l \<longleftrightarrow>
     \<not> Removed l \<and> \<not> length (Topics l) < 2 \<and> log_Address l = inputSettler F
     \<and> Topics l ! 0 = HexToHash E OpenEventTopic \<and> Topics l ! 1 = orderID"

definition fetchOpenEvent :: "eth \<Rightarrow> event_fetcher \<Rightarrow> hash \<Rightarrow> hash \<Rightarrow> tx_log res" where
  "fetchOpenEvent E F h orderID =
     res_bind (res_wrap ''no receipt found for hash'' (ef_receipt F h)) (\<lambda>logs.
     of_option (Errorf ''order not found'') (find (open_log E F orderID) logs))"

definition Order :: "eth \<Rightarrow> 'g lifi_lib \<Rightarrow> event_fetcher \<Rightarrow> hash \<Rightarrow> hash \<Rightarrow> lifi_order res" where
  "Order E B F h orderID =
     res_bind (fetchOpenEvent E F h orderID) (\<lambda>l. ParseOpenEvent B l (Hex E (inputSettler F)))"

section \<open>The order API\<close>

text \<open>\<open>of_json\<close> is \<open>LifiOrder\<close>'s own decoding.\<close>

definition GetOrder :: "(string \<Rightarrow> http_response res) \<Rightarrow> (bytes \<Rightarrow> lifi_order res) \<Rightarrow> string \<Rightarrow> lifi_order res" where
  "GetOrder get of_json orderID =
     (let url = ''https://order.li.fi/orders/status?onChainOrderId='' @ orderID in
      res_bind (res_wrap ''request failed'' (get url)) (\<lambda>resp.
      res_bind (res_guard (StatusCode resp = 200) (Errorf (''unexpected status code: '' @ show_int (StatusCode resp)
          @ '', '' @ url))) (\<lambda>_.
      res_bind (res_wrap ''failed to read response body'' (http_Body resp)) (\<lambda>b.
      res_wrap ''failed to unmarshal JSON'' (of_json b)))))"

section \<open>Escrow orders\<close>

record 'g escrow_handler =
  eh_chainID :: uint64
  eh_lib :: "'g lifi_lib"
  eh_addresses :: "uint64 \<rightharpoonup> address"
  eh_tokens :: token_store
  eh_mpcAddress :: address
  eh_order :: "hash \<Rightarrow> hash \<Rightarrow> lifi_order res"
  eh_wait :: "uint64 \<Rightarrow> hash \<Rightarrow> float64 \<Rightarrow> unit res"

definition escrow_notify :: "'k env \<Rightarrow> 'g escrow_handler \<Rightarrow> lifi_escrow_data \<Rightarrow> ('k, lifi_escrow_data) run" where
  "escrow_notify V H d =
     (if e_Coordinator d \<noteq> [] then ([], Ok d)
      else let d' = d\<lparr>e_Coordinator := host_ID (eHost V)\<rparr>
           in ([Notify \<lparr>to = Peerstore (eHost V), body = jrender (eJ V) (lifi_escrow_json (eE V) (eL V) d'),
                        kind = LifiEscrowMsg, session = chain_session (eh_chainID H) LifiEscrowSessionID\<rparr>], Ok d'))"

definition verifyOrder :: "eth \<Rightarrow> 'g escrow_handler \<Rightarrow> lifi_order \<Rightarrow> int option \<Rightarrow> unit res" where
  "verifyOrder E H order borrowAmount =
     res_bind (res_guard (length (lo_Inputs order) = 1) (Errorf ''orders with multiple inputs not supported'')) (\<lambda>_.
     res_bind (res_guard (\<not> length (lo_Outputs order) > 1) (Errorf ''orders with multiple outputs not supported'')) (\<lambda>_.
     res_bind (at_index (GenericInputs order) 0) (\<lambda>(token, amount).
     res_bind (ConfigByAddress (eh_tokens H) (eh_chainID H) (BytesToAddress E token)) (\<lambda>(symbol, src).
     res_bind (at_index (lo_Outputs order) 0) (\<lambda>out.
     res_bind (ConfigBySymbol (eh_tokens H) (o_ChainID out) symbol) (\<lambda>dst.
     res_bind (deref borrowAmount) (\<lambda>b.
     res_bind (res_guard (\<not> ScaleTokenAmount amount (int (Decimals src)) (int (Decimals dst)) < b)
         (Errorf ''order input is less than requested borrow amount'')) (\<lambda>_.
     res_bind (AugmentedOrder (eh_lib H) order) (Validate (eh_lib H))))))))))"

definition borrowToken :: "eth \<Rightarrow> 'g escrow_handler \<Rightarrow> lifi_order \<Rightarrow> (address \<times> uint64) res" where
  "borrowToken E H order =
     res_bind (at_index (lo_Outputs order) 0) (\<lambda>out.
     res_bind (at_index (GenericInputs order) 0) (\<lambda>(token, _).
     res_bind (ConfigByAddress (eh_tokens H) (eh_chainID H) (BytesToAddress E token)) (\<lambda>(symbol, _).
     res_bind (ConfigBySymbol (eh_tokens H) (o_ChainID out) symbol) (\<lambda>c.
     Ok (tc_Address c, o_ChainID out)))))"

definition pack_output :: "'g lifi_lib \<Rightarrow> lifi_output \<Rightarrow> packed_output res" where
  "pack_output B o' =
     res_bind (hexutil_Decode B (CallbackData o')) (\<lambda>callbackData.
     res_bind (hexutil_Decode B (Context o')) (\<lambda>ctx.
     res_bind (deref (Oracle o')) (\<lambda>oracle.
     res_bind (deref (Settler o')) (\<lambda>settler.
     res_bind (deref (o_Recipient o')) (\<lambda>recipient.
     res_bind (deref (o_Token o')) (\<lambda>token.
     Ok \<lparr>po_Oracle = oracle, po_Settler = settler, po_Recipient = recipient, po_ChainId = uint (o_ChainID o'),
         po_Token = token, po_Amount = o_Amount o', po_CallbackData = callbackData, po_Context = ctx\<rparr>))))))"

definition escrow_calldata :: "eth \<Rightarrow> 'g escrow_handler \<Rightarrow> lifi_order \<Rightarrow> bytes res" where
  "escrow_calldata E H order =
     res_bind (res_map (pack_output (eh_lib H)) (lo_Outputs order)) (\<lambda>outputs.
     PackFillOrderOutputs (eh_lib H) (OnChainOrderID order) outputs (lo_FillDeadline order)
       (HexToHash E (Hex E (eh_mpcAddress H))))"

text \<open>The checks up to the report; the token to borrow and its chain.\<close>

definition escrow_check ::
  "'k env \<Rightarrow> 'g escrow_handler \<Rightarrow> lifi_escrow_data \<Rightarrow> lifi_order \<Rightarrow> ('k, address \<times> uint64) run" where
  "escrow_check V H data order =
     run_bind (try_report (verifyOrder (eE V) H order (e_BorrowAmount data))) (\<lambda>_.
     run_bind (try_report (TotalInputsUSDValue (eh_lib H) order)) (\<lambda>orderVal.
     run_bind (try_report (borrowToken (eE V) H order)) (\<lambda>tokenChain.
     run_bind (try_report (deref (OrderInitiatedTxHash order))) (\<lambda>txHash.
     run_bind (try_report (eh_wait H (eh_chainID H) txHash orderVal)) (\<lambda>_.
     try_report (Ok tokenChain))))))"

definition escrow_unlock_hash ::
  "'k env \<Rightarrow> 'g escrow_handler \<Rightarrow> lifi_escrow_data \<Rightarrow> lifi_order \<Rightarrow> address \<times> uint64 \<Rightarrow> bytes res" where
  "escrow_unlock_hash V H data order tokenChain =
     (case tokenChain of (token, destChainID) \<Rightarrow>
        res_bind (escrow_calldata (eE V) H order) (\<lambda>calldata.
        BorrowUnlockHash (eE V) calldata (e_BorrowAmount data) token (Some (uint destChainID))
          (map_get (eh_addresses H) destChainID) (e_Deadline data) (e_Caller data) (e_LiquidityPool data)
          (e_Nonce data)))"

definition escrow_HandleMessage ::
  "'k env \<Rightarrow> 'g escrow_handler \<Rightarrow> lifi_escrow_data relayer_message \<Rightarrow> ('k, unit) run" where
  "escrow_HandleMessage V H m =
     run_bind (escrow_notify V H (m_Data m)) (\<lambda>data.
     run_bind (try_report (eh_order H (HexToHash (eE V) (e_DepositTxHash data)) (HexToHash (eE V) (e_OrderID data)))) (\<lambda>order.
     run_bind (escrow_check V H data order) (\<lambda>tokenChain.
     run_bind (emit (Report None)) (\<lambda>_.
     run_bind (try_run (escrow_unlock_hash V H data order tokenChain)) (\<lambda>unlockHash.
     sign_and_execute V unlockHash (chain_session (eh_chainID H) (e_OrderID data)) (e_Coordinator data))))))"

definition escrow_on_message ::
  "'k env \<Rightarrow> 'g escrow_handler \<Rightarrow> wrapped_message \<Rightarrow> ('k, unit) run" where
  "escrow_on_message V H wMsg =
     (case unmarshal_lifi_escrow (eJ V) (eE V) (eL V) (Payload wMsg) of
        Ok d \<Rightarrow> escrow_HandleMessage V H (NewLifiEscrowMessage (e_Source d) (e_Destination d) d)
      | _ \<Rightarrow> ([], Ok ()))"

section \<open>Unlocks\<close>

record unlock_handler =
  uh_chainID :: uint64
  uh_repayers :: "uint64 \<rightharpoonup> address"

definition unlock_notify :: "'k env \<Rightarrow> unlock_handler \<Rightarrow> lifi_unlock_data \<Rightarrow> ('k, lifi_unlock_data) run" where
  "unlock_notify V H d =
     (if u_Coordinator d \<noteq> [] then ([], Ok d)
      else let d' = d\<lparr>u_Coordinator := host_ID (eHost V)\<rparr>
           in ([Notify \<lparr>to = Peerstore (eHost V), body = jrender (eJ V) (lifi_unlock_json (eE V) (eL V) d'),
                        kind = LifiUnlockMsg, session = chain_session (uh_chainID H) LifiUnlockSessionID\<rparr>], Ok d'))"

definition allow_open_data :: "eth \<Rightarrow> uint64 \<Rightarrow> address \<Rightarrow> lifi_unlock_data \<Rightarrow> typed_data" where
  "allow_open_data E chainID repaymentAddress data =
     \<lparr>Types = [(''EIP712Domain'', domain_types),
        (''AllowOpen'', [(''orderId'', ''bytes32''), (''destination'', ''bytes32''), (''call'', ''bytes'')])],
      PrimaryType = ''AllowOpen'',
      Domain = \<lparr>dom_Name = ''OIFEscrowLIFI'', dom_ChainId = uint chainID, dom_Version = ''1'',
                VerifyingContract = Hex E (u_Settler data)\<rparr>,
      Message = [(''orderId'', TVBytes (HexToHash E (u_OrderID data))),
                 (''destination'', TVBytes (HexToHash E (Hex E repaymentAddress))), (''call'', TVString ''0x'')]\<rparr>"

definition lifiUnlockHash :: "eth \<Rightarrow> unlock_handler \<Rightarrow> lifi_unlock_data \<Rightarrow> bytes res" where
  "lifiUnlockHash E H data =
     (case uh_repayers H (uh_chainID H) of
        None \<Rightarrow> Fail (Errorf (''invalid repayment chain '' @ show_nat (unat (uh_chainID H))))
      | Some repaymentAddress \<Rightarrow>
          res_bind (eip712 E (allow_open_data E (uh_chainID H) repaymentAddress data)) (\<lambda>rawData.
          Ok (Keccak256 E rawData)))"

definition unlock_HandleMessage ::
  "'k env \<Rightarrow> unlock_handler \<Rightarrow> lifi_unlock_data relayer_message \<Rightarrow> ('k, unit) run" where
  "unlock_HandleMessage V H m =
     run_bind (unlock_notify V H (m_Data m)) (\<lambda>data.
     run_bind (try_run (lifiUnlockHash (eE V) H data)) (\<lambda>unlockHash.
     sign_and_execute V unlockHash (chain_session (uh_chainID H) (u_OrderID data)) (u_Coordinator data)))"

definition unlock_on_message :: "'k env \<Rightarrow> unlock_handler \<Rightarrow> wrapped_message \<Rightarrow> ('k, unit) run" where
  "unlock_on_message V H wMsg =
     (case unmarshal_lifi_unlock (eJ V) (eE V) (eL V) (Payload wMsg) of
        Ok d \<Rightarrow> unlock_HandleMessage V H (NewLifiUnlockMessage (u_Source d) (u_Destination d) d)
      | _ \<Rightarrow> ([], Ok ()))"

section \<open>Lemmas\<close>

lemma escrow_notify_run:
  "\<exists>w. escrow_notify V H d = (w, Ok (d\<lparr>e_Coordinator := if e_Coordinator d \<noteq> [] then e_Coordinator d else host_ID (eHost V)\<rparr>))
     \<and> reports w = [] \<and> execs w = []"
  by (simp add: escrow_notify_def Let_def)

lemma unlock_notify_run:
  "\<exists>w. unlock_notify V H d = (w, Ok (d\<lparr>u_Coordinator := if u_Coordinator d \<noteq> [] then u_Coordinator d else host_ID (eHost V)\<rparr>))
     \<and> reports w = [] \<and> execs w = []"
  by (simp add: unlock_notify_def Let_def)

lemma checks_escrow_check: "checks (escrow_check V H data order)"
  unfolding escrow_check_def by (intro run_intros)

lemma proper_escrow: "proper (escrow_HandleMessage V H m)"
proof -
  obtain w d where "escrow_notify V H (m_Data m) = (w, Ok d)" "reports w = []" "execs w = []"
    using escrow_notify_run by metis
  then show ?thesis
    unfolding escrow_HandleMessage_def
    by (simp only:) (intro run_intros checks_escrow_check; assumption)
qed

lemma escrow_exec:
  assumes "(s, c) \<in> set (execs (fst (escrow_HandleMessage V H m)))"
  shows "\<exists>data order tc u. data = (m_Data m)\<lparr>e_Coordinator := c\<rparr>
   \<and> eh_order H (HexToHash (eE V) (e_DepositTxHash data)) (HexToHash (eE V) (e_OrderID data)) = Ok order
   \<and> snd (escrow_check V H data order) = Ok tc \<and> escrow_unlock_hash V H data order tc = Ok u
   \<and> smsg s = be_nat u \<and> SID s = chain_session (eh_chainID H) (e_OrderID data)
   \<and> c = (if e_Coordinator (m_Data m) \<noteq> [] then e_Coordinator (m_Data m) else host_ID (eHost V))"
proof -
  obtain w data where w: "escrow_notify V H (m_Data m) = (w, Ok data)" "execs w = []"
    "data = (m_Data m)\<lparr>e_Coordinator := e_Coordinator data\<rparr>"
    "e_Coordinator data = (if e_Coordinator (m_Data m) \<noteq> [] then e_Coordinator (m_Data m) else host_ID (eHost V))"
    using escrow_notify_run [of V H "m_Data m"] by fastforce
  obtain order tc u where x:
    "eh_order H (HexToHash (eE V) (e_DepositTxHash data)) (HexToHash (eE V) (e_OrderID data)) = Ok order"
    "snd (escrow_check V H data order) = Ok tc" "escrow_unlock_hash V H data order tc = Ok u"
    "(s, c) \<in> set (execs (fst (sign_and_execute V u
       (chain_session (eh_chainID H) (e_OrderID data)) (e_Coordinator data))))"
    using assms
    by (auto simp: escrow_HandleMessage_def w(1) execs_bind_notify [OF w(2)] execs_bind
        execs_checks [OF checks_escrow_check] simp del: run_bind_emit run_bind.simps)
  note se = sign_and_execute_execs [OF x(4)]
  have "data = (m_Data m)\<lparr>e_Coordinator := c\<rparr>" using w(3) se by simp
  moreover have "c = (if e_Coordinator (m_Data m) \<noteq> [] then e_Coordinator (m_Data m) else host_ID (eHost V))"
    using w(4) se by simp
  ultimately show ?thesis using x se by blast
qed

lemma unlock_exec:
  assumes "(s, c) \<in> set (execs (fst (unlock_HandleMessage V H m)))"
  shows "\<exists>u. lifiUnlockHash (eE V) H ((m_Data m)\<lparr>u_Coordinator := c\<rparr>) = Ok u \<and> smsg s = be_nat u
    \<and> SID s = chain_session (uh_chainID H) (u_OrderID (m_Data m))
   \<and> c = (if u_Coordinator (m_Data m) \<noteq> [] then u_Coordinator (m_Data m) else host_ID (eHost V))"
proof -
  obtain w data where w: "unlock_notify V H (m_Data m) = (w, Ok data)" "execs w = []"
    "data = (m_Data m)\<lparr>u_Coordinator := u_Coordinator data\<rparr>"
    "u_Coordinator data = (if u_Coordinator (m_Data m) \<noteq> [] then u_Coordinator (m_Data m) else host_ID (eHost V))"
    using unlock_notify_run [of V H "m_Data m"] by fastforce
  obtain u where x: "lifiUnlockHash (eE V) H data = Ok u"
    "(s, c) \<in> set (execs (fst (sign_and_execute V u
       (chain_session (uh_chainID H) (u_OrderID data)) (u_Coordinator data))))"
    using assms
    by (auto simp: unlock_HandleMessage_def w(1) execs_bind_notify [OF w(2)] execs_bind
        simp del: run_bind_emit run_bind.simps)
  note se = sign_and_execute_execs [OF x(2)]
  have d: "data = (m_Data m)\<lparr>u_Coordinator := c\<rparr>" using w(3) se by simp
  then have "u_OrderID data = u_OrderID (m_Data m)" by simp
  moreover have "lifiUnlockHash (eE V) H ((m_Data m)\<lparr>u_Coordinator := c\<rparr>) = Ok u"
    using x(1) by (simp only: d [symmetric])
  ultimately show ?thesis using se w(4) by auto
qed

lemma verifyOrder_Ok:
  assumes "verifyOrder E H order amount = Ok ()"
  shows "\<exists>out token inAmount symbol src dst b g. lo_Outputs order = [out] \<and> length (lo_Inputs order) = 1
   \<and> GenericInputs order \<noteq> [] \<and> hd (GenericInputs order) = (token, inAmount) \<and> amount = Some b
   \<and> ConfigByAddress (eh_tokens H) (eh_chainID H) (BytesToAddress E token) = Ok (symbol, src)
   \<and> ConfigBySymbol (eh_tokens H) (o_ChainID out) symbol = Ok dst
   \<and> b \<le> ScaleTokenAmount inAmount (int (Decimals src)) (int (Decimals dst))
   \<and> AugmentedOrder (eh_lib H) order = Ok g \<and> Validate (eh_lib H) g = Ok ()"
proof -
  have len: "length (lo_Inputs order) = 1" "\<not> length (lo_Outputs order) > 1"
    using assms by (simp_all add: verifyOrder_def res_bind_Ok_iff res_guard_iff)
  obtain token inAmount rest where gi: "GenericInputs order = (token, inAmount) # rest"
    using assms len by (cases "GenericInputs order") (auto simp: verifyOrder_def at_index_def res_guard_def)
  obtain symbol src where cfg:
    "ConfigByAddress (eh_tokens H) (eh_chainID H) (BytesToAddress E token) = Ok (symbol, src)"
    using assms len gi
    by (cases "ConfigByAddress (eh_tokens H) (eh_chainID H) (BytesToAddress E token)")
      (auto simp: verifyOrder_def at_index_def res_guard_def)
  obtain out where out: "lo_Outputs order = [out]"
    using assms len gi cfg
    by (cases "lo_Outputs order") (auto simp: verifyOrder_def at_index_def res_guard_def)
  have rest: "res_bind (ConfigBySymbol (eh_tokens H) (o_ChainID out) symbol) (\<lambda>dst.
     res_bind (deref amount) (\<lambda>b.
     res_bind (res_guard (\<not> ScaleTokenAmount inAmount (int (Decimals src)) (int (Decimals dst)) < b)
         (Errorf ''order input is less than requested borrow amount'')) (\<lambda>_.
     res_bind (AugmentedOrder (eh_lib H) order) (Validate (eh_lib H))))) = Ok ()"
    using assms len by (simp add: verifyOrder_def gi cfg out at_index_def res_guard_def)
  show ?thesis
    using rest len(1) gi cfg out by (auto simp: res_simps)
qed

lemma find_in: "find P xs = Some x \<Longrightarrow> x \<in> set xs \<and> P x"
  by (induction xs) (auto split: if_splits)

section \<open>The contracts it keeps\<close>

interpretation escrow: reporting "escrow_HandleMessage V H" for V H
  by unfold_locales (rule proper_escrow)

text \<open>The message that announces a request, and the requests that survive it.\<close>

definition escrow_announce :: "'k env \<Rightarrow> 'g escrow_handler \<Rightarrow> lifi_escrow_data \<Rightarrow> send" where
  "escrow_announce V H d =
     \<lparr>to = Peerstore (eHost V), body = jrender (eJ V) (lifi_escrow_json (eE V) (eL V) d), kind = LifiEscrowMsg, session = chain_session (eh_chainID H) LifiEscrowSessionID\<rparr>"

definition escrow_fits :: "'k env \<Rightarrow> lifi_escrow_data \<Rightarrow> bool" where
  "escrow_fits V d \<longleftrightarrow> text_ok (eJ V) (lifi_escrow_json (eE V) (eL V) d) \<and> ids_ok (eL V) [e_Coordinator d]
     \<and> eth_text_ok (eE V) [e_LiquidityPool d, e_Caller d] []"

interpretation escrow_relay: broadcasting
  "\<lambda>d. escrow_HandleMessage V H (NewLifiEscrowMessage (e_Source d) (e_Destination d) d)" "escrow_announce V H"
  "\<lambda>d. d\<lparr>e_Coordinator := host_ID (eHost V)\<rparr>" "unmarshal_lifi_escrow (eJ V) (eE V) (eL V)" "escrow_fits V" "same_encoding V W"
  "\<lambda>b. escrow_on_message W H' \<lparr>MessageType = LifiEscrowMsg, SessionID = sess, Payload = b, From = q\<rparr>"
  "\<lambda>d. escrow_HandleMessage W H' (NewLifiEscrowMessage (e_Source d) (e_Destination d) d)"
  for V H W H' sess q
proof (unfold_locales, goal_cases)
  case (1 n d)
  then have "Notify n \<in> set (fst (escrow_notify V H d))"
    unfolding escrow_HandleMessage_def NewLifiEscrowMessage_def relayer_message.select_convs
    by (rule notify_first) (intro mute_intros checks_escrow_check)
  then show ?case by (simp add: escrow_notify_def escrow_announce_def Let_def split: if_splits)
next
  case (2 d)
  then show ?case by (simp add: escrow_announce_def escrow_fits_def unmarshal_lifi_escrow_json)
next
  case (3 b d)
  then show ?case by (simp add: escrow_on_message_def same_encoding_def)
qed

text \<open>The message that announces a request, and the requests that survive it.\<close>

definition unlock_announce :: "'k env \<Rightarrow> unlock_handler \<Rightarrow> lifi_unlock_data \<Rightarrow> send" where
  "unlock_announce V H d =
     \<lparr>to = Peerstore (eHost V), body = jrender (eJ V) (lifi_unlock_json (eE V) (eL V) d), kind = LifiUnlockMsg, session = chain_session (uh_chainID H) LifiUnlockSessionID\<rparr>"

definition unlock_fits :: "'k env \<Rightarrow> lifi_unlock_data \<Rightarrow> bool" where
  "unlock_fits V d \<longleftrightarrow> text_ok (eJ V) (lifi_unlock_json (eE V) (eL V) d) \<and> ids_ok (eL V) [u_Coordinator d]
     \<and> eth_text_ok (eE V) [u_Settler d] []"

interpretation unlock_relay: broadcasting
  "\<lambda>d. unlock_HandleMessage V H (NewLifiUnlockMessage (u_Source d) (u_Destination d) d)" "unlock_announce V H"
  "\<lambda>d. d\<lparr>u_Coordinator := host_ID (eHost V)\<rparr>" "unmarshal_lifi_unlock (eJ V) (eE V) (eL V)" "unlock_fits V" "same_encoding V W"
  "\<lambda>b. unlock_on_message W H' \<lparr>MessageType = LifiUnlockMsg, SessionID = sess, Payload = b, From = q\<rparr>"
  "\<lambda>d. unlock_HandleMessage W H' (NewLifiUnlockMessage (u_Source d) (u_Destination d) d)"
  for V H W H' sess q
proof (unfold_locales, goal_cases)
  case (1 n d)
  then have "Notify n \<in> set (fst (unlock_notify V H d))"
    unfolding unlock_HandleMessage_def NewLifiUnlockMessage_def relayer_message.select_convs
    by (rule notify_first) (intro mute_intros)
  then show ?case by (simp add: unlock_notify_def unlock_announce_def Let_def split: if_splits)
next
  case (2 d)
  then show ?case by (simp add: unlock_announce_def unlock_fits_def unmarshal_lifi_unlock_json)
next
  case (3 b d)
  then show ?case by (simp add: unlock_on_message_def same_encoding_def)
qed

section \<open>Properties\<close>


text \<open>The two signatures that an order needs get in each other's way: the borrow signature and the
  unlock signature of an order on a chain are signed, and then distributed and cached, under one
  and the same session, although they are signatures of different messages.\<close>

theorem lifi_sessions_collide:
  assumes "(s, c) \<in> set (execs (fst (escrow_HandleMessage V H m)))"
    and "(s', c') \<in> set (execs (fst (unlock_HandleMessage V' H' m')))"
    and "eh_chainID H = uh_chainID H'" and "e_OrderID (m_Data m) = u_OrderID (m_Data m')"
  shows "SID s = SID s'"
proof -
  have "SID s = chain_session (eh_chainID H) (e_OrderID (m_Data m))"
    using escrow_exec [OF assms(1)] by auto
  moreover have "SID s' = chain_session (uh_chainID H') (u_OrderID (m_Data m'))"
    using unlock_exec [OF assms(2)] by blast
  ultimately show ?thesis using assms(3,4) by simp
qed

text \<open>An order with one input and one output, and its open event.\<close>

definition sample_order :: lifi_order where
  "sample_order = \<lparr>lo_Inputs = [(1, 2)], lo_Outputs = [\<lparr>o_ChainID = 1, Oracle = Some [1], Settler = Some [2],
       o_Recipient = Some [3], o_Token = Some [7], o_Amount = 40, CallbackData = [], Context = []\<rparr>],
     GenericInputs = [([7], 50)], lo_FillDeadline = 9, OrderInitiatedTxHash = Some [5], OnChainOrderID = [6]\<rparr>"

definition sample_lifi :: "unit lifi_lib" where
  "sample_lifi = \<lparr>TotalInputsUSDValue = (\<lambda>_. Ok (F64 False 50 0)), AugmentedOrder = (\<lambda>_. Ok ()), Validate = (\<lambda>_. Ok ()),
     ParseOpenEvent = (\<lambda>_ _. Ok sample_order), hexutil_Decode = (\<lambda>_. Ok []), PackFillOrderOutputs = (\<lambda>_ _ _ _. Ok [6])\<rparr>"

definition sample_open :: tx_log where
  "sample_open = \<lparr>Removed = False, Topics = [string_bytes OpenEventTopic, string_bytes ''x''], log_Data = [],
     log_Address = [8]\<rparr>"

definition sample_events :: event_fetcher where
  "sample_events = \<lparr>ef_receipt = (\<lambda>_. Ok [sample_open]), inputSettler = [8]\<rparr>"

definition sample_escrow :: "unit escrow_handler" where
  "sample_escrow = \<lparr>eh_chainID = 1, eh_lib = sample_lifi, eh_addresses = [1 \<mapsto> [2]], eh_tokens = tokenStore sample_watcher,
     eh_mpcAddress = [3], eh_order = Order sample_eth sample_lifi sample_events, eh_wait = (\<lambda>_ _ _. Ok ())\<rparr>"

definition sample_escrow_data :: lifi_escrow_data where
  "sample_escrow_data = \<lparr>e_OrderID = ''x'', e_Coordinator = ''a'', e_LiquidityPool = [2], e_Caller = [3],
     e_DepositTxHash = ''t'', e_BorrowAmount = Some 40, e_Deadline = 9, e_Nonce = Some 1, e_Source = 1, e_Destination = 1\<rparr>"

definition sample_unlock_data :: lifi_unlock_data where
  "sample_unlock_data = \<lparr>u_OrderID = ''x'', u_Settler = [8], u_Coordinator = ''a'', u_Source = 1, u_Destination = 1\<rparr>"

lemma sample_escrow_exec:
  "\<exists>s. (s, ''a'') \<in> set (execs (fst (escrow_HandleMessage sample_env sample_escrow
     (NewLifiEscrowMessage 1 1 sample_escrow_data))))"
proof -
  have n: "escrow_notify sample_env sample_escrow sample_escrow_data = ([], Ok sample_escrow_data)"
    by (simp add: escrow_notify_def sample_escrow_data_def)
  have env: "eE sample_env = sample_eth" by (simp add: sample_env_def)
  have eth: "HexToHash sample_eth = string_bytes" "BytesToAddress sample_eth [7] = [7]"
    by (simp_all add: sample_eth_def)
  have o: "eh_order sample_escrow (string_bytes (e_DepositTxHash sample_escrow_data))
      (string_bytes (e_OrderID sample_escrow_data)) = Ok sample_order"
    by (simp add: sample_escrow_def Order_def fetchOpenEvent_def sample_events_def open_log_def sample_open_def eth
        sample_lifi_def sample_escrow_data_def)
  have cfg: "ConfigByAddress (eh_tokens sample_escrow) (eh_chainID sample_escrow) [7] = Ok (''USDC'', \<lparr>tc_Address = [7], Decimals = 6\<rparr>)"
    "ConfigBySymbol (eh_tokens sample_escrow) 1 ''USDC'' = Ok \<lparr>tc_Address = [7], Decimals = 6\<rparr>"
    by (simp_all add: sample_escrow_def sample_watcher_def ConfigByAddress_def ConfigBySymbol_def)
  have lib: "eh_lib sample_escrow = sample_lifi" "eh_wait sample_escrow = (\<lambda>_ _ _. Ok ())"
    by (simp_all add: sample_escrow_def)
  have "verifyOrder sample_eth sample_escrow sample_order (Some 40) = Ok ()"
    "borrowToken sample_eth sample_escrow sample_order = Ok ([7], 1)"
    by (simp_all add: verifyOrder_def borrowToken_def sample_order_def at_index_def eth cfg ScaleTokenAmount_def
        res_guard_def lib) (simp add: sample_lifi_def)
  then have c: "escrow_check sample_env sample_escrow sample_escrow_data sample_order = ([], Ok ([7], 1))"
    by (simp add: escrow_check_def run_bind_report env lib)
      (simp add: sample_escrow_data_def sample_lifi_def sample_order_def)
  obtain u where u: "escrow_unlock_hash sample_env sample_escrow sample_escrow_data sample_order ([7], 1) = Ok u"
    by (simp add: escrow_unlock_hash_def escrow_calldata_def env lib sample_order_def sample_lifi_def pack_output_def
        sample_escrow_data_def sample_hash)
  show ?thesis
    using sample_sign_execs
    by (simp add: escrow_HandleMessage_def NewLifiEscrowMessage_def n c u env eth o run_bind_report run_bind_try split: prod.splits)
      (simp add: sample_escrow_data_def)
qed


theorem lifi_sessions_collide_witness:
  "\<exists>s s'. (s, ''a'') \<in> set (execs (fst (escrow_HandleMessage sample_env sample_escrow
       (NewLifiEscrowMessage 1 1 sample_escrow_data))))
   \<and> (s', ''a'') \<in> set (execs (fst (unlock_HandleMessage sample_env \<lparr>uh_chainID = 1, uh_repayers = [1 \<mapsto> [4]]\<rparr>
       (NewLifiUnlockMessage 1 1 sample_unlock_data)))) \<and> SID s = SID s'"
proof -
  let ?H = "\<lparr>uh_chainID = 1, uh_repayers = [1 \<mapsto> [4]]\<rparr>"
  obtain s where s: "(s, ''a'') \<in> set (execs (fst (escrow_HandleMessage sample_env sample_escrow
       (NewLifiEscrowMessage 1 1 sample_escrow_data))))"
    using sample_escrow_exec by blast
  have n: "unlock_notify sample_env ?H sample_unlock_data = ([], Ok sample_unlock_data)"
    by (simp add: unlock_notify_def sample_unlock_data_def)
  obtain u where u: "lifiUnlockHash (eE sample_env) ?H sample_unlock_data = Ok u"
    by (simp add: lifiUnlockHash_def eip712_def allow_open_data_def sample_env_def sample_eth_def sample_hash_struct_def)
  obtain s' where s': "(s', ''a'') \<in> set (execs (fst (unlock_HandleMessage sample_env ?H
       (NewLifiUnlockMessage 1 1 sample_unlock_data))))"
    using sample_sign_execs [of "''a''" u "chain_session 1 ''x''"]
    by (simp add: unlock_HandleMessage_def NewLifiUnlockMessage_def n u run_bind_try split: prod.splits)
      (auto simp: sample_unlock_data_def)
  have "SID s = SID s'"
    by (rule lifi_sessions_collide [OF s s'])
      (simp_all add: sample_escrow_def NewLifiEscrowMessage_def NewLifiUnlockMessage_def sample_escrow_data_def
        sample_unlock_data_def)
  then show ?thesis using s s' by blast
qed

end
