(* ===== verification/Sprinter.thy ===== *)
theory Sprinter
  imports Lifi
begin

text \<open>
  The handler of sprinter credit requests, \<open>chains/evm/message/sprinter.go\<close>: the calldata comes with
  the request, and the target is the liquidator configured for the token.
\<close>

record sprinter_handler =
  sh_chainID :: uint64
  sh_liquidators :: "address \<rightharpoonup> address"

definition sprinter_notify ::
  "'k env \<Rightarrow> sprinter_handler \<Rightarrow> sprinter_credit_data \<Rightarrow> ('k, sprinter_credit_data) run" where
  "sprinter_notify V H d =
     (if s_Coordinator d \<noteq> [] then ([], Ok d)
      else let d' = d\<lparr>s_Coordinator := host_ID (eHost V)\<rparr>
           in ([Notify \<lparr>to = Peerstore (eHost V), body = jrender (eJ V) (sprinter_json (eE V) (eL V) d'),
                        kind = SprinterCreditMsg, session = chain_session (sh_chainID H) SprinterCreditSessionID\<rparr>], Ok d'))"

definition sprinter_unlock_hash ::
  "eth \<Rightarrow> sprinter_handler \<Rightarrow> sprinter_credit_data \<Rightarrow> bytes \<Rightarrow> address \<Rightarrow> bytes res" where
  "sprinter_unlock_hash E H data calldata liquidator =
     BorrowUnlockHash E calldata (s_BorrowAmount data) (HexToAddress E (s_TokenOut data))
       (Some (uint (sh_chainID H))) liquidator (s_Deadline data) (s_Caller data) (s_LiquidityPool data) (s_Nonce data)"

definition sprinter_HandleMessage ::
  "'k env \<Rightarrow> sprinter_handler \<Rightarrow> sprinter_credit_data relayer_message \<Rightarrow> ('k, unit) run" where
  "sprinter_HandleMessage V H m =
     run_bind (sprinter_notify V H (m_Data m)) (\<lambda>data.
     run_bind (try_report (of_option (Errorf ''encoding/hex: invalid'') (hex_decode (s_Calldata data)))) (\<lambda>calldata.
     run_bind (try_report (of_option (Errorf (''no liquidator for token '' @ s_TokenOut data))
        (sh_liquidators H (HexToAddress (eE V) (s_TokenOut data))))) (\<lambda>liquidator.
     run_bind (try_report (sprinter_unlock_hash (eE V) H data calldata liquidator)) (\<lambda>unlockHash.
     run_bind (emit (Report None)) (\<lambda>_.
     sign_and_execute V unlockHash (chain_session (sh_chainID H) (s_DepositID data)) (s_Coordinator data))))))"

definition sprinter_on_message ::
  "'k env \<Rightarrow> sprinter_handler \<Rightarrow> wrapped_message \<Rightarrow> ('k, unit) run" where
  "sprinter_on_message V H wMsg =
     (case unmarshal_sprinter (eJ V) (eE V) (eL V) (Payload wMsg) of
        Ok d \<Rightarrow> sprinter_HandleMessage V H (NewSprinterCreditMessage (s_Source d) (s_Destination d) d)
      | _ \<Rightarrow> ([], Ok ()))"

section \<open>Lemmas\<close>

lemma sprinter_notify_run:
  "\<exists>w. sprinter_notify V H d = (w, Ok (d\<lparr>s_Coordinator := if s_Coordinator d \<noteq> [] then s_Coordinator d else host_ID (eHost V)\<rparr>))
     \<and> reports w = [] \<and> execs w = []"
  by (simp add: sprinter_notify_def Let_def)

lemma proper_sprinter: "proper (sprinter_HandleMessage V H m)"
proof -
  obtain w d where "sprinter_notify V H (m_Data m) = (w, Ok d)" "reports w = []" "execs w = []"
    using sprinter_notify_run by metis
  then show ?thesis
    unfolding sprinter_HandleMessage_def by (simp only:) (intro run_intros; assumption)
qed

lemma sprinter_exec:
  assumes "(s, c) \<in> set (execs (fst (sprinter_HandleMessage V H m)))"
  shows "\<exists>calldata liquidator u. hex_decode (s_Calldata (m_Data m)) = Some calldata
    \<and> sh_liquidators H (HexToAddress (eE V) (s_TokenOut (m_Data m))) = Some liquidator
    \<and> sprinter_unlock_hash (eE V) H (m_Data m) calldata liquidator = Ok u \<and> smsg s = be_nat u
    \<and> SID s = chain_session (sh_chainID H) (s_DepositID (m_Data m))
   \<and> c = (if s_Coordinator (m_Data m) \<noteq> [] then s_Coordinator (m_Data m) else host_ID (eHost V))"
proof -
  obtain w data where w: "sprinter_notify V H (m_Data m) = (w, Ok data)" "execs w = []"
    "data = (m_Data m)\<lparr>s_Coordinator := s_Coordinator data\<rparr>"
    "s_Coordinator data = (if s_Coordinator (m_Data m) \<noteq> [] then s_Coordinator (m_Data m) else host_ID (eHost V))"
    using sprinter_notify_run [of V H "m_Data m"] by fastforce
  have same: "s_Calldata data = s_Calldata (m_Data m)" "s_TokenOut data = s_TokenOut (m_Data m)"
    "s_DepositID data = s_DepositID (m_Data m)"
    "sprinter_unlock_hash (eE V) H data = sprinter_unlock_hash (eE V) H (m_Data m)"
    by (subst w(3), simp add: sprinter_unlock_hash_def fun_eq_iff)+
  obtain calldata liquidator u where x: "hex_decode (s_Calldata data) = Some calldata"
    "sh_liquidators H (HexToAddress (eE V) (s_TokenOut data)) = Some liquidator"
    "sprinter_unlock_hash (eE V) H data calldata liquidator = Ok u"
    "(s, c) \<in> set (execs (fst (sign_and_execute V u
       (chain_session (sh_chainID H) (s_DepositID data)) (s_Coordinator data))))"
    using assms
    by (auto simp: sprinter_HandleMessage_def w(1) execs_bind_notify [OF w(2)] execs_bind of_option_iff
        simp del: run_bind_emit run_bind.simps)
  have "c = (if s_Coordinator (m_Data m) \<noteq> [] then s_Coordinator (m_Data m) else host_ID (eHost V))"
    using w(4) sign_and_execute_execs [OF x(4)] by simp
  then show ?thesis using x(1-3) sign_and_execute_execs [OF x(4)] unfolding same by blast
qed

section \<open>The contracts it keeps\<close>

interpretation credit: reporting "sprinter_HandleMessage V H" for V H
  by unfold_locales (rule proper_sprinter)

text \<open>The message that announces a request, and the requests that survive it.\<close>

definition sprinter_announce :: "'k env \<Rightarrow> sprinter_handler \<Rightarrow> sprinter_credit_data \<Rightarrow> send" where
  "sprinter_announce V H d =
     \<lparr>to = Peerstore (eHost V), body = jrender (eJ V) (sprinter_json (eE V) (eL V) d), kind = SprinterCreditMsg, session = chain_session (sh_chainID H) SprinterCreditSessionID\<rparr>"

definition sprinter_fits :: "'k env \<Rightarrow> sprinter_credit_data \<Rightarrow> bool" where
  "sprinter_fits V d \<longleftrightarrow> text_ok (eJ V) (sprinter_json (eE V) (eL V) d) \<and> ids_ok (eL V) [s_Coordinator d]
     \<and> eth_text_ok (eE V) [s_LiquidityPool d, s_Caller d] []"

interpretation sprinter_relay: broadcasting
  "\<lambda>d. sprinter_HandleMessage V H (NewSprinterCreditMessage (s_Source d) (s_Destination d) d)" "sprinter_announce V H"
  "\<lambda>d. d\<lparr>s_Coordinator := host_ID (eHost V)\<rparr>" "unmarshal_sprinter (eJ V) (eE V) (eL V)" "sprinter_fits V" "same_encoding V W"
  "\<lambda>b. sprinter_on_message W H' \<lparr>MessageType = SprinterCreditMsg, SessionID = sess, Payload = b, From = q\<rparr>"
  "\<lambda>d. sprinter_HandleMessage W H' (NewSprinterCreditMessage (s_Source d) (s_Destination d) d)"
  for V H W H' sess q
proof (unfold_locales, goal_cases)
  case (1 n d)
  then have "Notify n \<in> set (fst (sprinter_notify V H d))"
    unfolding sprinter_HandleMessage_def NewSprinterCreditMessage_def relayer_message.select_convs
    by (rule notify_first) (intro mute_intros)
  then show ?case by (simp add: sprinter_notify_def sprinter_announce_def Let_def split: if_splits)
next
  case (2 d)
  then show ?case by (simp add: sprinter_announce_def sprinter_fits_def unmarshal_sprinter_json)
next
  case (3 b d)
  then show ?case by (simp add: sprinter_on_message_def same_encoding_def)
qed

section \<open>Properties\<close>

text \<open>A sprinter credit is signed only for a token with a configured liquidator, and what is signed
  lets nobody but that liquidator be called, with the calldata of the request.\<close>

theorem sprinter_liquidator_only:
  assumes "(s, c) \<in> set (execs (fst (sprinter_HandleMessage V H m)))"
  shows "\<exists>calldata liquidator u. hex_decode (s_Calldata (m_Data m)) = Some calldata
    \<and> sh_liquidators H (HexToAddress (eE V) (s_TokenOut (m_Data m))) = Some liquidator
    \<and> sprinter_unlock_hash (eE V) H (m_Data m) calldata liquidator = Ok u \<and> smsg s = be_nat u
    \<and> SID s = chain_session (sh_chainID H) (s_DepositID (m_Data m))"
  using sprinter_exec [OF assms] by blast

definition sample_credit :: sprinter_credit_data where
  "sample_credit = \<lparr>s_DepositID = ''d'', s_BorrowAmount = Some 40, s_Calldata = ''0a'', s_Deadline = 9, s_LiquidityPool = [2],
     s_Caller = [3], s_Nonce = Some 1, s_Coordinator = ''a'', s_Source = 1, s_Destination = 1, s_TokenOut = ''t''\<rparr>"

theorem sprinter_liquidator_only_witness:
  "\<exists>s liquidator. [string_bytes ''t'' \<mapsto> [4]] (HexToAddress sample_eth (s_TokenOut sample_credit)) = Some liquidator
    \<and> (s, ''a'') \<in> set (execs (fst (sprinter_HandleMessage sample_env
         \<lparr>sh_chainID = 1, sh_liquidators = [string_bytes ''t'' \<mapsto> [4]]\<rparr> (NewSprinterCreditMessage 1 1 sample_credit))))
    \<and> SID s = chain_session 1 ''d''"
proof -
  let ?H = "\<lparr>sh_chainID = 1, sh_liquidators = [string_bytes ''t'' \<mapsto> [4]]\<rparr>"
  have n: "sprinter_notify sample_env ?H sample_credit = ([], Ok sample_credit)"
    by (simp add: sprinter_notify_def sample_credit_def)
  have h: "hex_decode (s_Calldata sample_credit) = Some [10]"
    by (simp add: sample_credit_def hex_val_def alnum_val_def lower_ascii_def)
  have l: "HexToAddress (eE sample_env) (s_TokenOut sample_credit) = string_bytes ''t''"
    by (simp add: sample_env_def sample_eth_def sample_credit_def)
  obtain u where u: "sprinter_unlock_hash (eE sample_env) ?H sample_credit [10] [4] = Ok u"
    by (simp add: sprinter_unlock_hash_def sample_env_def sample_credit_def sample_hash)
  obtain s where s: "(s, ''a'') \<in> set (execs (fst (sprinter_HandleMessage sample_env ?H (NewSprinterCreditMessage 1 1 sample_credit))))"
    using sample_sign_execs [of "''a''" u "chain_session 1 ''d''"]
    by (simp add: sprinter_HandleMessage_def NewSprinterCreditMessage_def n h l u run_bind_report split: prod.splits)
      (auto simp: sample_credit_def)
  have "eE sample_env = sample_eth" "HexToAddress sample_eth = string_bytes"
    by (simp_all add: sample_env_def sample_eth_def)
  with sprinter_liquidator_only [OF s] s show ?thesis
    by (auto simp: NewSprinterCreditMessage_def) (auto simp: sample_credit_def)
qed

end
