(* ===== verification/Lighter.thy ===== *)
theory Lighter
  imports Sprinter
begin

text \<open>
  Lighter: the transaction API (\<open>protocol/lighter/api.go\<close>), the chain (\<open>chains/lighter/chain.go\<close>) and
  the handler of its requests (\<open>chains/lighter/message\<close>). \<open>grow\<close> is the capacity that the Go runtime
  gives a slice that is filled element by element; slicing reaches up to the capacity.
\<close>

section \<open>The transaction API\<close>

record transfer =
  Amount :: uint64
  AssetIndex :: uint64
  FromAccountIndex :: uint64
  ToAccountIndex :: int
  Fee :: uint64
  Memo :: bytes
  Memo_cap :: nat

record lighter_tx =
  tx_Code :: uint64
  tx_Hash :: string
  tx_Type :: uint64
  Info :: string
  L1Address :: string
  Transfer :: "transfer option"

definition zero_transfer :: transfer where
  "zero_transfer = \<lparr>Amount = 0, AssetIndex = 0, FromAccountIndex = 0, ToAccountIndex = 0, Fee = 0, Memo = [], Memo_cap = 0\<rparr>"

text \<open>A byte slice is a base64 string or an array of numbers.\<close>

fun dec_byte :: "json \<Rightarrow> byte res" where
  "dec_byte (JNum i) = (if 0 \<le> i \<and> i < 256 then Ok (word_of_int i) else Fail bad_json)"
| "dec_byte JNull = Ok 0"
| "dec_byte _ = Fail bad_json"

fun dec_memo :: "json_text \<Rightarrow> (nat \<Rightarrow> nat) \<Rightarrow> (bytes \<times> nat) decoder" where
  "dec_memo J grow (JStr s) old =
     res_bind (of_option bad_json (b64dec J s)) (\<lambda>b. Ok (b, max (length b) (length s div 4 * 3)))"
| "dec_memo J grow (JArr js) old =
     res_bind (res_map dec_byte js) (\<lambda>b. Ok (b, max (length b) (grow (length b))))"
| "dec_memo J grow JNull old = Ok ([], 0)"
| "dec_memo J grow _ old = Fail bad_json"

definition dec_transfer_members :: "json_text \<Rightarrow> (nat \<Rightarrow> nat) \<Rightarrow> (string \<times> json) list \<Rightarrow> transfer res" where
  "dec_transfer_members J grow kvs =
     res_bind (struct_field kvs ''Amount'' dec_uint64 0) (\<lambda>am.
     res_bind (struct_field kvs ''AssetIndex'' dec_uint64 0) (\<lambda>ai.
     res_bind (struct_field kvs ''FromAccountIndex'' dec_uint64 0) (\<lambda>fa.
     res_bind (struct_field kvs ''ToAccountIndex'' dec_int64 0) (\<lambda>ta.
     res_bind (struct_field kvs ''Fee'' dec_uint64 0) (\<lambda>fe.
     res_bind (struct_field kvs ''Memo'' (dec_memo J grow) ([], 0)) (\<lambda>(memo, c).
     Ok \<lparr>Amount = am, AssetIndex = ai, FromAccountIndex = fa, ToAccountIndex = ta, Fee = fe, Memo = memo,
         Memo_cap = c\<rparr>))))))"

text \<open>A pointer to a \<open>Transfer\<close>: null is nil.\<close>

fun dec_transfer :: "json_text \<Rightarrow> (nat \<Rightarrow> nat) \<Rightarrow> transfer option decoder" where
  "dec_transfer J grow JNull old = Ok None"
| "dec_transfer J grow (JObj kvs) old = res_bind (dec_transfer_members J grow kvs) (\<lambda>t. Ok (Some t))"
| "dec_transfer J grow _ old = Fail bad_json"

abbreviation TxTypeL2Transfer :: uint64 where "TxTypeL2Transfer \<equiv> 12"
abbreviation TxTypeL2Withdraw :: uint64 where "TxTypeL2Withdraw \<equiv> 13"

text \<open>\<open>LighterTx.UnmarshalJSON\<close>: the members first, then the transfer from the text in \<open>info\<close>.\<close>

definition unmarshal_tx :: "json_text \<Rightarrow> (nat \<Rightarrow> nat) \<Rightarrow> bytes \<Rightarrow> lighter_tx res" where
  "unmarshal_tx J grow b =
     res_bind (json_unmarshal_tree J b) (\<lambda>j.
     res_bind (members j) (\<lambda>kvs.
     res_bind (struct_field kvs ''code'' dec_uint64 0) (\<lambda>code.
     res_bind (struct_field kvs ''hash'' dec_string []) (\<lambda>hash.
     res_bind (struct_field kvs ''type'' dec_uint64 0) (\<lambda>ty.
     res_bind (struct_field kvs ''info'' dec_string []) (\<lambda>info.
     res_bind (struct_field kvs ''l1_address'' dec_string []) (\<lambda>l1.
     res_bind (struct_field kvs ''Transfer'' (dec_transfer J grow) None) (\<lambda>_.
     if ty \<noteq> TxTypeL2Transfer then Fail (Errorf (''unsupported transaction type: '' @ show_nat (unat ty)))
     else res_bind (res_wrap ''failed to unmarshal info''
             (res_bind (json_unmarshal_tree J (string_bytes info)) (\<lambda>i. dec_transfer J grow i None))) (\<lambda>t.
          Ok \<lparr>tx_Code = code, tx_Hash = hash, tx_Type = ty, Info = info, L1Address = l1, Transfer = t\<rparr>)))))))))"

definition lighter_error_code :: "json_text \<Rightarrow> bytes \<Rightarrow> uint64 res" where
  "lighter_error_code J b =
     res_bind (json_unmarshal_tree J b) (\<lambda>j.
     res_bind (members j) (\<lambda>kvs.
     res_bind (struct_field kvs ''code'' dec_uint64 0) (\<lambda>code.
     res_bind (struct_field kvs ''message'' dec_string []) (\<lambda>_. Ok code))))"

text \<open>A JSON number, as a \<open>float64\<close>, that equals \<open>n\<close>.\<close>

definition number_is :: "nat \<Rightarrow> json \<Rightarrow> bool" where
  "number_is n j =
     (case j of
        JNum i \<Rightarrow> i = int n
      | JReal s \<Rightarrow> (case parse_literal s of Ok (F64 g m e) \<Rightarrow> \<not> g \<and> m * pow2 e = n * pow2 (- e) | _ \<Rightarrow> False)
      | _ \<Rightarrow> False)"

definition info_missing :: "(string \<times> json) list \<Rightarrow> bool" where
  "info_missing raw = (case map_entry ''info'' raw of JStr s \<Rightarrow> s = [] | _ \<Rightarrow> True)"

text \<open>\<open>LighterCheckRetry\<close>: whether to retry, or the error to end with.\<close>

definition LighterCheckRetry :: "json_text \<Rightarrow> go_error option \<Rightarrow> http_response res \<Rightarrow> bool res" where
  "LighterCheckRetry J ctxErr resp =
     (case ctxErr of
        Some e \<Rightarrow> Fail e
      | None \<Rightarrow>
          res_bind resp (\<lambda>r.
          if StatusCode r \<noteq> 200 then Ok False
          else res_bind (http_Body r) (\<lambda>b.
               if lighter_error_code J b = Ok 21500 then Ok True
               else case res_bind (json_unmarshal_tree J b) members of
                      Ok raw \<Rightarrow> Ok (number_is 200 (map_entry ''code'' raw) \<and> info_missing raw)
                    | _ \<Rightarrow> Ok False)))"

text \<open>\<open>get\<close> is the retrying client's \<open>Get\<close>.\<close>

definition GetTx ::
  "json_text \<Rightarrow> (nat \<Rightarrow> nat) \<Rightarrow> (string \<Rightarrow> http_response res) \<Rightarrow> string \<Rightarrow> lighter_tx res" where
  "GetTx J grow get hash =
     (let url = ''https://mainnet.zklighter.elliot.ai/api/v1/tx?by=hash&value='' @ hash in
      res_bind (res_wrap ''request failed'' (get url)) (\<lambda>resp.
      res_bind (res_guard (StatusCode resp = 200) (Errorf (''unexpected status code: '' @ show_int (StatusCode resp)
          @ '', '' @ url))) (\<lambda>_.
      res_bind (res_wrap ''failed to read response body'' (http_Body resp)) (unmarshal_tx J grow))))"

section \<open>Requests\<close>

record lighter_data =
  l_OrderHash :: string
  l_Coordinator :: peer
  l_LiquidityPool :: address
  l_DepositTxHash :: string
  l_Calldata :: string
  l_Nonce :: "int option"
  l_Deadline :: uint64
  l_Source :: uint64
  l_Destination :: uint64

definition NewLighterMessage :: "uint64 \<Rightarrow> uint64 \<Rightarrow> lighter_data \<Rightarrow> lighter_data relayer_message" where
  "NewLighterMessage src dst d =
     \<lparr>m_Source = src, m_Destination = dst, m_Data = d, m_Type = message_type_String LighterMsg\<rparr>"

definition lighter_json :: "eth \<Rightarrow> libp2p \<Rightarrow> lighter_data \<Rightarrow> json" where
  "lighter_json E L d = JObj
     [(''OrderHash'', JStr (l_OrderHash d)), (''Coordinator'', enc_peer L (l_Coordinator d)),
      (''LiquidityPool'', enc_addr E (l_LiquidityPool d)), (''DepositTxHash'', JStr (l_DepositTxHash d)),
      (''Calldata'', JStr (l_Calldata d)), (''Nonce'', enc_bigint (l_Nonce d)),
      (''Deadline'', enc_uint64 (l_Deadline d)), (''Source'', enc_uint64 (l_Source d)),
      (''Destination'', enc_uint64 (l_Destination d))]"

definition unmarshal_lighter :: "json_text \<Rightarrow> eth \<Rightarrow> libp2p \<Rightarrow> bytes \<Rightarrow> lighter_data res" where
  "unmarshal_lighter J E L b =
     res_bind (json_unmarshal_tree J b) (\<lambda>j.
     res_bind (members j) (\<lambda>kvs.
     res_bind (struct_field kvs ''OrderHash'' dec_string []) (\<lambda>oh.
     res_bind (struct_field kvs ''Coordinator'' (dec_peer L) []) (\<lambda>co.
     res_bind (struct_field kvs ''LiquidityPool'' (dec_addr E) zero_address) (\<lambda>lp.
     res_bind (struct_field kvs ''DepositTxHash'' dec_string []) (\<lambda>h.
     res_bind (struct_field kvs ''Calldata'' dec_string []) (\<lambda>cd.
     res_bind (struct_field kvs ''Nonce'' dec_bigint None) (\<lambda>n.
     res_bind (struct_field kvs ''Deadline'' dec_uint64 0) (\<lambda>de.
     res_bind (struct_field kvs ''Source'' dec_uint64 0) (\<lambda>so.
     res_bind (struct_field kvs ''Destination'' dec_uint64 0) (\<lambda>ds.
     Ok \<lparr>l_OrderHash = oh, l_Coordinator = co, l_LiquidityPool = lp, l_DepositTxHash = h, l_Calldata = cd,
         l_Nonce = n, l_Deadline = de, l_Source = so, l_Destination = ds\<rparr>)))))))))))"

section \<open>The handler\<close>

text \<open>\<open>PackFulfillWithdraw\<close> is the ABI of the Lighter contract.\<close>

record lighter_handler =
  lh_lighterAddress :: address
  lh_usdcAddress :: address
  lh_repaymentAccount :: string
  lh_confirmations :: "(uint64 \<times> uint64) list"
  lh_getTx :: "string \<Rightarrow> lighter_tx res"
  PackFulfillWithdraw :: "hash \<Rightarrow> address \<Rightarrow> int \<Rightarrow> bytes res"

definition LIGHTER_DOMAIN_ID :: uint64 where
  "LIGHTER_DOMAIN_ID = 1701984817"

definition lighter_notify :: "'k env \<Rightarrow> lighter_data \<Rightarrow> ('k, lighter_data) run" where
  "lighter_notify V d =
     (if l_Coordinator d \<noteq> [] then ([], Ok d)
      else let d' = d\<lparr>l_Coordinator := host_ID (eHost V)\<rparr>
           in ([Notify \<lparr>to = Peerstore (eHost V), body = jrender (eJ V) (lighter_json (eE V) (eL V) d'),
                        kind = LighterMsg, session = LighterSessionID\<rparr>], Ok d'))"

definition verifyOrderSize :: "lighter_handler \<Rightarrow> uint64 \<Rightarrow> unit res" where
  "verifyOrderSize H orderVal =
     (case first_above (uint orderVal) (sort (map fst (lh_confirmations H))) of
        Some _ \<Rightarrow> Ok ()
      | None \<Rightarrow> Fail (Errorf (''order value '' @ show_nat (unat orderVal) @ '' exceeds confirmation buckets'')))"

definition verifyWithdrawal :: "lighter_handler \<Rightarrow> lighter_tx \<Rightarrow> unit res" where
  "verifyWithdrawal H tx =
     res_bind (res_guard (tx_Type tx = TxTypeL2Transfer) (Errorf ''invalid transaction type'')) (\<lambda>_.
     res_bind (deref (Transfer tx)) (\<lambda>t.
     res_bind (res_guard (show_int (ToAccountIndex t) = lh_repaymentAccount H) (Errorf ''transfer account index invalid'')) (\<lambda>_.
     res_bind (res_guard (AssetIndex t = 3) (Errorf ''only usdc asset supported on lighter'')) (\<lambda>_.
     verifyOrderSize H (Amount t div 1000000)))))"

definition slice20 :: "transfer \<Rightarrow> bytes res" where
  "slice20 t =
     (if 20 \<le> Memo_cap t then Ok (take 20 (Memo t @ replicate 20 0)) else Panic ''slice bounds out of range'')"

definition lighter_calldata :: "eth \<Rightarrow> lighter_handler \<Rightarrow> lighter_tx \<Rightarrow> bytes res" where
  "lighter_calldata E H tx =
     res_bind (deref (Transfer tx)) (\<lambda>t.
     res_bind (slice20 t) (\<lambda>memo.
     PackFulfillWithdraw H (HexToHash E (tx_Hash tx)) (BytesToAddress E memo) (uint (Amount t))))"

definition lighter_unlock_hash :: "eth \<Rightarrow> lighter_handler \<Rightarrow> lighter_data \<Rightarrow> lighter_tx \<Rightarrow> bytes \<Rightarrow> bytes res" where
  "lighter_unlock_hash E H data tx calldata =
     res_bind (deref (Transfer tx)) (\<lambda>t.
     BorrowUnlockHash E calldata (Some (uint (Amount t))) (lh_usdcAddress H) (Some 42161) (lh_lighterAddress H)
       (l_Deadline data) (lh_lighterAddress H) (l_LiquidityPool data) (l_Nonce data))"

definition lighter_HandleMessage ::
  "'k env \<Rightarrow> lighter_handler \<Rightarrow> lighter_data relayer_message \<Rightarrow> ('k, unit) run" where
  "lighter_HandleMessage V H m =
     run_bind (lighter_notify V (m_Data m)) (\<lambda>data.
     run_bind (try_report (lh_getTx H (l_DepositTxHash data))) (\<lambda>tx.
     run_bind (try_report (verifyWithdrawal H tx)) (\<lambda>_.
     run_bind (emit (Report None)) (\<lambda>_.
     run_bind (try_run (lighter_calldata (eE V) H tx)) (\<lambda>calldata.
     run_bind (try_report (lighter_unlock_hash (eE V) H data tx calldata)) (\<lambda>unlockHash.
     sign_and_execute V unlockHash (chain_session LIGHTER_DOMAIN_ID (l_OrderHash data)) (l_Coordinator data)))))))"

text \<open>
  \<open>Listen\<close> handles its messages one after the other, with a fresh channel of capacity one that
  nobody reads, so a handler that reports twice never returns: \<open>None\<close> is a loop that is stuck.
\<close>

definition lighter_on_message ::
  "'k env \<Rightarrow> lighter_handler \<Rightarrow> wrapped_message \<Rightarrow> ('k, unit) run" where
  "lighter_on_message V H wMsg =
     (case unmarshal_lighter (eJ V) (eE V) (eL V) (Payload wMsg) of
        Ok d \<Rightarrow> lighter_HandleMessage V H (NewLighterMessage (l_Source d) (l_Destination d) d)
      | _ \<Rightarrow> ([], Ok ()))"

fun lighter_Listen ::
  "'k env \<Rightarrow> lighter_handler \<Rightarrow> wrapped_message list \<Rightarrow> 'k action list option" where
  "lighter_Listen V H [] = Some []"
| "lighter_Listen V H (m # ms) =
     (let w = fst (lighter_on_message V H m) in
      if length (reports w) > 1 then None
      else map_option (\<lambda>ws. w @ ws) (lighter_Listen V H ms))"

text \<open>The chain passes messages to the handler and writes nothing.\<close>

definition lighter_ReceiveMessage ::
  "'k env \<Rightarrow> lighter_handler \<Rightarrow> lighter_data relayer_message \<Rightarrow> ('k, unit) run" where
  "lighter_ReceiveMessage V H m = lighter_HandleMessage V H m"

section \<open>Lemmas\<close>

lemma lighter_notify_run:
  "\<exists>w. lighter_notify V d = (w, Ok (d\<lparr>l_Coordinator := if l_Coordinator d \<noteq> [] then l_Coordinator d else host_ID (eHost V)\<rparr>))
     \<and> reports w = [] \<and> execs w = []"
  by (simp add: lighter_notify_def Let_def)

lemma verifyWithdrawal_Ok:
  "verifyWithdrawal H tx = Ok () \<Longrightarrow>
   \<exists>t. tx_Type tx = TxTypeL2Transfer \<and> Transfer tx = Some t \<and> show_int (ToAccountIndex t) = lh_repaymentAccount H
     \<and> AssetIndex t = 3 \<and> (\<exists>b \<in> fst ` set (lh_confirmations H). uint (Amount t div 1000000) < uint b)"
  using first_above_sorted(1) [OF sorted_sort, of _ "map fst (lh_confirmations H)"]
  by (fastforce simp: verifyWithdrawal_def verifyOrderSize_def res_simps split: option.splits)

lemma lighter_exec:
  assumes "(s, c) \<in> set (execs (fst (lighter_HandleMessage V H m)))"
  shows "\<exists>tx calldata u. lh_getTx H (l_DepositTxHash (m_Data m)) = Ok tx \<and> verifyWithdrawal H tx = Ok ()
    \<and> lighter_calldata (eE V) H tx = Ok calldata \<and> lighter_unlock_hash (eE V) H (m_Data m) tx calldata = Ok u
    \<and> smsg s = be_nat u \<and> SID s = chain_session LIGHTER_DOMAIN_ID (l_OrderHash (m_Data m))
    \<and> c = (if l_Coordinator (m_Data m) \<noteq> [] then l_Coordinator (m_Data m) else host_ID (eHost V))"
proof -
  obtain w data where w: "lighter_notify V (m_Data m) = (w, Ok data)" "execs w = []"
    "data = (m_Data m)\<lparr>l_Coordinator := l_Coordinator data\<rparr>"
    "l_Coordinator data = (if l_Coordinator (m_Data m) \<noteq> [] then l_Coordinator (m_Data m) else host_ID (eHost V))"
    using lighter_notify_run [of V "m_Data m"] by fastforce
  have same: "l_DepositTxHash data = l_DepositTxHash (m_Data m)" "l_OrderHash data = l_OrderHash (m_Data m)"
    "lighter_unlock_hash (eE V) H data = lighter_unlock_hash (eE V) H (m_Data m)"
    by (subst w(3), simp add: lighter_unlock_hash_def fun_eq_iff)+
  obtain tx calldata u where x: "lh_getTx H (l_DepositTxHash data) = Ok tx" "verifyWithdrawal H tx = Ok ()"
    "lighter_calldata (eE V) H tx = Ok calldata" "lighter_unlock_hash (eE V) H data tx calldata = Ok u"
    "(s, c) \<in> set (execs (fst (sign_and_execute V u
       (chain_session LIGHTER_DOMAIN_ID (l_OrderHash data)) (l_Coordinator data))))"
    using assms
    by (auto simp: lighter_HandleMessage_def w(1) execs_bind_notify [OF w(2)] execs_bind
        simp del: run_bind_emit run_bind.simps)
  have "c = (if l_Coordinator (m_Data m) \<noteq> [] then l_Coordinator (m_Data m) else host_ID (eHost V))"
    using w(4) sign_and_execute_execs [OF x(5)] by simp
  then show ?thesis using x(1-4) sign_and_execute_execs [OF x(5)] unfolding same by blast
qed

lemma unmarshal_lighter_json:
  assumes "text_ok J (lighter_json E L d)" and "ids_ok L [l_Coordinator d]" and "eth_text_ok E [l_LiquidityPool d] []"
  shows "unmarshal_lighter J E L (jrender J (lighter_json E L d)) = Ok d"
  using assms(1)
  by (simp add: unmarshal_lighter_def)
    (simp add: lighter_json_def field_eval dec_enc_addr [OF assms(3)] dec_enc_peer [OF assms(2)])

section \<open>The contracts it keeps\<close>

lemma answers_lighter: "answers (lighter_HandleMessage V H m)"
proof -
  obtain w d where "lighter_notify V (m_Data m) = (w, Ok d)" "reports w = []" "execs w = []"
    using lighter_notify_run by metis
  then show ?thesis
    unfolding lighter_HandleMessage_def
    by (simp only:) (intro answers_notify answers_report answers_accept; assumption)
qed

interpretation lighter: answering "lighter_HandleMessage V H" for V H
  by unfold_locales (rule answers_lighter)

text \<open>The message that announces a request, and the requests that survive it.\<close>

definition lighter_announce :: "'k env \<Rightarrow> lighter_data \<Rightarrow> send" where
  "lighter_announce V d =
     \<lparr>to = Peerstore (eHost V), body = jrender (eJ V) (lighter_json (eE V) (eL V) d), kind = LighterMsg, session = LighterSessionID\<rparr>"

definition lighter_fits :: "'k env \<Rightarrow> lighter_data \<Rightarrow> bool" where
  "lighter_fits V d \<longleftrightarrow> text_ok (eJ V) (lighter_json (eE V) (eL V) d) \<and> ids_ok (eL V) [l_Coordinator d]
     \<and> eth_text_ok (eE V) [l_LiquidityPool d] []"

interpretation lighter_relay: broadcasting
  "\<lambda>d. lighter_HandleMessage V H (NewLighterMessage (l_Source d) (l_Destination d) d)" "lighter_announce V"
  "\<lambda>d. d\<lparr>l_Coordinator := host_ID (eHost V)\<rparr>" "unmarshal_lighter (eJ V) (eE V) (eL V)" "lighter_fits V" "same_encoding V W"
  "\<lambda>b. lighter_on_message W H' \<lparr>MessageType = LighterMsg, SessionID = sess, Payload = b, From = q\<rparr>"
  "\<lambda>d. lighter_HandleMessage W H' (NewLighterMessage (l_Source d) (l_Destination d) d)"
  for V H W H' sess q
proof (unfold_locales, goal_cases)
  case (1 n d)
  then have "Notify n \<in> set (fst (lighter_notify V d))"
    unfolding lighter_HandleMessage_def NewLighterMessage_def relayer_message.select_convs
    by (rule notify_first) (intro mute_intros)
  then show ?case by (simp add: lighter_notify_def lighter_announce_def Let_def split: if_splits)
next
  case (2 d)
  then show ?case by (simp add: lighter_announce_def lighter_fits_def unmarshal_lighter_json)
next
  case (3 b d)
  then show ?case by (simp add: lighter_on_message_def same_encoding_def)
qed

section \<open>Properties\<close>

text \<open>C19: a Lighter borrow is signed only for a transfer of USDC to the configured repayment account
  that is smaller than some confirmation bucket, and for exactly the transferred amount, with
  the Lighter contract as its only target.\<close>

theorem lighter_transfer_checked:
  assumes "(s, c) \<in> set (execs (fst (lighter_HandleMessage V H m)))"
  shows "\<exists>tx t calldata u. lh_getTx H (l_DepositTxHash (m_Data m)) = Ok tx \<and> tx_Type tx = TxTypeL2Transfer
    \<and> Transfer tx = Some t \<and> show_int (ToAccountIndex t) = lh_repaymentAccount H \<and> AssetIndex t = 3
    \<and> (\<exists>b \<in> fst ` set (lh_confirmations H). uint (Amount t div 1000000) < uint b)
    \<and> lighter_calldata (eE V) H tx = Ok calldata
    \<and> BorrowUnlockHash (eE V) calldata (Some (uint (Amount t))) (lh_usdcAddress H) (Some 42161) (lh_lighterAddress H)
        (l_Deadline (m_Data m)) (lh_lighterAddress H) (l_LiquidityPool (m_Data m)) (l_Nonce (m_Data m)) = Ok u
    \<and> smsg s = be_nat u"
proof -
  obtain tx calldata u where x: "lh_getTx H (l_DepositTxHash (m_Data m)) = Ok tx" "verifyWithdrawal H tx = Ok ()"
    "lighter_calldata (eE V) H tx = Ok calldata" "lighter_unlock_hash (eE V) H (m_Data m) tx calldata = Ok u" "smsg s = be_nat u"
    using lighter_exec [OF assms] by blast
  from verifyWithdrawal_Ok [OF x(2)] obtain t where "tx_Type tx = TxTypeL2Transfer" "Transfer tx = Some t"
    "show_int (ToAccountIndex t) = lh_repaymentAccount H" "AssetIndex t = 3"
    "\<exists>b \<in> fst ` set (lh_confirmations H). uint (Amount t div 1000000) < uint b" by blast
  then show ?thesis using x by (auto simp: lighter_unlock_hash_def)
qed

definition sample_tx :: lighter_tx where
  "sample_tx = \<lparr>tx_Code = 200, tx_Hash = ''h'', tx_Type = 12, Info = [], L1Address = [],
     Transfer = Some \<lparr>Amount = 5000000, AssetIndex = 3, FromAccountIndex = 7, ToAccountIndex = 9, Fee = 0,
       Memo = replicate 20 1, Memo_cap = 20\<rparr>\<rparr>"

definition sample_lighter :: lighter_handler where
  "sample_lighter = \<lparr>lh_lighterAddress = [1], lh_usdcAddress = [2], lh_repaymentAccount = ''9'',
     lh_confirmations = [(10, 1)], lh_getTx = (\<lambda>_. Ok sample_tx), PackFulfillWithdraw = (\<lambda>_ _ _. Ok [6])\<rparr>"

definition sample_lighter_request :: lighter_data where
  "sample_lighter_request = \<lparr>l_OrderHash = ''o'', l_Coordinator = ''a'', l_LiquidityPool = [3], l_DepositTxHash = ''h'',
     l_Calldata = [], l_Nonce = Some 1, l_Deadline = 9, l_Source = 1, l_Destination = 1\<rparr>"

lemma sample_lighter_checks:
  "lh_getTx sample_lighter h = Ok sample_tx" "verifyWithdrawal sample_lighter sample_tx = Ok ()"
  "\<exists>cd. lighter_calldata E sample_lighter sample_tx = Ok cd"
  by (simp_all add: sample_lighter_def verifyWithdrawal_def sample_tx_def verifyOrderSize_def show_int_def
      show_nat.simps digit_char_def char_of_def bit_Suc_0_iff lighter_calldata_def slice20_def res_guard_def)

lemma sample_lighter_notify: "lighter_notify V sample_lighter_request = ([], Ok sample_lighter_request)"
  by (simp add: lighter_notify_def sample_lighter_request_def)

theorem lighter_transfer_checked_witness:
  "\<exists>s. (s, ''a'') \<in> set (execs (fst (lighter_HandleMessage sample_env sample_lighter
       (NewLighterMessage 1 1 sample_lighter_request))))
     \<and> (\<exists>tx t. lh_getTx sample_lighter ''h'' = Ok tx \<and> Transfer tx = Some t \<and> AssetIndex t = 3)"
proof -
  obtain cd where cd: "lighter_calldata sample_eth sample_lighter sample_tx = Ok cd" using sample_lighter_checks(3) by blast
  have e: "eE sample_env = sample_eth" by (simp add: sample_env_def)
  obtain u where u: "lighter_unlock_hash sample_eth sample_lighter sample_lighter_request sample_tx cd = Ok u"
    by (simp add: lighter_unlock_hash_def sample_tx_def sample_lighter_request_def sample_hash)
  obtain s where s: "(s, ''a'') \<in> set (execs (fst (lighter_HandleMessage sample_env sample_lighter
       (NewLighterMessage 1 1 sample_lighter_request))))"
    using sample_sign_execs [of "''a''" u "chain_session LIGHTER_DOMAIN_ID ''o''"]
    by (simp add: lighter_HandleMessage_def NewLighterMessage_def sample_lighter_notify sample_lighter_checks e cd u
        run_bind_report run_bind_try split: prod.splits)
      (auto simp: sample_lighter_request_def)
  have "l_DepositTxHash sample_lighter_request = ''h''" by (simp add: sample_lighter_request_def)
  with lighter_transfer_checked [OF s] s show ?thesis by (auto simp: NewLighterMessage_def)
qed

text \<open>One request can stop a relayer from ever answering for Lighter again: when the hash of a
  request that passed the checks cannot be computed, the handler reports a second time, and the
  loop that serves the other relayers' notifications is stuck.\<close>

theorem lighter_double_report_sticks:
  assumes "unmarshal_lighter (eJ V) (eE V) (eL V) (Payload wMsg) = Ok d" and "l_Coordinator d \<noteq> []"
    and "lh_getTx H (l_DepositTxHash d) = Ok tx" and "verifyWithdrawal H tx = Ok ()"
    and "lighter_calldata (eE V) H tx = Ok calldata"
    and "lighter_unlock_hash (eE V) H d tx calldata = Fail e"
  shows "reports (fst (lighter_on_message V H wMsg)) = [Report None, Report (Some e)]
    \<and> lighter_Listen V H (wMsg # ms) = None"
proof -
  have "lighter_notify V d = ([], Ok d)" using assms(2) by (simp add: lighter_notify_def)
  then have "fst (lighter_on_message V H wMsg) = [Report None, Report (Some e)]"
    using assms by (simp add: lighter_on_message_def NewLighterMessage_def lighter_HandleMessage_def run_bind_report
        run_bind_try)
  then show ?thesis by (simp add: Let_def)
qed

text \<open>A request without a nonce, say, which \<open>HashStruct\<close> refuses.\<close>

definition refusing_env :: "int env" where
  "refusing_env = sample_env\<lparr>eE := sample_eth\<lparr>HashStruct := \<lambda>_ _ _. Fail (Errorf [])\<rparr>,
     eJ := one_doc (lighter_json sample_eth raw_ids (sample_lighter_request\<lparr>l_Coordinator := ''aaaaaaaa''\<rparr>)) []\<rparr>"

theorem lighter_double_report_sticks_witness:
  "lighter_Listen refusing_env sample_lighter
     [\<lparr>MessageType = LighterMsg, SessionID = LighterSessionID, Payload = [0], From = ''q''\<rparr>] = None"
proof -
  let ?d = "sample_lighter_request\<lparr>l_Coordinator := ''aaaaaaaa''\<rparr>"
  have e: "eE refusing_env = sample_eth\<lparr>HashStruct := \<lambda>_ _ _. Fail (Errorf [])\<rparr>"
    "eJ refusing_env = one_doc (lighter_json sample_eth raw_ids ?d) []" "eL refusing_env = raw_ids"
    by (simp_all add: refusing_env_def sample_env_def)
  have same: "lighter_json (eE refusing_env) raw_ids ?d = lighter_json sample_eth raw_ids ?d"
    by (simp add: lighter_json_def e enc_addr_def)
  have "unmarshal_lighter (eJ refusing_env) (eE refusing_env) (eL refusing_env)
      (jrender (eJ refusing_env) (lighter_json (eE refusing_env) raw_ids ?d)) = Ok ?d"
    unfolding e(3)
    by (rule unmarshal_lighter_json)
      (simp_all add: e(2) same, simp_all add: e eth_text_ok_def sample_eth_def sample_lighter_request_def string_bytes_def
        char_of_def bit_Suc_0_iff)
  then have d: "unmarshal_lighter (eJ refusing_env) (eE refusing_env) (eL refusing_env) [0] = Ok ?d"
    by (simp add: e(2))
  obtain cd where cd: "lighter_calldata (eE refusing_env) sample_lighter sample_tx = Ok cd"
    using sample_lighter_checks(3) by blast
  obtain err where err: "lighter_unlock_hash (eE refusing_env) sample_lighter ?d sample_tx cd = Fail err"
    by (simp add: lighter_unlock_hash_def sample_tx_def BorrowUnlockHash_def eip712_def e)
  show ?thesis
    using lighter_double_report_sticks [of refusing_env _ ?d sample_lighter, OF _ _ sample_lighter_checks(1,2) cd err] d by simp
qed

end
