(* ===== verification/Chain_Config.thy ===== *)
theory Chain_Config
  imports Relayer_Config Lighter
begin

text \<open>
  The configuration of the chains (\<open>config/chain/config.go\<close>, \<open>chains/evm/config.go\<close>,
  \<open>chains/lighter/config.go\<close>), its watcher (\<open>config/watcher.go\<close>), and the wiring of \<open>app/app.go\<close>: which
  handlers each chain gets and what the API is told. The solver configuration is a value of the
  solver-config module, of which the record has the members the code reads; \<open>mapstructure.Decode\<close>,
  \<open>defaults.Set\<close> and the constructors of the clients are arguments.
\<close>

section \<open>The solver configuration\<close>

record solver_token =
  st_Address :: string
  st_Decimals :: int

record solver_confirmation =
  MaxAmountUSD :: int
  sc_Confirmations :: int

record solver_chain =
  Tokens :: "(string \<times> solver_token) list"
  NativeTokenSymbol :: string
  sch_Decimals :: int
  Confirmations :: "solver_confirmation list"

record solver_config =
  Chains :: "string \<rightharpoonup> solver_chain"
  Sprinter_Repayer :: "string \<rightharpoonup> string"
  SpokePools :: "string \<rightharpoonup> string"
  HubPools :: "string \<rightharpoonup> string"
  Lifi_OutputSettler :: string
  Lifi_InputSettlerEscrow :: string
  SprinterCredit :: "string \<rightharpoonup> (string \<times> string) list"
  FastWithdrawalContract :: "string \<rightharpoonup> string"
  Lighter_RepaymentAddress :: string
  Sprinter_MpcAddress :: string

text \<open>Reading a map of strings or slices: the zero value for a missing key.\<close>

definition or_empty :: "'a list option \<Rightarrow> 'a list" where
  "or_empty x = (case x of Some v \<Rightarrow> v | None \<Rightarrow> [])"

definition confirmations_map :: "solver_confirmation list \<Rightarrow> (uint64 \<times> uint64) list" where
  "confirmations_map cs =
     foldl (\<lambda>m c. AList.update (word_of_int (MaxAmountUSD c)) (word_of_int (sc_Confirmations c)) m) [] cs"

section \<open>EVM chains\<close>

record general_chain_config =
  Name :: string
  Id :: "uint64 option"
  Endpoint :: string
  chain_Type :: string
  BlockstorePath :: string
  Blocktime :: uint64
  BlockConfirmations :: uint64
  chain_Key :: string
  Insecure :: bool

definition chain_Validate :: "general_chain_config \<Rightarrow> unit res" where
  "chain_Validate c =
     (case Id c of
        None \<Rightarrow> Fail (Errorf ''required field domain.Id empty for chain'')
      | Some i \<Rightarrow>
          res_bind (res_guard (Endpoint c \<noteq> []) (Errorf (''required field chain.Endpoint empty for chain '' @ show_nat (unat i))))
            (\<lambda>_. res_guard (Name c \<noteq> []) (Errorf (''required field chain.Name empty for chain '' @ show_nat (unat i)))))"

text \<open>\<open>flag\<close> is the value of the block store flag.\<close>

definition ParseFlags :: "string \<Rightarrow> general_chain_config \<Rightarrow> general_chain_config" where
  "ParseFlags flag c = (if flag \<noteq> [] then c\<lparr>BlockstorePath := flag\<rparr> else c)"

record raw_evm_config =
  raw_General :: general_chain_config
  raw_Admin :: string
  raw_Repayer :: string
  raw_BlockInterval :: int
  raw_BlockRetryInterval :: uint64

definition evm_Validate :: "raw_evm_config \<Rightarrow> unit res" where
  "evm_Validate c = chain_Validate (raw_General c)"

record evm_config =
  GeneralChainConfig :: general_chain_config
  Admin :: string
  AcrossPool :: string
  AcrossHubPool :: string
  LifiOutputSettler :: string
  LifiInputSettlerEscrow :: string
  Repayer :: string
  Liquidators :: "(address \<times> address) list"
  evm_Tokens :: "(string \<times> token_config) list"
  ConfirmationsByValue :: "(uint64 \<times> uint64) list"
  BlockInterval :: int
  BlockRetryInterval :: uint64

definition as_uint8 :: "int \<Rightarrow> nat" where
  "as_uint8 i = unat (word_of_int i :: 8 word)"

definition token_map :: "eth \<Rightarrow> solver_chain \<Rightarrow> (string \<times> token_config) list" where
  "token_map E sc =
     (let ts = map (\<lambda>(s, c). (s, \<lparr>tc_Address = HexToAddress E (st_Address c), Decimals = as_uint8 (st_Decimals c)\<rparr>)) (Tokens sc)
      in if NativeTokenSymbol sc = ''ETH''
         then AList.update ''ETH'' \<lparr>tc_Address = zero_address, Decimals = as_uint8 (sch_Decimals sc)\<rparr> ts
         else ts)"

definition liquidator_map :: "eth \<Rightarrow> (string \<times> string) list \<Rightarrow> (address \<times> address) list" where
  "liquidator_map E cs = foldl (\<lambda>m (token, liq). AList.update (HexToAddress E token) (HexToAddress E liq) m) [] cs"

definition eip155 :: "uint64 \<Rightarrow> string" where
  "eip155 i = ''eip155:'' @ show_nat (unat i)"

definition NewEVMConfig ::
  "eth \<Rightarrow> string \<Rightarrow> (chain_map \<Rightarrow> raw_evm_config res) \<Rightarrow> (raw_evm_config \<Rightarrow> raw_evm_config res) \<Rightarrow> solver_config
   \<Rightarrow> chain_map \<Rightarrow> evm_config res" where
  "NewEVMConfig E flag decode set_defaults S chainConfig =
     res_bind (res_bind (decode chainConfig) set_defaults) (\<lambda>c.
     res_bind (evm_Validate c) (\<lambda>_.
     res_bind (deref (Id (raw_General c))) (\<lambda>cid.
     let i = eip155 cid in
     res_bind (of_option (Errorf (''no solver config for id '' @ i)) (Chains S i)) (\<lambda>sc.
     Ok \<lparr>GeneralChainConfig = ParseFlags flag (raw_General c), Admin = raw_Admin c,
         AcrossPool = or_empty (SpokePools S i), AcrossHubPool = or_empty (HubPools S i),
         LifiOutputSettler = Lifi_OutputSettler S, LifiInputSettlerEscrow = Lifi_InputSettlerEscrow S,
         Repayer = or_empty (Sprinter_Repayer S i),
         Liquidators = liquidator_map E (or_empty (SprinterCredit S i)),
         evm_Tokens = token_map E sc, ConfirmationsByValue = confirmations_map (Confirmations sc),
         BlockInterval = raw_BlockInterval c, BlockRetryInterval = raw_BlockRetryInterval c * 1000000000\<rparr>))))"

section \<open>Lighter\<close>

record lighter_config =
  WithdrawalAddress :: address
  UsdcAddress :: address
  RepaymentAddress :: string
  lc_ConfirmationsByValue :: "(uint64 \<times> uint64) list"

text \<open>A chain missing from the map of chains reads as one without confirmations.\<close>

definition NewLighterConfig :: "eth \<Rightarrow> solver_config \<Rightarrow> lighter_config res" where
  "NewLighterConfig E S =
     (let ARBITRUM_CAIP = ''eip155:42161'' in
      res_bind (of_option (Errorf (''no solver config for id '' @ ARBITRUM_CAIP)) (Chains S ARBITRUM_CAIP)) (\<lambda>arb.
      res_bind (of_option (Errorf ''usdc not configured'') (map_of (Tokens arb) ''usdc'')) (\<lambda>usdc.
      res_bind (of_option (Errorf ''withdrawal address not configured'') (FastWithdrawalContract S ARBITRUM_CAIP)) (\<lambda>w.
      Ok \<lparr>WithdrawalAddress = HexToAddress E w, UsdcAddress = HexToAddress E (st_Address usdc),
          RepaymentAddress = Lighter_RepaymentAddress S,
          lc_ConfirmationsByValue =
            (case Chains S ''lighter:1'' of None \<Rightarrow> [] | Some c \<Rightarrow> confirmations_map (Confirmations c))\<rparr>))))"

section \<open>The watcher\<close>

text \<open>\<open>marshal\<close> is \<open>json.Marshal\<close> of the solver configuration, \<open>fetch\<close> is \<open>FetchSolverConfig\<close>.\<close>

definition calculateConfigHash :: "('s \<Rightarrow> bytes res) \<Rightarrow> (bytes \<Rightarrow> bytes) \<Rightarrow> 's \<Rightarrow> string res" where
  "calculateConfigHash marshal sha c =
     res_bind (res_wrap ''failed to marshal config'' (marshal c)) (\<lambda>b. Ok (hex_encode (sha b)))"

definition hasConfigChanged ::
  "('s \<Rightarrow> bytes res) \<Rightarrow> (bytes \<Rightarrow> bytes) \<Rightarrow> string \<Rightarrow> 's res \<Rightarrow> bool res" where
  "hasConfigChanged marshal sha initialHash fetched =
     res_bind fetched (\<lambda>c.
     res_bind (calculateConfigHash marshal sha c) (\<lambda>newHash. Ok (newHash \<noteq> initialHash)))"

text \<open>
  The loop, over what its \<open>select\<close> receives: a tick with what the fetch gives then, or the end of the
  context. The channel holds one signal; a second one, unread, blocks the loop for good. The
  result is whether a signal was sent, and whether the loop is still running.
\<close>

datatype 's watch_tick = Tick "'s res" | TickCtxDone

fun config_watch ::
  "('s \<Rightarrow> bytes res) \<Rightarrow> (bytes \<Rightarrow> bytes) \<Rightarrow> string \<Rightarrow> bool \<Rightarrow> 's watch_tick list \<Rightarrow> bool \<times> bool" where
  "config_watch marshal sha h sent [] = (sent, True)"
| "config_watch marshal sha h sent (TickCtxDone # es) = (sent, False)"
| "config_watch marshal sha h sent (Tick fetched # es) =
     (case hasConfigChanged marshal sha h fetched of
        Ok True \<Rightarrow> (if sent then (True, False) else config_watch marshal sha h True es)
      | Ok False \<Rightarrow> config_watch marshal sha h sent es
      | Fail e \<Rightarrow> config_watch marshal sha h sent es
      | Panic m \<Rightarrow> (sent, False))"

definition StartConfigWatcher ::
  "('s \<Rightarrow> bytes res) \<Rightarrow> (bytes \<Rightarrow> bytes) \<Rightarrow> 's \<Rightarrow> 's watch_tick list \<Rightarrow> (bool \<times> bool) res" where
  "StartConfigWatcher marshal sha c es =
     res_bind (calculateConfigHash marshal sha c) (\<lambda>h. Ok (config_watch marshal sha h False es))"

section \<open>The wiring\<close>

text \<open>
  What \<open>Run\<close> collects. \<open>registered\<close> lists, for a domain, the message types a handler was registered for
  on its last registration. \<open>dial\<close> is the client's constructor and \<open>lifi_deps\<close> the pricing and solver
  configuration that the Lifi handler needs, \<open>ae_head\<close> is the latest block of a chain with an admin
  contract; their errors are fatal.
\<close>

record wiring =
  acrossPools :: "uint64 \<rightharpoonup> address"
  lifiOutputSettlers :: "uint64 \<rightharpoonup> address"
  repayerAddresses :: "uint64 \<rightharpoonup> address"
  all_tokens :: token_store
  hubPool :: "(address \<times> (string \<times> token_config) list) option"
  supportedChains :: "uint64 set"
  confirmationsPerChain :: "uint64 \<rightharpoonup> (uint64 \<times> uint64) list"
  registered :: "uint64 \<rightharpoonup> message_type list"

definition empty_wiring :: wiring where
  "empty_wiring = \<lparr>acrossPools = Map.empty, lifiOutputSettlers = Map.empty, repayerAddresses = Map.empty,
     all_tokens = Map.empty, hubPool = None, supportedChains = {}, confirmationsPerChain = Map.empty,
     registered = Map.empty\<rparr>"

definition panicOnError :: "'a res \<Rightarrow> 'a res" where
  "panicOnError r = (case r of Fail e \<Rightarrow> Panic ''panicOnError'' | _ \<Rightarrow> r)"

record app_env =
  ae_eth :: eth
  ae_config :: "chain_map \<Rightarrow> evm_config res"
  ae_dial :: "string \<Rightarrow> unit res"
  ae_lifi_deps :: "unit res"
  ae_head :: "string \<Rightarrow> int res"

definition config_id :: "evm_config \<Rightarrow> uint64" where
  "config_id c = (case Id (GeneralChainConfig c) of Some i \<Rightarrow> i | None \<Rightarrow> 0)"

text \<open>The first loop over the chains: the addresses and tokens that the handlers of all chains share.\<close>

definition collect_config :: "eth \<Rightarrow> evm_config \<Rightarrow> wiring \<Rightarrow> wiring" where
  "collect_config E c w =
     (let i = config_id c; put = (\<lambda>m s. if s \<noteq> [] then m(i \<mapsto> HexToAddress E s) else m) in
      w\<lparr>acrossPools := put (acrossPools w) (AcrossPool c),
        lifiOutputSettlers := put (lifiOutputSettlers w) (LifiOutputSettler c),
        hubPool := (if AcrossHubPool c \<noteq> [] then Some (HexToAddress E (AcrossHubPool c), evm_Tokens c) else hubPool w),
        repayerAddresses := put (repayerAddresses w) (Repayer c),
        all_tokens := (all_tokens w)(i \<mapsto> evm_Tokens c)\<rparr>)"

text \<open>A chain whose configuration is refused is logged and left out; another type than EVM is fatal.\<close>

definition collect_chain :: "app_env \<Rightarrow> chain_map \<Rightarrow> wiring \<Rightarrow> wiring res" where
  "collect_chain A chainConfig w =
     (if cfg_at chainConfig ''type'' \<noteq> CStr ''evm'' then Panic ''type not recognized''
      else case ae_config A chainConfig of
             Fail e \<Rightarrow> Ok w
           | Panic m \<Rightarrow> Panic m
           | Ok c \<Rightarrow>
               res_bind (panicOnError (ae_dial A (Endpoint (GeneralChainConfig c)))) (\<lambda>_.
               Ok (collect_config (ae_eth A) c w)))"

text \<open>The second loop: the handlers of one chain.\<close>

definition handlers_of :: "evm_config \<Rightarrow> message_type list" where
  "handlers_of c =
     (if AcrossPool c \<noteq> [] then [AcrossMsg] else [])
     @ (if LifiOutputSettler c \<noteq> [] then [LifiEscrowMsg] else [])
     @ (if Liquidators c \<noteq> [] then [SprinterCreditMsg] else [])
     @ [LifiUnlockMsg]"

definition register_config :: "evm_config \<Rightarrow> wiring \<Rightarrow> wiring" where
  "register_config c w =
     (let i = config_id c; api = (AcrossPool c \<noteq> [] \<or> LifiOutputSettler c \<noteq> []) in
      w\<lparr>registered := (registered w)(i \<mapsto> handlers_of c),
        supportedChains := (if api then insert i (supportedChains w) else supportedChains w),
        confirmationsPerChain :=
          (if api then (confirmationsPerChain w)(i \<mapsto> ConfirmationsByValue c) else confirmationsPerChain w)\<rparr>)"

definition register_chain :: "app_env \<Rightarrow> chain_map \<Rightarrow> wiring \<Rightarrow> wiring res" where
  "register_chain A chainConfig w =
     (if cfg_at chainConfig ''type'' \<noteq> CStr ''evm'' then Panic ''type not recognized''
      else case ae_config A chainConfig of
             Fail e \<Rightarrow> Ok w
           | Panic m \<Rightarrow> Panic m
           | Ok c \<Rightarrow>
               res_bind (panicOnError (ae_dial A (Endpoint (GeneralChainConfig c)))) (\<lambda>_.
               res_bind (if LifiOutputSettler c \<noteq> [] then panicOnError (ae_lifi_deps A) else Ok ()) (\<lambda>_.
               res_bind (if Admin c \<noteq> [] then res_bind (panicOnError (ae_head A (Endpoint (GeneralChainConfig c)))) (\<lambda>_. Ok ())
                         else Ok ()) (\<lambda>_.
               Ok (register_config c w)))))"

fun for_chains :: "(chain_map \<Rightarrow> wiring \<Rightarrow> wiring res) \<Rightarrow> chain_map list \<Rightarrow> wiring \<Rightarrow> wiring res" where
  "for_chains f [] w = Ok w"
| "for_chains f (c # cs) w = res_bind (f c w) (for_chains f cs)"

text \<open>The domain of Lighter, which every relayer serves; its configuration has to be complete.\<close>

definition register_lighter :: "app_env \<Rightarrow> solver_config \<Rightarrow> wiring \<Rightarrow> wiring res" where
  "register_lighter A S w =
     res_bind (panicOnError (NewLighterConfig (ae_eth A) S)) (\<lambda>_.
     Ok (w\<lparr>registered := (registered w)(LIGHTER_DOMAIN_ID \<mapsto> [LighterMsg]),
            supportedChains := insert LIGHTER_DOMAIN_ID (supportedChains w)\<rparr>))"

definition wire :: "app_env \<Rightarrow> solver_config \<Rightarrow> chain_map list \<Rightarrow> wiring res" where
  "wire A S cs =
     res_bind (for_chains (collect_chain A) cs empty_wiring) (\<lambda>w1.
     res_bind (for_chains (register_chain A) cs w1) (register_lighter A S))"

section \<open>Lemmas\<close>

text \<open>The configurations that are accepted, in order.\<close>

definition accepted :: "app_env \<Rightarrow> chain_map list \<Rightarrow> evm_config list" where
  "accepted A cs = concat (map (\<lambda>c. case ae_config A c of Ok x \<Rightarrow> [x] | _ \<Rightarrow> []) cs)"

lemma for_chains_collect:
  "for_chains (collect_chain A) cs w = Ok w' \<Longrightarrow> w' = fold (collect_config (ae_eth A)) (accepted A cs) w"
proof (induction cs arbitrary: w)
  case (Cons c cs)
  then show ?case
    by (cases "ae_config A c") (auto simp: accepted_def collect_chain_def res_bind_Ok_iff split: if_splits)
qed (simp add: accepted_def)

lemma for_chains_register:
  "for_chains (register_chain A) cs w = Ok w' \<Longrightarrow> w' = fold register_config (accepted A cs) w"
proof (induction cs arbitrary: w)
  case (Cons c cs)
  then show ?case
    by (cases "ae_config A c") (auto simp: accepted_def register_chain_def res_bind_Ok_iff split: if_splits)
qed (simp add: accepted_def)

text \<open>A configuration with another number does not touch the entries of a domain.\<close>

lemma fold_register_other:
  assumes "i \<notin> config_id ` set xs"
  shows "registered (fold register_config xs w) i = registered w i"
    and "i \<in> supportedChains (fold register_config xs w) \<longleftrightarrow> i \<in> supportedChains w"
    and "confirmationsPerChain (fold register_config xs w) i = confirmationsPerChain w i"
  using assms by (induction xs arbitrary: w) (auto simp: register_config_def Let_def)

lemma fold_collect_other:
  assumes "i \<notin> config_id ` set xs"
  shows "acrossPools (fold (collect_config E) xs w) i = acrossPools w i"
    and "repayerAddresses (fold (collect_config E) xs w) i = repayerAddresses w i"
    and "all_tokens (fold (collect_config E) xs w) i = all_tokens w i"
  using assms by (induction xs arbitrary: w) (auto simp: collect_config_def Let_def)

lemma fold_register_keeps:
  "acrossPools (fold register_config xs w) = acrossPools w"
  "repayerAddresses (fold register_config xs w) = repayerAddresses w"
  "all_tokens (fold register_config xs w) = all_tokens w"
  by (induction xs arbitrary: w) (simp_all add: register_config_def Let_def)

lemma fold_collect_keeps:
  "supportedChains (fold (collect_config E) xs w) = supportedChains w"
  "confirmationsPerChain (fold (collect_config E) xs w) = confirmationsPerChain w"
  "registered (fold (collect_config E) xs w) = registered w"
  by (induction xs arbitrary: w) (simp_all add: collect_config_def Let_def)

lemma wire_Ok:
  assumes "wire A S cs = Ok w"
  defines "w2 \<equiv> fold register_config (accepted A cs) (fold (collect_config (ae_eth A)) (accepted A cs) empty_wiring)"
  shows "w = w2\<lparr>registered := (registered w2)(LIGHTER_DOMAIN_ID \<mapsto> [LighterMsg]),
             supportedChains := insert LIGHTER_DOMAIN_ID (supportedChains w2)\<rparr>"
  using assms by (auto simp: wire_def register_lighter_def w2_def res_bind_Ok_iff dest!: for_chains_collect for_chains_register)

lemma map_of_fold_update:
  "map_of (foldl (\<lambda>m c. AList.update (k c) (v c) m) m cs) =
     foldl (\<lambda>f c. f(k c \<mapsto> v c)) (map_of m) cs"
  by (induction cs arbitrary: m) (simp_all add: update_conv')

lemma foldl_update_last:
  "k c \<notin> k ` set ys \<Longrightarrow> foldl (\<lambda>f c. f(k c \<mapsto> v c)) f (xs @ c # ys) (k c) = Some (v c)"
  by (induction ys rule: rev_induct) auto

lemma map_of_token_map:
  assumes "NativeTokenSymbol sc = ''ETH'' \<longrightarrow> symbol \<noteq> ''ETH''"
  shows "map_of (token_map E sc) symbol =
    map_option (\<lambda>c. \<lparr>tc_Address = HexToAddress E (st_Address c), Decimals = as_uint8 (st_Decimals c)\<rparr>) (map_of (Tokens sc) symbol)"
proof -
  have "map_of (map (\<lambda>(s, c). (s, f c)) ts) symbol = map_option f (map_of ts symbol)" for f :: "solver_token \<Rightarrow> token_config" and ts
    by (induction ts) auto
  with assms show ?thesis by (auto simp: token_map_def Let_def update_conv')
qed

lemma as_uint8_id: "0 \<le> d \<Longrightarrow> d < 256 \<Longrightarrow> as_uint8 d = nat d"
  by (simp add: as_uint8_def unat_eq_nat_uint uint_word_of_int take_bit_int_eq_self)

section \<open>Properties\<close>

text \<open>The wiring follows the configuration: a chain gets exactly the handlers of the protocols it is
  configured for, and its pool is known to the handlers of all chains. The API is told of a chain when
  either of two protocols is configured, not of which: a chain may be supported without a handler for
  the protocol of a request, and a chain for credits alone has a handler no request can reach.\<close>

theorem wiring_follows_config:
  assumes "wire A S cs = Ok w" and "c \<in> set (accepted A cs)" and "distinct (map config_id (accepted A cs))"
    and "LIGHTER_DOMAIN_ID \<notin> config_id ` set (accepted A cs)"
  shows "registered w (config_id c) = Some (handlers_of c)
    \<and> (AcrossMsg \<in> set (handlers_of c) \<longleftrightarrow> AcrossPool c \<noteq> [])
    \<and> (LifiEscrowMsg \<in> set (handlers_of c) \<longleftrightarrow> LifiOutputSettler c \<noteq> [])
    \<and> (SprinterCreditMsg \<in> set (handlers_of c) \<longleftrightarrow> Liquidators c \<noteq> [])
    \<and> (config_id c \<in> supportedChains w \<longleftrightarrow> AcrossPool c \<noteq> [] \<or> LifiOutputSettler c \<noteq> [])
    \<and> (config_id c \<in> supportedChains w \<longrightarrow> confirmationsPerChain w (config_id c) = Some (ConfirmationsByValue c))
    \<and> acrossPools w (config_id c) = (if AcrossPool c \<noteq> [] then Some (HexToAddress (ae_eth A) (AcrossPool c)) else None)
    \<and> all_tokens w (config_id c) = Some (evm_Tokens c)"
proof -
  obtain xs ys where l: "accepted A cs = xs @ c # ys" using assms(2) split_list by metis
  have n: "config_id c \<notin> config_id ` set xs" "config_id c \<notin> config_id ` set ys" "config_id c \<noteq> LIGHTER_DOMAIN_ID"
    using assms(3,4) l by auto
  have m: "AcrossMsg \<in> set (handlers_of c) \<longleftrightarrow> AcrossPool c \<noteq> []"
    "LifiEscrowMsg \<in> set (handlers_of c) \<longleftrightarrow> LifiOutputSettler c \<noteq> []"
    "SprinterCreditMsg \<in> set (handlers_of c) \<longleftrightarrow> Liquidators c \<noteq> []"
    by (auto simp: handlers_of_def)
  show ?thesis
    unfolding wire_Ok [OF assms(1)] l using n m
    by (simp add: fold_register_other fold_register_keeps fold_collect_keeps fold_collect_other)
      (simp add: register_config_def collect_config_def Let_def fold_register_other fold_register_keeps fold_collect_keeps
        fold_collect_other empty_wiring_def)
qed

definition sample_general :: general_chain_config where
  "sample_general = \<lparr>Name = ''n'', Id = Some 10, Endpoint = ''e'', chain_Type = ''evm'', BlockstorePath = [], Blocktime = 12,
     BlockConfirmations = 5, chain_Key = [], Insecure = False\<rparr>"

definition sample_solver :: solver_config where
  "sample_solver = \<lparr>Chains = [''eip155:10'' \<mapsto> \<lparr>Tokens = [(''usdc'', \<lparr>st_Address = ''u'', st_Decimals = 6\<rparr>)], NativeTokenSymbol = ''ETH'',
       sch_Decimals = 18, Confirmations = [\<lparr>MaxAmountUSD = 100, sc_Confirmations = 2\<rparr>]\<rparr>,
       ''eip155:42161'' \<mapsto> \<lparr>Tokens = [(''usdc'', \<lparr>st_Address = ''v'', st_Decimals = 6\<rparr>)], NativeTokenSymbol = ''ETH'',
       sch_Decimals = 18, Confirmations = []\<rparr>],
     Sprinter_Repayer = Map.empty, SpokePools = Map.empty, HubPools = Map.empty, Lifi_OutputSettler = ''s'',
     Lifi_InputSettlerEscrow = ''i'', SprinterCredit = Map.empty, FastWithdrawalContract = [''eip155:42161'' \<mapsto> ''w''],
     Lighter_RepaymentAddress = ''9'', Sprinter_MpcAddress = ''m''\<rparr>"

definition sample_evm :: evm_config where
  "sample_evm = \<lparr>GeneralChainConfig = sample_general, Admin = [], AcrossPool = [], AcrossHubPool = [], LifiOutputSettler = ''s'',
     LifiInputSettlerEscrow = ''i'', Repayer = [], Liquidators = [], evm_Tokens = [], ConfirmationsByValue = [(100, 2)],
     BlockInterval = 5, BlockRetryInterval = 5\<rparr>"

definition sample_app :: app_env where
  "sample_app = \<lparr>ae_eth = sample_eth, ae_config = (\<lambda>_. Ok sample_evm), ae_dial = (\<lambda>_. Ok ()), ae_lifi_deps = Ok (),
     ae_head = (\<lambda>_. Ok 0)\<rparr>"

theorem wiring_follows_config_witness:
  "\<exists>w. wire sample_app sample_solver [[(''type'', CStr ''evm'')]] = Ok w
     \<and> 10 \<in> supportedChains w \<and> registered w 10 = Some [LifiEscrowMsg, LifiUnlockMsg]"
proof -
  have s: "ae_config sample_app = (\<lambda>_. Ok sample_evm)" "ae_dial sample_app = (\<lambda>_. Ok ())" "ae_lifi_deps sample_app = Ok ()"
    "ae_head sample_app = (\<lambda>_. Ok 0)"
    by (simp_all add: sample_app_def)
  obtain w where w: "wire sample_app sample_solver [[(''type'', CStr ''evm'')]] = Ok w"
    by (cases "LifiOutputSettler sample_evm = []"; cases "Admin sample_evm = []")
      (simp_all add: wire_def register_lighter_def s collect_chain_def register_chain_def cfg_at_def panicOnError_def NewLighterConfig_def
        sample_solver_def)
  have a: "accepted sample_app [[(''type'', CStr ''evm'')]] = [sample_evm]"
    by (simp add: accepted_def sample_app_def)
  have e: "config_id sample_evm = 10" "handlers_of sample_evm = [LifiEscrowMsg, LifiUnlockMsg]" "LifiOutputSettler sample_evm \<noteq> []"
    by (simp_all add: config_id_def handlers_of_def sample_evm_def sample_general_def)
  from wiring_follows_config [OF w, of sample_evm] a e w show ?thesis by (auto simp: LIGHTER_DOMAIN_ID_def)
qed

text \<open>The configuration of an EVM chain is the solver's: a token has the solver's address, and its decimals
  as long as they fit a byte (they wrap around otherwise); a bucket has the confirmations of the last
  entry for it; contracts that are not configured are empty.\<close>

theorem evm_config_follows_solver:
  assumes "NewEVMConfig E flag decode set_defaults S chainConfig = Ok c"
  shows "\<exists>sc i. Chains S (''eip155:'' @ show_nat (unat (i :: uint64))) = Some sc \<and> Id (GeneralChainConfig c) = Some i
    \<and> Endpoint (GeneralChainConfig c) \<noteq> [] \<and> Name (GeneralChainConfig c) \<noteq> []
    \<and> (\<forall>symbol t. map_of (Tokens sc) symbol = Some t \<and> symbol \<noteq> ''ETH'' \<and> 0 \<le> st_Decimals t \<and> st_Decimals t < 256 \<longrightarrow>
         map_of (evm_Tokens c) symbol = Some \<lparr>tc_Address = HexToAddress E (st_Address t), Decimals = nat (st_Decimals t)\<rparr>)
    \<and> (\<forall>xs x ys. Confirmations sc = xs @ x # ys \<and>
         (word_of_int (MaxAmountUSD x) :: uint64) \<notin> (\<lambda>y. word_of_int (MaxAmountUSD y)) ` set ys \<longrightarrow>
         map_of (ConfirmationsByValue c) (word_of_int (MaxAmountUSD x)) = Some (word_of_int (sc_Confirmations x)))
    \<and> (SpokePools S (''eip155:'' @ show_nat (unat i)) = None \<longrightarrow> AcrossPool c = [])"
proof -
  obtain raw i sc where x: "evm_Validate raw = Ok ()" "Id (raw_General raw) = Some i" "Chains S (eip155 i) = Some sc"
    "GeneralChainConfig c = ParseFlags flag (raw_General raw)" "evm_Tokens c = token_map E sc"
    "ConfirmationsByValue c = confirmations_map (Confirmations sc)" "AcrossPool c = or_empty (SpokePools S (eip155 i))"
    using assms unfolding NewEVMConfig_def res_bind_Ok_iff Let_def deref_iff of_option_iff by force
  have g: "Id (GeneralChainConfig c) = Some i" "Endpoint (GeneralChainConfig c) \<noteq> []" "Name (GeneralChainConfig c) \<noteq> []"
    using x(1,2,4) by (auto simp: ParseFlags_def evm_Validate_def chain_Validate_def res_simps)
  have t: "map_of (evm_Tokens c) symbol = Some \<lparr>tc_Address = HexToAddress E (st_Address t), Decimals = nat (st_Decimals t)\<rparr>"
    if "map_of (Tokens sc) symbol = Some t" "symbol \<noteq> ''ETH''" "0 \<le> st_Decimals t" "st_Decimals t < 256" for symbol t
    using that by (simp add: x(5) map_of_token_map as_uint8_id)
  have b: "map_of (ConfirmationsByValue c) (word_of_int (MaxAmountUSD x)) = Some (word_of_int (sc_Confirmations x))"
    if "Confirmations sc = xs @ x # ys" "(word_of_int (MaxAmountUSD x) :: uint64) \<notin> (\<lambda>y. word_of_int (MaxAmountUSD y)) ` set ys"
    for xs x' ys and x :: solver_confirmation
    using that foldl_update_last [of "\<lambda>c. word_of_int (MaxAmountUSD c) :: uint64" x ys]
    by (simp add: x(6) confirmations_map_def map_of_fold_update del: foldl_append)
  show ?thesis
    using x(3,7) g t b unfolding eip155_def by (intro exI [of _ sc] exI [of _ i]) (auto simp: or_empty_def)
qed

theorem evm_config_follows_solver_witness:
  "\<exists>c. NewEVMConfig sample_eth [] (\<lambda>_. Ok \<lparr>raw_General = sample_general, raw_Admin = [], raw_Repayer = [], raw_BlockInterval = 5,
       raw_BlockRetryInterval = 5\<rparr>) Ok sample_solver [] = Ok c \<and> Id (GeneralChainConfig c) \<noteq> None"
proof -
  obtain c where c: "NewEVMConfig sample_eth [] (\<lambda>_. Ok \<lparr>raw_General = sample_general, raw_Admin = [], raw_Repayer = [],
       raw_BlockInterval = 5, raw_BlockRetryInterval = 5\<rparr>) Ok sample_solver [] = Ok c"
    by (simp add: NewEVMConfig_def evm_Validate_def chain_Validate_def sample_general_def res_guard_def eip155_def sample_solver_def
        show_nat.simps digit_char_def char_of_def bit_Suc_0_iff)
  with evm_config_follows_solver [OF c] show ?thesis by auto
qed

text \<open>A relayer is told to restart when, and only when, a fetch that succeeds gives a configuration whose
  hash differs from the one it started with; failed fetches change nothing.\<close>

theorem config_change_noticed:
  assumes "calculateConfigHash marshal sha c = Ok h" and "\<And>x m. marshal x \<noteq> Panic m"
    and "\<And>m. Tick (Panic m) \<notin> set es"
  shows "\<exists>running. StartConfigWatcher marshal sha c es = Ok
     (\<exists>x h'. Tick (Ok x) \<in> set (takeWhile (\<lambda>e. e \<noteq> TickCtxDone) es) \<and> calculateConfigHash marshal sha x = Ok h' \<and> h' \<noteq> h, running)"
proof -
  have t: "fst (config_watch marshal sha h True es)" for es
  proof (induction es)
    case (Cons e es)
    then show ?case by (cases e) (auto split: res.splits bool.splits)
  qed simp
  have "\<forall>m. Tick (Panic m) \<notin> set es \<Longrightarrow> fst (config_watch marshal sha h False es) =
     (\<exists>x h'. Tick (Ok x) \<in> set (takeWhile (\<lambda>e. e \<noteq> TickCtxDone) es) \<and> calculateConfigHash marshal sha x = Ok h' \<and> h' \<noteq> h)"
  proof (induction es)
    case (Cons e es)
    show ?case
    proof (cases e)
      case (Tick r)
      show ?thesis
      proof (cases r)
        case (Ok x)
        show ?thesis
        proof (cases "calculateConfigHash marshal sha x")
          case (Panic m)
          then show ?thesis using assms(2) by (auto simp: calculateConfigHash_def res_simps)
        qed (use Cons Tick Ok t in \<open>auto simp: hasConfigChanged_def split: bool.splits\<close>)
      qed (use Cons Tick in \<open>auto simp: hasConfigChanged_def\<close>)
    qed simp
  qed simp
  then have f: "fst (config_watch marshal sha h False es) =
     (\<exists>x h'. Tick (Ok x) \<in> set (takeWhile (\<lambda>e. e \<noteq> TickCtxDone) es) \<and> calculateConfigHash marshal sha x = Ok h' \<and> h' \<noteq> h)"
    using assms(3) by blast
  show ?thesis
    unfolding StartConfigWatcher_def assms(1) f [symmetric]
    by (rule exI [of _ "snd (config_watch marshal sha h False es)"]) simp
qed

theorem config_change_noticed_witness:
  "\<exists>running. StartConfigWatcher (\<lambda>x :: nat. Ok [of_nat x]) id 1 [Tick (Fail (Errorf ''down'')), Tick (Ok 2)] = Ok (True, running)"
proof -
  have h: "calculateConfigHash (\<lambda>x :: nat. Ok [of_nat x]) id 1 = Ok (hex_encode [1])"
    by (simp add: calculateConfigHash_def)
  have d: "\<exists>x h'. Tick (Ok x) \<in> set (takeWhile (\<lambda>e. e \<noteq> TickCtxDone) [Tick (Fail (Errorf ''down'')), Tick (Ok (2 :: nat))])
      \<and> calculateConfigHash (\<lambda>x :: nat. Ok [of_nat x]) id x = Ok h' \<and> h' \<noteq> hex_encode [1]"
    by (rule exI [of _ 2]) (simp add: calculateConfigHash_def hex_encode_def hex_digit_def)
  from config_change_noticed [OF h, of "[Tick (Fail (Errorf ''down'')), Tick (Ok 2)]"] d show ?thesis by auto
qed

end
