(* ===== verification/Topology.thy ===== *)
theory Topology
  imports Go_Strconv Keyshare
begin

text \<open>
  The network topology, \<open>topology/\<close>: who may connect, the threshold, where the topology comes from
  (an encrypted document behind a URL, pinned by its hash) and the file it is kept in. The block
  cipher of \<open>crypto/aes\<close> and \<open>sha256\<close> are arguments; counter mode over the cipher is written out. A
  multiaddress is a string, and parsing one and the JSON form of an \<open>AddrInfo\<close> are libp2p's.
\<close>

record addr_info =
  ai_ID :: peer
  Addrs :: "string list"

record network_topology =
  TPeers :: "addr_info list"
  TThreshold :: int

definition IsAllowedPeer :: "network_topology \<Rightarrow> peer \<Rightarrow> bool" where
  "IsAllowedPeer nt p = list_ex (\<lambda>a. ai_ID a = p) (TPeers nt)"

record addr_lib =
  AddrInfoFromString :: "string \<Rightarrow> addr_info res"
  addr_json :: "addr_info \<Rightarrow> json"
  addr_of_json :: "json \<Rightarrow> addr_info res"

section \<open>Raw topologies\<close>

record raw_topology =
  RawPeers :: "string list"
  RawThreshold :: string

definition process_peer :: "addr_lib \<Rightarrow> string \<Rightarrow> addr_info res" where
  "process_peer A a = res_wrap (''invalid peer address '' @ a) (AddrInfoFromString A a)"

definition ProcessRawTopology :: "addr_lib \<Rightarrow> raw_topology \<Rightarrow> network_topology res" where
  "ProcessRawTopology A raw =
     res_bind (res_map (process_peer A) (RawPeers raw)) (\<lambda>peers.
     res_bind (res_wrap ''unable to parse mpc threshold from topology'' (parse_int0 64 (RawThreshold raw))) (\<lambda>threshold.
     res_bind (res_guard (1 \<le> threshold) (Errorf ''mpc threshold must be bigger then 0'')) (\<lambda>_.
     Ok \<lparr>TPeers = peers, TThreshold = threshold\<rparr>)))"

fun dec_raw_peer :: "json \<Rightarrow> string res" where
  "dec_raw_peer j = res_bind (members j) (\<lambda>kvs. struct_field kvs ''peerAddress'' dec_string [])"

fun dec_raw_peers :: "string list decoder" where
  "dec_raw_peers (JArr js) old = res_map dec_raw_peer js"
| "dec_raw_peers JNull old = Ok []"
| "dec_raw_peers _ old = Fail bad_json"

definition unmarshal_raw :: "json_text \<Rightarrow> bytes \<Rightarrow> raw_topology res" where
  "unmarshal_raw J b =
     res_bind (json_unmarshal_tree J b) (\<lambda>j.
     res_bind (members j) (\<lambda>kvs.
     res_bind (struct_field kvs ''peers'' dec_raw_peers []) (\<lambda>ps.
     res_bind (struct_field kvs ''threshold'' dec_string []) (\<lambda>t.
     Ok \<lparr>RawPeers = ps, RawThreshold = t\<rparr>))))"

section \<open>Counter mode\<close>

type_synonym cipher = "bytes \<Rightarrow> bytes"

text \<open>The counter is the whole block, incremented from its last byte.\<close>

fun incr_rev :: "bytes \<Rightarrow> bytes" where
  "incr_rev [] = []"
| "incr_rev (x # xs) = (if x + 1 = 0 then 0 # incr_rev xs else (x + 1) # xs)"

definition incr_block :: "bytes \<Rightarrow> bytes" where
  "incr_block b = rev (incr_rev (rev b))"

fun keystream :: "cipher \<Rightarrow> nat \<Rightarrow> bytes \<Rightarrow> bytes" where
  "keystream E 0 ctr = []"
| "keystream E (Suc n) ctr = E ctr @ keystream E n (incr_block ctr)"

definition xor_bytes :: "bytes \<Rightarrow> bytes \<Rightarrow> bytes" where
  "xor_bytes a b = map (\<lambda>(x, y). Bit_Operations.xor x y) (zip a b)"

text \<open>\<open>cipher.NewCTR(block, iv).XORKeyStream\<close>; one block of key stream per byte is plenty.\<close>

definition XORKeyStream :: "cipher \<Rightarrow> bytes \<Rightarrow> bytes \<Rightarrow> bytes" where
  "XORKeyStream E iv src = xor_bytes src (keystream E (length src) iv)"

text \<open>\<open>aes.NewCipher\<close> accepts keys of 16, 24 and 32 bytes; \<open>aes\<close> gives the cipher of a key.\<close>

definition NewAESEncryption :: "(bytes \<Rightarrow> cipher) \<Rightarrow> bytes \<Rightarrow> cipher res" where
  "NewAESEncryption aes key =
     (if length key \<in> {16, 24, 32} then Ok (aes key) else Fail (Errorf ''crypto/aes: invalid key size''))"

definition Decrypt :: "cipher \<Rightarrow> bytes \<Rightarrow> bytes res" where
  "Decrypt E ct =
     (if length ct < 16 then Panic ''slice bounds out of range''
      else Ok (XORKeyStream E (take 16 ct) (drop 16 ct)))"

text \<open>\<open>iv\<close> is what \<open>rand.Read\<close> fills in.\<close>

definition Encrypt :: "cipher \<Rightarrow> bytes res \<Rightarrow> bytes \<Rightarrow> bytes res" where
  "Encrypt E iv msg = res_bind iv (\<lambda>v. Ok (v @ XORKeyStream E v msg))"

section \<open>The provider\<close>

text \<open>\<open>get\<close> is the body that \<open>fetcher.Get\<close> and \<open>io.ReadAll\<close> deliver.\<close>

definition NetworkTopology ::
  "json_text \<Rightarrow> addr_lib \<Rightarrow> (bytes \<Rightarrow> bytes) \<Rightarrow> cipher \<Rightarrow> string res \<Rightarrow> string \<Rightarrow> network_topology res" where
  "NetworkTopology J A sha256 E get hash =
     res_bind get (\<lambda>rsp.
     res_bind (of_option (Errorf ''encoding/hex: invalid'') (hex_decode (trim_newline rsp))) (\<lambda>ct.
     let eh = hex_encode (sha256 ct) in
     if hash \<noteq> [] \<and> eh \<noteq> hash
     then Fail (Errorf (''topology hash '' @ eh @ '' not matching expected hash '' @ hash))
     else res_bind (Decrypt E ct) (\<lambda>plain.
          res_bind (unmarshal_raw J plain) (ProcessRawTopology A))))"

definition NewNetworkTopologyProvider :: "(bytes \<Rightarrow> cipher) \<Rightarrow> string \<Rightarrow> cipher res" where
  "NewNetworkTopologyProvider aes encryptionKey = NewAESEncryption aes (string_bytes encryptionKey)"

section \<open>The store\<close>

type_synonym topology_file = "bytes option"

definition topology_json :: "addr_lib \<Rightarrow> network_topology \<Rightarrow> json" where
  "topology_json A t =
     JObj [(''Peers'', JArr (map (addr_json A) (TPeers t))), (''Threshold'', JNum (TThreshold t))]"

fun dec_peers :: "addr_lib \<Rightarrow> addr_info list decoder" where
  "dec_peers A (JArr js) old = res_map (addr_of_json A) js"
| "dec_peers A JNull old = Ok []"
| "dec_peers A _ old = Fail bad_json"

definition StoreTopology ::
  "json_text \<Rightarrow> addr_lib \<Rightarrow> file_ops \<Rightarrow> network_topology \<Rightarrow> topology_file \<Rightarrow> topology_file \<times> unit res" where
  "StoreTopology J A os t f =
     (case open_err os of
        Some e \<Rightarrow> (f, Fail e)
      | None \<Rightarrow>
          (let kb = jrender J (topology_json A t) in
           case write_err os of
             Some (n, e) \<Rightarrow> (Some (take n kb), Fail e)
           | None \<Rightarrow> (Some kb, Ok ())))"

text \<open>A file that holds \<open>null\<close> reads as a nil pointer without an error.\<close>

definition Topology_read :: "json_text \<Rightarrow> addr_lib \<Rightarrow> topology_file \<Rightarrow> network_topology option res" where
  "Topology_read J A f =
     res_bind (of_option (Errorf ''no such file'') f) (\<lambda>tb.
     res_bind (json_unmarshal_tree J tb) (\<lambda>j.
     if j = JNull then Ok None
     else res_bind (members j) (\<lambda>kvs.
          res_bind (struct_field kvs ''Peers'' (dec_peers A) []) (\<lambda>ps.
          res_bind (struct_field kvs ''Threshold'' dec_int64 0) (\<lambda>t.
          Ok (Some \<lparr>TPeers = ps, TThreshold = t\<rparr>))))))"

section \<open>Lemmas\<close>

lemma length_keystream: "(\<And>b. length (E b) = 16) \<Longrightarrow> length (keystream E n ctr) = 16 * n"
  by (induction n arbitrary: ctr) auto

lemma xor_bytes_twice: "length a \<le> length k \<Longrightarrow> xor_bytes (xor_bytes a k) k = a"
proof (induction a arbitrary: k)
  case (Cons x a)
  then obtain y k' where "k = y # k'" by (cases k) auto
  with Cons show ?case by (simp add: xor_bytes_def ac_simps)
qed (simp add: xor_bytes_def)

lemma length_XORKeyStream:
  "(\<And>b. length (E b) = 16) \<Longrightarrow> length (XORKeyStream E iv msg) = length msg"
  by (simp add: XORKeyStream_def xor_bytes_def length_keystream)

lemma XORKeyStream_twice:
  assumes "\<And>b. length (E b) = 16"
  shows "XORKeyStream E iv (XORKeyStream E iv msg) = msg"
  using length_XORKeyStream [of E iv msg] assms
  by (simp add: XORKeyStream_def xor_bytes_twice length_keystream)

lemma Decrypt_Encrypt:
  assumes "\<And>b. length (E b) = 16" and "length iv = 16" and "Encrypt E (Ok iv) msg = Ok ct"
  shows "Decrypt E ct = Ok msg"
  using assms by (auto simp: Encrypt_def Decrypt_def XORKeyStream_twice [OF assms(1)])

lemma NetworkTopology_served:
  assumes "\<And>b. length (E b) = 16" and "length iv = 16" and "Encrypt E (Ok iv) plain = Ok ct"
    and "unmarshal_raw J plain = Ok raw"
  shows "NetworkTopology J A sha E (Ok (hex_encode ct @ [CHR 0x0A])) (hex_encode (sha ct)) = ProcessRawTopology A raw"
  using Decrypt_Encrypt [OF assms(1-3)] assms(4) by (simp add: NetworkTopology_def hex_decode_encode)

lemma ProcessRawTopology_threshold:
  "ProcessRawTopology A raw = Ok t \<Longrightarrow>
   1 \<le> TThreshold t \<and> TThreshold t < 2 ^ 63 \<and> length (TPeers t) = length (RawPeers raw)"
proof -
  have "parse_int0 64 x = Ok i \<Longrightarrow> i < 2 ^ 63" for x i
    by (auto simp: parse_int0_def Let_def split: option.splits if_splits)
  then show "ProcessRawTopology A raw = Ok t \<Longrightarrow> ?thesis"
    by (auto simp: ProcessRawTopology_def res_simps res_map_Ok_length)
qed

section \<open>Properties\<close>

text \<open>C29: a topology published as the tooling publishes it, encrypted in counter mode and written in
  hexadecimal with a final newline, is the one the relayers read under its hash; and under a
  pinned hash the relayer uses nothing but a document with that hash, whatever the server
  answers, and only with a threshold of at least one.\<close>

theorem topology_pinned:
  assumes "\<And>b. length (E b) = 16" and "length iv = 16" and "Encrypt E (Ok iv) plain = Ok ct"
    and "unmarshal_raw J plain = Ok raw" and "hash \<noteq> []"
  shows "NetworkTopology J A sha E (Ok (hex_encode ct @ [CHR 0x0A])) (hex_encode (sha ct))
      = ProcessRawTopology A raw
    \<and> (NetworkTopology J A sha E get hash = Ok t \<longrightarrow>
         (\<exists>rsp ct'. get = Ok rsp \<and> hex_decode (trim_newline rsp) = Some ct' \<and> hex_encode (sha ct') = hash)
         \<and> 1 \<le> TThreshold t)"
proof -
  have "NetworkTopology J A sha E (Ok (hex_encode ct @ [CHR 0x0A])) (hex_encode (sha ct))
      = ProcessRawTopology A raw"
    by (rule NetworkTopology_served [OF assms(1-4)])
  moreover have "(\<exists>rsp ct'. get = Ok rsp \<and> hex_decode (trim_newline rsp) = Some ct' \<and> hex_encode (sha ct') = hash)
      \<and> 1 \<le> TThreshold t"
    if "NetworkTopology J A sha E get hash = Ok t"
    using that assms(5) ProcessRawTopology_threshold
    by (auto simp: NetworkTopology_def Let_def res_bind_Ok_iff of_option_iff split: if_splits)
  ultimately show ?thesis by blast
qed

text \<open>A cipher that returns its block, padded, a library without peers and a document.\<close>

definition sample_cipher :: cipher where
  "sample_cipher b = take 16 (b @ replicate 16 0)"

definition sample_addr :: addr_lib where
  "sample_addr = \<lparr>AddrInfoFromString = (\<lambda>a. Ok \<lparr>ai_ID = a, Addrs = [a]\<rparr>), addr_json = (\<lambda>a. JStr (ai_ID a)),
     addr_of_json = (\<lambda>j. case j of JStr a \<Rightarrow> Ok \<lparr>ai_ID = a, Addrs = [a]\<rparr> | _ \<Rightarrow> Fail bad_json)\<rparr>"

definition sample_doc :: json where
  "sample_doc = JObj [(''peers'', JArr [JObj [(''peerAddress'', JStr ''p'')]]), (''threshold'', JStr ''2'')]"

lemma length_sample_cipher: "length (sample_cipher b) = 16"
  by (simp add: sample_cipher_def)

lemma sample_raw: "unmarshal_raw (one_doc sample_doc []) [1] = Ok \<lparr>RawPeers = [''p''], RawThreshold = ''2''\<rparr>"
  by (simp add: unmarshal_raw_def json_unmarshal_tree_def sample_doc_def struct_field_def jfield_def fold_name_def
      lower_char_def char_of_def)

theorem topology_pinned_witness:
  "NetworkTopology (one_doc sample_doc []) sample_addr id sample_cipher
     (Ok (hex_encode (replicate 16 7 @ XORKeyStream sample_cipher (replicate 16 7) [1]) @ [CHR 0x0A]))
     (hex_encode (replicate 16 7 @ XORKeyStream sample_cipher (replicate 16 7) [1]))
   = ProcessRawTopology sample_addr \<lparr>RawPeers = [''p''], RawThreshold = ''2''\<rparr>"
proof -
  show ?thesis
    using topology_pinned [OF length_sample_cipher _ _ sample_raw, where iv = "replicate 16 7" and sha = id and A = sample_addr and hash = "''h''"]
    by (simp add: Encrypt_def)
qed

text \<open>A topology that was stored without an error is the one the store reads back.\<close>

theorem topology_store_roundtrip:
  assumes "StoreTopology J A os t f = (f', Ok ())" and "text_ok J (topology_json A t)"
    and "\<And>a. a \<in> set (TPeers t) \<Longrightarrow> addr_of_json A (addr_json A a) = Ok a"
    and "- (2 ^ 63) \<le> TThreshold t" and "TThreshold t < 2 ^ 63"
  shows "Topology_read J A f' = Ok (Some t)"
proof -
  have f: "f' = Some (jrender J (topology_json A t))"
    using assms(1) by (auto simp: StoreTopology_def Let_def split: option.splits)
  have "res_map (addr_of_json A) (map (addr_json A) (TPeers t)) = Ok (TPeers t)"
    using assms(3) by (rule res_map_inverse)
  then show ?thesis
    using assms(2,4,5)
    by (simp add: Topology_read_def f)
      (simp add: topology_json_def struct_field_def jfield_def fold_name_def lower_char_def char_of_def)
qed

theorem topology_store_roundtrip_witness:
  "let t = \<lparr>TPeers = [\<lparr>ai_ID = ''p'', Addrs = [''p'']\<rparr>], TThreshold = 2\<rparr>;
       J = one_doc (topology_json sample_addr t) []
   in Topology_read J sample_addr (Some [0]) = Ok (Some t)"
  unfolding Let_def
  by (rule topology_store_roundtrip [where os = "\<lparr>open_err = None, write_err = None\<rparr>" and f = None])
    (simp_all add: StoreTopology_def sample_addr_def)

end
