(* ===== verification/P2p.thy ===== *)
theory P2p
  imports Comm Topology
begin

text \<open>
  The libp2p transport, \<open>comm/p2p\<close>: framing of messages on a stream, the stream manager, sending and
  broadcasting, the loop that reads a peer's stream and hands messages to the subscribers, the
  connection gate and the peer store, and the health check over it (\<open>comm/health.go\<close>, \<open>jobs\<close>). The
  network itself is the record \<open>'st net\<close> of what the calls into libp2p and the resolver answer;
  \<open>'st\<close> is a \<open>network.Stream\<close>.
\<close>

record 'st net =
  PeerInfoAddrs :: "peer \<Rightarrow> string list"
  NewResolver :: "unit res"
  Resolve :: "string \<Rightarrow> string list res"
  Connect :: "peer \<Rightarrow> string list \<Rightarrow> unit res"
  NewStream :: "peer \<Rightarrow> 'st res"
  Fprintf :: "'st \<Rightarrow> bytes \<Rightarrow> unit res"
  Flush :: "'st \<Rightarrow> unit res"

section \<open>Framing\<close>

definition newline :: byte where
  "newline = 10"

text \<open>\<open>r.ReadString('\n')\<close>: what precedes the first newline and what follows it.\<close>

fun read_string :: "bytes \<Rightarrow> (bytes \<times> bytes) option" where
  "read_string [] = None"
| "read_string (x # xs) =
     (if x = newline then Some ([x], xs)
      else case read_string xs of None \<Rightarrow> None | Some (l, r) \<Rightarrow> Some (x # l, r))"

definition trim_newlines :: "bytes \<Rightarrow> bytes" where
  "trim_newlines b = rev (dropWhile (\<lambda>x. x = newline) (rev (dropWhile (\<lambda>x. x = newline) b)))"

text \<open>The message and the rest of the stream.\<close>

definition ReadStream :: "bytes \<Rightarrow> (bytes \<times> bytes) res" where
  "ReadStream input =
     (case read_string input of
        None \<Rightarrow> Fail (Errorf ''EOF'')
      | Some (msg, rest) \<Rightarrow>
          (if msg = [] then Fail (Errorf ''end of stream reached'') else Ok (trim_newlines msg, rest)))"

definition frame :: "bytes \<Rightarrow> bytes" where
  "frame msg = msg @ [newline]"

text \<open>\<open>WriteStream\<close>: the bytes that reach the stream when both calls succeed.\<close>

definition WriteStream :: "'st net \<Rightarrow> bytes \<Rightarrow> 'st \<Rightarrow> bytes res" where
  "WriteStream N msg s =
     res_bind (Fprintf N s (frame msg)) (\<lambda>_.
     res_bind (res_wrap ''fail to flush stream'' (Flush N s)) (\<lambda>_.
     Ok (frame msg)))"

lemma read_string_frame:
  "newline \<notin> set msg \<Longrightarrow> read_string (frame msg @ rest) = Some (frame msg, rest)"
  by (induction msg) (auto simp: frame_def)

lemma trim_frame: "newline \<notin> set msg \<Longrightarrow> trim_newlines (frame msg) = msg"
proof -
  assume a: "newline \<notin> set msg"
  have "dropWhile (\<lambda>x. x = newline) xs = xs" if "newline \<notin> set xs" for xs
    using that by (cases xs) auto
  with a show ?thesis
    by (cases msg) (auto simp: trim_newlines_def frame_def)
qed

lemma ReadStream_frame: "newline \<notin> set msg \<Longrightarrow> ReadStream (frame msg @ rest) = Ok (msg, rest)"
  by (simp add: ReadStream_def read_string_frame trim_frame) (simp add: frame_def)

lemma read_string_shorter: "read_string b = Some (l, r) \<Longrightarrow> length r < length b"
  by (induction b arbitrary: l) (auto split: if_splits option.splits)

lemma ReadStream_shorter: "ReadStream b = Ok (m, r) \<Longrightarrow> length r < length b"
  by (auto simp: ReadStream_def dest: read_string_shorter split: option.splits if_splits)

section \<open>The stream manager\<close>

record 'st stream_manager =
  streamsByPeer :: "peer \<rightharpoonup> 'st"
  closed :: "'st list"

definition NewStreamManager :: "'st stream_manager" where
  "NewStreamManager = \<lparr>streamsByPeer = Map.empty, closed = []\<rparr>"

definition CloseStream :: "'st stream_manager \<Rightarrow> peer \<Rightarrow> 'st stream_manager" where
  "CloseStream sm p =
     (case streamsByPeer sm p of
        None \<Rightarrow> sm
      | Some s \<Rightarrow> sm\<lparr>streamsByPeer := (streamsByPeer sm)(p := None), closed := closed sm @ [s]\<rparr>)"

definition Stream :: "'st net \<Rightarrow> 'st stream_manager \<Rightarrow> peer \<Rightarrow> 'st stream_manager \<times> 'st res" where
  "Stream N sm p =
     (case streamsByPeer sm p of
        Some s \<Rightarrow> (sm, Ok s)
      | None \<Rightarrow>
          (case NewStream N p of
             Ok s \<Rightarrow> (sm\<lparr>streamsByPeer := (streamsByPeer sm)(p \<mapsto> s)\<rparr>, Ok s)
           | Fail e \<Rightarrow> (sm, Fail e)
           | Panic m \<Rightarrow> (sm, Panic m)))"

section \<open>Sending\<close>

definition resolveDNS :: "'st net \<Rightarrow> peer \<Rightarrow> unit res" where
  "resolveDNS N peerID =
     res_bind (NewResolver N) (\<lambda>_.
     case PeerInfoAddrs N peerID of
       [] \<Rightarrow> Fail (Errorf ''peer has no defined addresses'')
     | a # _ \<Rightarrow> res_bind (Resolve N a) (\<lambda>addr. Connect N peerID addr))"

text \<open>What is on the wire is a list of streams with the bytes written to them.\<close>

type_synonym 'st wire = "('st \<times> bytes) list"

definition sendMessage ::
  "'st net \<Rightarrow> 'st stream_manager \<Rightarrow> peer \<Rightarrow> bytes \<Rightarrow> 'st stream_manager \<times> 'st wire \<times> unit res" where
  "sendMessage N sm dest msg =
     (case resolveDNS N dest of
        Fail e \<Rightarrow> (sm, [], Fail e)
      | Panic m \<Rightarrow> (sm, [], Panic m)
      | Ok _ \<Rightarrow>
          (case Stream N sm dest of
             (sm1, Fail e) \<Rightarrow> (sm1, [], Fail e)
           | (sm1, Panic m) \<Rightarrow> (sm1, [], Panic m)
           | (sm1, Ok s) \<Rightarrow>
               (case WriteStream N msg s of
                  Ok b \<Rightarrow> (sm1, [(s, b)], Ok ())
                | Fail e \<Rightarrow> (CloseStream sm1 dest, [], Fail e)
                | Panic m \<Rightarrow> (sm1, [], Panic m))))"

text \<open>
  \<open>Broadcast\<close> sends to every peer but the host, each in its own goroutine; the list of peers is
  taken in the order in which the goroutines run. The first error is the result.
\<close>

fun broadcast_to ::
  "'st net \<Rightarrow> peer \<Rightarrow> bytes \<Rightarrow> peer list \<Rightarrow> 'st stream_manager \<Rightarrow> 'st stream_manager \<times> 'st wire \<times> unit res" where
  "broadcast_to N self msg [] sm = (sm, [], Ok ())"
| "broadcast_to N self msg (p # ps) sm =
     (if self = p then broadcast_to N self msg ps sm
      else case sendMessage N sm p msg of
             (sm1, w, r) \<Rightarrow>
               (case broadcast_to N self msg ps sm1 of
                  (sm2, w2, r2) \<Rightarrow>
                    (sm2, w @ w2, case r of Ok _ \<Rightarrow> r2
                                          | Fail e \<Rightarrow> Fail (CommunicationError p e)
                                          | Panic m \<Rightarrow> Panic m)))"

definition p2p_Broadcast ::
  "json_text \<Rightarrow> 'st net \<Rightarrow> host \<Rightarrow> 'st stream_manager \<Rightarrow> peer list \<Rightarrow> bytes \<Rightarrow> message_type \<Rightarrow> string \<Rightarrow>
   'st stream_manager \<times> 'st wire \<times> unit res" where
  "p2p_Broadcast J N h sm peers msg msgType sessionID =
     broadcast_to N (host_ID h)
       (marshal_wrapped J \<lparr>MessageType = msgType, SessionID = sessionID, Payload = msg, From = host_ID h\<rparr>) peers sm"

definition p2p_CloseSession :: "'st stream_manager \<Rightarrow> string \<Rightarrow> 'st stream_manager" where
  "p2p_CloseSession sm sessionID = sm"

section \<open>Receiving\<close>

text \<open>
  \<open>ProcessMessagesFromStream\<close> over the bytes of the stream. \<open>ms n\<close> are the subscriptions when message
  \<open>n\<close> arrives; the result is what is sent to which channel.
\<close>

function ProcessMessagesFromStream ::
  "json_text \<Rightarrow> peer \<Rightarrow> (nat \<Rightarrow> 'ch sub_manager) \<Rightarrow> nat \<Rightarrow> bytes \<Rightarrow> ('ch \<times> wrapped_message) list" where
  "ProcessMessagesFromStream J remote ms n input =
     (case ReadStream input of
        Ok (msgBytes, rest) \<Rightarrow>
          (case unmarshal_wrapped J msgBytes of
             Ok w \<Rightarrow>
               map (\<lambda>sub. (sub, w\<lparr>From := remote\<rparr>)) (GetSubscribers (ms n) (SessionID w) (MessageType w))
               @ ProcessMessagesFromStream J remote ms (Suc n) rest
           | _ \<Rightarrow> [])
      | _ \<Rightarrow> [])"
  by pat_completeness auto

termination
  by (relation "measure (\<lambda>(J, remote, ms, n, input). length input)") (auto dest: ReadStream_shorter)

declare ProcessMessagesFromStream.simps [simp del]

section \<open>Who may connect\<close>

record connection_gate =
  gate_topology :: network_topology

definition NewConnectionGate :: "network_topology \<Rightarrow> connection_gate" where
  "NewConnectionGate t = \<lparr>gate_topology = t\<rparr>"

definition SetTopology :: "connection_gate \<Rightarrow> network_topology \<Rightarrow> connection_gate" where
  "SetTopology cg t = cg\<lparr>gate_topology := t\<rparr>"

definition InterceptPeerDial :: "connection_gate \<Rightarrow> peer \<Rightarrow> bool" where
  "InterceptPeerDial cg p = IsAllowedPeer (gate_topology cg) p"

definition InterceptSecured :: "connection_gate \<Rightarrow> peer \<Rightarrow> bool" where
  "InterceptSecured cg p = IsAllowedPeer (gate_topology cg) p"

definition InterceptAddrDial :: "connection_gate \<Rightarrow> peer \<Rightarrow> string \<Rightarrow> bool" where
  "InterceptAddrDial cg p a = True"

definition InterceptAccept :: "connection_gate \<Rightarrow> bool" where
  "InterceptAccept cg = True"

text \<open>The second value is the reason of a disconnect.\<close>

definition InterceptUpgraded :: "connection_gate \<Rightarrow> bool \<times> nat" where
  "InterceptUpgraded cg = (True, 0)"

text \<open>A connection that libp2p dials, or accepts, is kept when every stage it passes lets it through.\<close>

definition dial_allowed :: "connection_gate \<Rightarrow> peer \<Rightarrow> string \<Rightarrow> bool" where
  "dial_allowed cg p a \<longleftrightarrow>
     InterceptPeerDial cg p \<and> InterceptAddrDial cg p a \<and> InterceptSecured cg p \<and> fst (InterceptUpgraded cg)"

definition accept_allowed :: "connection_gate \<Rightarrow> peer \<Rightarrow> bool" where
  "accept_allowed cg p \<longleftrightarrow> InterceptAccept cg \<and> InterceptSecured cg p \<and> fst (InterceptUpgraded cg)"

text \<open>The peer store: addresses by peer.\<close>

type_synonym peerstore = "(peer \<times> string list) list"

definition AddAddr :: "peerstore \<Rightarrow> peer \<Rightarrow> string \<Rightarrow> peerstore" where
  "AddAddr ps p a =
     (case map_of ps p of
        None \<Rightarrow> ps @ [(p, [a])]
      | Some as \<Rightarrow> AList.update p (if a \<in> set as then as else as @ [a]) ps)"

fun add_peers :: "peerstore \<Rightarrow> addr_info list \<Rightarrow> peerstore res" where
  "add_peers ps [] = Ok ps"
| "add_peers ps (i # is) =
     res_bind (at_index (Addrs i) 0) (\<lambda>a. add_peers (AddAddr ps (ai_ID i) a) is)"

definition LoadPeers :: "peerstore \<Rightarrow> addr_info list \<Rightarrow> peerstore res" where
  "LoadPeers ps peers =
     add_peers (foldl (\<lambda>s p. filter (\<lambda>(q, _). q \<noteq> p) s) ps (map fst ps)) peers"

section \<open>The health check\<close>

text \<open>The type assertion on the error of \<open>Broadcast\<close> panics for any other error.\<close>

fun health_errors ::
  "json_text \<Rightarrow> 'st net \<Rightarrow> host \<Rightarrow> peer list \<Rightarrow> 'st stream_manager \<Rightarrow> 'st stream_manager \<times> (peer \<times> go_error) list res" where
  "health_errors J N h [] sm = (sm, Ok [])"
| "health_errors J N h (p # ps) sm =
     (case p2p_Broadcast J N h sm [p] [] Unknown ''health-session'' of
        (sm1, _, Ok _) \<Rightarrow> health_errors J N h ps sm1
      | (sm1, _, Fail (CommunicationError q e)) \<Rightarrow>
          (case health_errors J N h ps sm1 of
             (sm2, r) \<Rightarrow> (sm2, res_bind r (\<lambda>es. Ok ((q, e) # es))))
      | (sm1, _, Fail _) \<Rightarrow> (sm1, Panic ''interface conversion'')
      | (sm1, _, Panic m) \<Rightarrow> (sm1, Panic m))"

definition ExecuteCommHealthCheck ::
  "json_text \<Rightarrow> 'st net \<Rightarrow> host \<Rightarrow> peer list \<Rightarrow> 'st stream_manager \<Rightarrow> 'st stream_manager \<times> (peer \<times> go_error) list res" where
  "ExecuteCommHealthCheck J N h peers sm = health_errors J N h peers sm"

text \<open>One round of \<open>StartCommunicationHealthCheckJob\<close>: the two arguments of \<open>TrackRelayerStatus\<close>.\<close>

definition health_round ::
  "json_text \<Rightarrow> 'st net \<Rightarrow> host \<Rightarrow> 'st stream_manager \<Rightarrow> 'st stream_manager \<times> (peer list \<times> peer list) res" where
  "health_round J N h sm =
     (case ExecuteCommHealthCheck J N h (Peerstore h) sm of
        (sm', r) \<Rightarrow> (sm', res_bind r (\<lambda>es. Ok (map fst es, Peerstore h))))"

section \<open>What arrives\<close>

definition wrapped_json :: "json_text \<Rightarrow> wrapped_message \<Rightarrow> json" where
  "wrapped_json J m =
     JObj [(''message_type'', JNum (MessageType m)), (''message_id'', JStr (SessionID m)),
           (''payload'', JStr (b64enc J (Payload m)))]"

text \<open>Printing the message loses nothing and puts no newline into the text, as \<open>json.Marshal\<close>
  promises.\<close>

definition sendable :: "json_text \<Rightarrow> wrapped_message \<Rightarrow> bool" where
  "sendable J w \<longleftrightarrow> text_ok J (wrapped_json J w) \<and> b64_ok J (Payload w)
     \<and> newline \<notin> set (marshal_wrapped J w) \<and> - (2 ^ 63) \<le> MessageType w \<and> MessageType w < 2 ^ 63"

lemma wrapped_fields:
  "jfield ''message_type'' [(''message_type'', a), (''message_id'', b), (''payload'', c)] = Some a"
  "jfield ''message_id'' [(''message_type'', a), (''message_id'', b), (''payload'', c)] = Some b"
  "jfield ''payload'' [(''message_type'', a), (''message_id'', b), (''payload'', c)] = Some c"
  by (simp_all add: jfield_def fold_name_def lower_char_def char_of_def)

lemma unmarshal_marshal_wrapped:
  assumes "sendable J w"
  shows "unmarshal_wrapped J (marshal_wrapped J w) = Ok (w\<lparr>From := []\<rparr>)"
proof -
  have "marshal_wrapped J w = jrender J (wrapped_json J w)"
    by (simp add: marshal_wrapped_def wrapped_json_def)
  then show ?thesis
    using assms
    by (simp add: unmarshal_wrapped_def sendable_def)
      (simp add: wrapped_json_def struct_field_def wrapped_fields b64_ok_def)
qed

definition hand_out :: "peer \<Rightarrow> 'ch sub_manager \<Rightarrow> wrapped_message \<Rightarrow> ('ch \<times> wrapped_message) list" where
  "hand_out remote ms w =
     map (\<lambda>sub. (sub, w\<lparr>From := remote\<rparr>)) (GetSubscribers ms (SessionID w) (MessageType w))"

lemma ProcessMessages_frame:
  assumes "sendable J w"
  shows "ProcessMessagesFromStream J remote ms n (frame (marshal_wrapped J w) @ rest) =
    hand_out remote (ms n) w @ ProcessMessagesFromStream J remote ms (Suc n) rest"
proof -
  have "ReadStream (frame (marshal_wrapped J w) @ rest) = Ok (marshal_wrapped J w, rest)"
    using assms by (intro ReadStream_frame) (simp add: sendable_def)
  then show ?thesis
    by (subst ProcessMessagesFromStream.simps) (simp add: unmarshal_marshal_wrapped [OF assms] hand_out_def)
qed

lemma ProcessMessages_empty: "ProcessMessagesFromStream J remote ms n [] = []"
  by (subst ProcessMessagesFromStream.simps) (simp add: ReadStream_def)

lemma ProcessMessages_authentic:
  "\<forall>(sub, m) \<in> set (ProcessMessagesFromStream J remote ms n input).
     From m = remote \<and> (\<exists>k. sub \<in> set (GetSubscribers (ms k) (SessionID m) (MessageType m)))"
proof (induction J remote ms n input rule: ProcessMessagesFromStream.induct)
  case (1 J remote ms n input)
  note eq = ProcessMessagesFromStream.simps [of J remote ms n input]
  show ?case
  proof (cases "\<exists>mb rest w. ReadStream input = Ok (mb, rest) \<and> unmarshal_wrapped J mb = Ok w")
    case True
    then obtain mb rest w where ok: "ReadStream input = Ok (mb, rest)" "unmarshal_wrapped J mb = Ok w"
      by blast
    then show ?thesis using "1.IH" [OF ok(1) refl ok(2)] by (auto simp: eq)
  next
    case False
    then have "ProcessMessagesFromStream J remote ms n input = []"
      by (auto simp: eq split: res.splits)
    then show ?thesis by simp
  qed
qed



text \<open>Whatever bytes a peer sends, every message that reaches a subscriber bears that peer's own
  identity as its sender, and reaches only channels subscribed to its session and type.\<close>

theorem p2p_sender_authentic:
  "\<forall>d \<in> set (ProcessMessagesFromStream J remote ms n input).
     From (snd d) = remote
     \<and> (\<exists>k. fst d \<in> set (GetSubscribers (ms k) (SessionID (snd d)) (MessageType (snd d))))"
  using ProcessMessages_authentic [of J remote ms n input] by (auto split: prod.splits)

theorem p2p_sender_authentic_witness:
  "From (snd (hd (ProcessMessagesFromStream
       (one_doc (JObj [(''message_type'', JNum 5), (''message_id'', JStr ''s''), (''from'', JStr ''b'')]) []) ''a''
       (\<lambda>_. \<lparr>subscribersMap = [''s'' \<mapsto> [5 \<mapsto> [(''1'', 3::nat)]]]\<rparr>) 0 [1, 10]))) = ''a''"
proof -
  let ?p = "ProcessMessagesFromStream
       (one_doc (JObj [(''message_type'', JNum 5), (''message_id'', JStr ''s''), (''from'', JStr ''b'')]) []) ''a''
       (\<lambda>_. \<lparr>subscribersMap = [''s'' \<mapsto> [5 \<mapsto> [(''1'', 3::nat)]]]\<rparr>) 0 [1, 10]"
  have "?p \<noteq> []"
    by (subst ProcessMessagesFromStream.simps)
      (simp add: ReadStream_def newline_def trim_newlines_def unmarshal_wrapped_def json_unmarshal_tree_def
        struct_field_def jfield_def fold_name_def lower_char_def char_of_def GetSubscribers_def subs_of_def)
  then have "hd ?p \<in> set ?p" by simp
  then show ?thesis using p2p_sender_authentic by blast
qed

section \<open>What is sent\<close>

text \<open>\<open>owner s\<close> is the peer at the other end of stream \<open>s\<close>: \<open>NewStream\<close> opens a stream to the peer it is
  asked for.\<close>

definition opens_to :: "('st \<Rightarrow> peer) \<Rightarrow> 'st net \<Rightarrow> bool" where
  "opens_to owner N \<longleftrightarrow> (\<forall>p s. NewStream N p = Ok s \<longrightarrow> owner s = p)"

definition streams_inv :: "('st \<Rightarrow> peer) \<Rightarrow> 'st stream_manager \<Rightarrow> bool" where
  "streams_inv owner sm \<longleftrightarrow> (\<forall>p s. streamsByPeer sm p = Some s \<longrightarrow> owner s = p)"

lemma streams_inv_close: "streams_inv owner sm \<Longrightarrow> streams_inv owner (CloseStream sm p)"
  by (auto simp: streams_inv_def CloseStream_def split: option.splits)

lemma Stream_owner:
  assumes "opens_to owner N" and "streams_inv owner sm" and "Stream N sm p = (sm', r)"
  shows "streams_inv owner sm'" and "r = Ok s \<Longrightarrow> owner s = p"
  using assms by (auto simp: Stream_def streams_inv_def opens_to_def split: option.splits res.splits if_splits)

lemma WriteStream_Ok: "WriteStream N msg s = Ok b \<Longrightarrow> b = frame msg"
  by (auto simp: WriteStream_def res_simps)

lemma sendMessage_spec:
  assumes "opens_to owner N" and "streams_inv owner sm" and "sendMessage N sm p msg = (sm', w, r)"
  shows "streams_inv owner sm' \<and> (if r = Ok () then \<exists>s. owner s = p \<and> w = [(s, frame msg)] else w = [])"
proof -
  obtain sm1 rs where st: "Stream N sm p = (sm1, rs)" by fastforce
  note own = Stream_owner [OF assms(1,2) st]
  show ?thesis
  proof (cases "resolveDNS N p")
    case (Ok u)
    then show ?thesis
    proof (cases rs)
      case rs: (Ok s)
      then show ?thesis
        using assms(3) Ok st own(1) own(2) [OF rs] streams_inv_close [OF own(1), of p]
        by (cases "WriteStream N msg s") (auto simp: sendMessage_def dest: WriteStream_Ok)
    qed (use assms(3) Ok st own(1) in \<open>auto simp: sendMessage_def\<close>)
  qed (use assms(2,3) in \<open>auto simp: sendMessage_def\<close>)
qed

text \<open>A broadcast writes the message, framed once, only to streams of the listed peers and never
  to the relayer itself; when it reports no error every listed peer but the relayer itself has
  received it, and an error that a send returned names a listed peer.\<close>

theorem broadcast_reaches:
  assumes "opens_to owner N" and "streams_inv owner sm"
    and "broadcast_to N self msg peers sm = (sm', w, r)"
  shows "streams_inv owner sm' \<and> (\<forall>(s, b) \<in> set w. owner s \<in> set peers - {self} \<and> b = frame msg)
    \<and> (r = Ok () \<longrightarrow> owner ` fst ` set w = set peers - {self})
    \<and> (\<forall>e. r = Fail e \<longrightarrow> (\<exists>p e'. e = CommunicationError p e' \<and> p \<in> set peers - {self}))"
  using assms(2,3)
proof (induction peers arbitrary: sm sm' w r)
  case (Cons p ps)
  show ?case
  proof (cases "self = p")
    case True
    with Cons.prems have "broadcast_to N self msg ps sm = (sm', w, r)" by simp
    with Cons.IH [OF Cons.prems(1) this] True show ?thesis by auto
  next
    case False
    obtain sm1 w1 r1 where s1: "sendMessage N sm p msg = (sm1, w1, r1)" by (metis prod_cases3)
    obtain sm2 w2 r2 where s2: "broadcast_to N self msg ps sm1 = (sm2, w2, r2)" by (metis prod_cases3)
    note one = sendMessage_spec [OF assms(1) Cons.prems(1) s1]
    then have inv: "streams_inv owner sm1" by simp
    note rest = Cons.IH [OF inv s2]
    have eq: "sm' = sm2" "w = w1 @ w2"
      "r = (case r1 of Ok _ \<Rightarrow> r2 | Fail e \<Rightarrow> Fail (CommunicationError p e) | Panic m \<Rightarrow> Panic m)"
      using Cons.prems(2) False s1 s2 by simp_all
    show ?thesis
      using one rest False unfolding eq by (cases r1) (auto split: if_splits)
  qed
qed simp

theorem broadcast_reaches_witness:
  "let N = \<lparr>PeerInfoAddrs = (\<lambda>p. [p]), NewResolver = Ok (), Resolve = (\<lambda>a. Ok [a]), Connect = (\<lambda>_ _. Ok ()),
            NewStream = Ok, Fprintf = (\<lambda>_ _. Ok ()), Flush = (\<lambda>_. Ok ())\<rparr>;
       w = [(''b'', frame [1]), (''c'', frame [1])]
   in broadcast_to N ''a'' [1] [''a'', ''b'', ''c''] NewStreamManager
        = (\<lparr>streamsByPeer = [''b'' \<mapsto> ''b'', ''c'' \<mapsto> ''c''], closed = []\<rparr>, w, Ok ())
      \<and> id ` fst ` set w = set [''a'', ''b'', ''c''] - {''a''}"
proof -
  let ?N = "\<lparr>PeerInfoAddrs = (\<lambda>p. [p]), NewResolver = Ok (), Resolve = (\<lambda>a. Ok [a]), Connect = (\<lambda>_ _. Ok ()),
            NewStream = Ok, Fprintf = (\<lambda>_ _. Ok ()), Flush = (\<lambda>_. Ok ())\<rparr> :: string net"
  have run: "broadcast_to ?N ''a'' [1] [''a'', ''b'', ''c''] NewStreamManager
      = (\<lparr>streamsByPeer = [''b'' \<mapsto> ''b'', ''c'' \<mapsto> ''c''], closed = []\<rparr>,
         [(''b'', frame [1]), (''c'', frame [1])], Ok ())"
    by (simp add: sendMessage_def resolveDNS_def Stream_def NewStreamManager_def WriteStream_def)
  have "opens_to id ?N" "streams_inv id NewStreamManager"
    by (simp_all add: opens_to_def streams_inv_def NewStreamManager_def)
  from broadcast_reaches [OF this run] run show ?thesis unfolding Let_def by blast
qed

section \<open>Who is known\<close>

lemma fst_AddAddr: "set (map fst (AddAddr ps p a)) = insert p (set (map fst ps))"
  by (auto simp: AddAddr_def dom_map_of_conv_image_fst dom_update split: option.splits
      dest: map_of_SomeD simp: map_of_eq_None_iff)

lemma fst_add_peers:
  "add_peers ps is = Ok ps' \<Longrightarrow> set (map fst ps') = set (map fst ps) \<union> ai_ID ` set is"
proof (induction "is" arbitrary: ps)
  case (Cons i "is")
  then obtain a where "add_peers (AddAddr ps (ai_ID i) a) is = Ok ps'"
    by (auto simp: res_simps)
  from Cons.IH [OF this] show ?case unfolding fst_AddAddr by auto
qed simp

lemma fst_remove_all:
  "set (map fst (foldl (\<lambda>s p. filter (\<lambda>(q, _). q \<noteq> p) s) ps qs)) = set (map fst ps) - set qs"
  by (induction qs arbitrary: ps) force+

text \<open>Whoever dials, the peers of a connection that is kept are those of the topology, so the gate of two
  relayers with the same topology treats a connection alike on both ends.\<close>

lemma gate_symmetric: "dial_allowed cg p a \<longleftrightarrow> accept_allowed cg p"
  by (simp add: dial_allowed_def accept_allowed_def InterceptPeerDial_def InterceptAddrDial_def InterceptSecured_def
      InterceptUpgraded_def InterceptAccept_def)

text \<open>After the peers of a topology were loaded, the peer store knows exactly the peers that the
  connection gate lets through for that topology.\<close>

theorem gate_matches_peerstore:
  assumes "LoadPeers ps (TPeers t) = Ok ps'"
  shows "p \<in> set (map fst ps') \<longleftrightarrow>
    InterceptPeerDial (SetTopology cg t) p \<and> InterceptSecured (SetTopology cg t) p"
proof -
  have "set (map fst ps') = ai_ID ` set (TPeers t)"
    using fst_add_peers [OF assms [unfolded LoadPeers_def]] unfolding fst_remove_all by simp
  then show ?thesis
    by (auto simp: InterceptPeerDial_def InterceptSecured_def SetTopology_def IsAllowedPeer_def list_ex_iff)
qed

theorem gate_matches_peerstore_witness:
  "let t = \<lparr>TPeers = [\<lparr>ai_ID = ''p'', Addrs = [''/dns4/p'']\<rparr>], TThreshold = 1\<rparr>;
       cg = SetTopology (NewConnectionGate \<lparr>TPeers = [], TThreshold = 1\<rparr>) t
   in ''p'' \<in> set (map fst [(''p'', [''/dns4/p''])]) \<longleftrightarrow> InterceptPeerDial cg ''p'' \<and> InterceptSecured cg ''p''"
  unfolding Let_def
  by (rule gate_matches_peerstore [where ps = "[(''old'', [])]"])
    (simp add: LoadPeers_def AddAddr_def at_index_def)

end
