(* ===== verification/Evm_Listener.thy ===== *)
theory Evm_Listener
  imports P2p Coordinator
begin

text \<open>
  The contract events that start a key generation or a key refresh:
  \<open>chains/evm/calls/events/listener.go\<close> and \<open>chains/evm/listener/tss.go\<close>. The client's log query and the
  ABI are arguments. The refresh handler works on the topology file, the connection gate, the
  address book and the key share store; what it starts is returned beside the new state.
  \<open>coordinator.Execute\<close> only has its error logged, so the process handed to it is the last effect.
\<close>

section \<open>Events\<close>

record event_log =
  ev_Data :: bytes
  BlockNumber :: uint64

record refresh =
  refresh_Hash :: string

type_synonym 'a log_query = "'a \<Rightarrow> string \<Rightarrow> int \<Rightarrow> int \<Rightarrow> event_log list res"

definition StartKeygenSig :: string where
  "StartKeygenSig = ''StartKeygen()''"

definition KeyRefreshSig :: string where
  "KeyRefreshSig = ''KeyRefresh(string)''"

definition FetchKeygenEvents :: "'a log_query \<Rightarrow> 'a \<Rightarrow> int \<Rightarrow> int \<Rightarrow> event_log list res" where
  "FetchKeygenEvents fetch contractAddress startBlock endBlock =
     res_bind (fetch contractAddress StartKeygenSig startBlock endBlock) Ok"

definition UnpackRefresh :: "(bytes \<Rightarrow> string res) \<Rightarrow> bytes \<Rightarrow> refresh res" where
  "UnpackRefresh abi b = res_bind (abi b) (\<lambda>h. Ok \<lparr>refresh_Hash = h\<rparr>)"

text \<open>The first log that unpacks; the others are logged and skipped.\<close>

fun first_refresh :: "(bytes \<Rightarrow> string res) \<Rightarrow> event_log list \<Rightarrow> (refresh \<times> event_log) option res" where
  "first_refresh abi [] = Ok None"
| "first_refresh abi (re # logs) =
     (case UnpackRefresh abi (ev_Data re) of
        Ok r \<Rightarrow> Ok (Some (r, re))
      | Fail e \<Rightarrow> first_refresh abi logs
      | Panic m \<Rightarrow> Panic m)"

definition FetchRefreshEvents ::
  "(bytes \<Rightarrow> string res) \<Rightarrow> 'a log_query \<Rightarrow> 'a \<Rightarrow> int \<Rightarrow> int \<Rightarrow> (refresh \<times> event_log) option res" where
  "FetchRefreshEvents abi fetch contractAddress startBlock endBlock =
     res_bind (fetch contractAddress KeyRefreshSig startBlock endBlock) (first_refresh abi)"

section \<open>Key generation\<close>

record keygen_handler =
  kh_host :: host
  kh_threshold :: int

definition keygen_sessionID :: "uint64 \<Rightarrow> string" where
  "keygen_sessionID block = ''keygen-'' @ show_nat (unat block)"

text \<open>The key generation that is executed, if one is, and the handler's result.\<close>

definition keygen_HandleEvents ::
  "json_text \<Rightarrow> libp2p \<Rightarrow> 'k key_codec \<Rightarrow> keygen_handler \<Rightarrow> ks_store \<Rightarrow> event_log list res \<Rightarrow> keygen option \<times> unit res" where
  "keygen_HandleEvents J L C eh ks fetched =
     (case GetKeyshare J L C ks of
        Panic m \<Rightarrow> (None, Panic m)
      | g \<Rightarrow>
          (if (case g of Ok key \<Rightarrow> Threshold key \<noteq> 0 | _ \<Rightarrow> False) then (None, Ok ())
           else case res_wrap ''unable to fetch keygen events because of'' fetched of
                  Fail e \<Rightarrow> (None, Fail e)
                | Panic m \<Rightarrow> (None, Panic m)
                | Ok [] \<Rightarrow> (None, Ok ())
                | Ok (l # ls) \<Rightarrow>
                    (Some (NewKeygen (keygen_sessionID (BlockNumber l)) (kh_threshold eh) (kh_host eh)), Ok ())))"

section \<open>Key refresh\<close>

text \<open>\<open>peers_of\<close> is \<open>Peerstore().Peers()\<close>: the peers of the address book and those with a known key.\<close>

record 'k refresh_handler =
  rh_self :: peer
  peers_of :: "peerstore \<Rightarrow> peer list"
  rh_json :: json_text
  rh_lib :: libp2p
  rh_codec :: "'k key_codec"
  rh_addrs :: addr_lib

record refresh_state =
  topology_on_disk :: topology_file
  gate :: connection_gate
  book :: peerstore
  shares :: ks_store

definition resharing_sessionID :: "uint64 \<Rightarrow> string" where
  "resharing_sessionID block = ''resharing-'' @ show_nat (unat block)"

text \<open>
  After the topology is fetched and stored: the gate, the address book, then the resharing, whose
  constructor waits for the key share's lock (\<open>None\<close> while it is held).
\<close>

definition apply_topology ::
  "'k refresh_handler \<Rightarrow> network_topology \<Rightarrow> uint64 \<Rightarrow> refresh_state \<Rightarrow> (refresh_state \<times> 'k resharing option \<times> unit res) option" where
  "apply_topology eh t block s =
     (let s1 = s\<lparr>gate := SetTopology (gate s) t\<rparr> in
      case LoadPeers (book s1) (TPeers t) of
        Fail e \<Rightarrow> Some (s1, None, Fail e)
      | Panic m \<Rightarrow> Some (s1, None, Panic m)
      | Ok b \<Rightarrow>
          (let s2 = s1\<lparr>book := b\<rparr>;
               h = \<lparr>host_ID = rh_self eh, Peerstore = peers_of eh b\<rparr>
           in map_option (\<lambda>(ks, r). (s2\<lparr>shares := ks\<rparr>, Some r, Ok ()))
                (NewResharing (rh_json eh) (rh_lib eh) (rh_codec eh) (resharing_sessionID block) (TThreshold t) h
                   (shares s2))))"

text \<open>\<open>provider\<close> is \<open>NetworkTopology\<close> and \<open>os\<close> what the file operations of the store do.\<close>

definition refresh_HandleEvents ::
  "'k refresh_handler \<Rightarrow> (string \<Rightarrow> network_topology res) \<Rightarrow> file_ops \<Rightarrow> (refresh \<times> event_log) option res
   \<Rightarrow> refresh_state \<Rightarrow> (refresh_state \<times> 'k resharing option \<times> unit res) option" where
  "refresh_HandleEvents eh provider os fetched s =
     (case res_wrap ''unable to fetch keygen events because of'' fetched of
        Fail e \<Rightarrow> Some (s, None, Fail e)
      | Panic m \<Rightarrow> Some (s, None, Panic m)
      | Ok None \<Rightarrow> Some (s, None, Ok ())
      | Ok (Some (refreshEvent, l)) \<Rightarrow>
          (case provider (refresh_Hash refreshEvent) of
             Fail e \<Rightarrow> Some (s, None, Ok ())
           | Panic m \<Rightarrow> Some (s, None, Panic m)
           | Ok t \<Rightarrow>
               (case StoreTopology (rh_json eh) (rh_addrs eh) os t (topology_on_disk s) of
                  (f, Fail e) \<Rightarrow> Some (s\<lparr>topology_on_disk := f\<rparr>, None, Ok ())
                | (f, Panic m) \<Rightarrow> Some (s\<lparr>topology_on_disk := f\<rparr>, None, Panic m)
                | (f, Ok _) \<Rightarrow> apply_topology eh t (BlockNumber l) (s\<lparr>topology_on_disk := f\<rparr>))))"

section \<open>Lemmas\<close>

lemma first_refresh_Some:
  "first_refresh abi logs = Ok (Some (r, l)) \<Longrightarrow> l \<in> set logs \<and> UnpackRefresh abi (ev_Data l) = Ok r"
  by (induction logs) (auto split: res.splits)

lemma StoreTopology_result:
  "StoreTopology J A os t f = (f', r) \<Longrightarrow>
   (r = Ok () \<and> f' = Some (jrender J (topology_json A t))) \<or> (\<exists>e. r = Fail e \<and> (write_err os = None \<longrightarrow> f' = f))"
  by (auto simp: StoreTopology_def Let_def split: option.splits)

lemma apply_topology_gate:
  "apply_topology eh t block s = Some (s', r, x) \<Longrightarrow>
   gate_topology (gate s') = t \<and> topology_on_disk s' = topology_on_disk s"
  by (auto simp: apply_topology_def SetTopology_def Let_def split: res.splits)

lemma apply_topology_resharing:
  "apply_topology eh t block s = Some (s', Some r, x) \<Longrightarrow>
   LoadPeers (book s) (TPeers t) = Ok (book s') \<and> SID r = resharing_sessionID block \<and> newThreshold r = TThreshold t
   \<and> ProcPeers r = peers_of eh (book s') \<and> locked (shares s') \<and> \<not> locked (shares s)"
  by (auto simp: apply_topology_def NewResharing_def LockKeyshare_def SetTopology_def Let_def split: res.splits option.splits if_splits)

lemma refresh_cases:
  assumes "refresh_HandleEvents eh provider os fetched s = Some (s', r, x)"
  shows "(s' = s \<and> r = None)
    \<or> (\<exists>f. s' = s\<lparr>topology_on_disk := f\<rparr> \<and> r = None \<and> (write_err os = None \<longrightarrow> f = topology_on_disk s))
    \<or> (\<exists>ev l t. fetched = Ok (Some (ev, l)) \<and> provider (refresh_Hash ev) = Ok t
        \<and> apply_topology eh t (BlockNumber l)
            (s\<lparr>topology_on_disk := Some (jrender (rh_json eh) (topology_json (rh_addrs eh) t))\<rparr>) = Some (s', r, x))"
proof (cases fetched)
  case (Ok o')
  show ?thesis
  proof (cases o')
    case (Some p)
    obtain ev l where p: "p = (ev, l)" by (cases p)
    show ?thesis
    proof (cases "provider (refresh_Hash ev)")
      case t: (Ok t)
      obtain f y where y: "StoreTopology (rh_json eh) (rh_addrs eh) os t (topology_on_disk s) = (f, y)"
        by (cases "StoreTopology (rh_json eh) (rh_addrs eh) os t (topology_on_disk s)")
      from assms Ok Some p t y StoreTopology_result [OF y] show ?thesis
        by (fastforce simp: refresh_HandleEvents_def)
    qed (use assms Ok Some p in \<open>auto simp: refresh_HandleEvents_def\<close>)
  qed (use assms Ok in \<open>auto simp: refresh_HandleEvents_def\<close>)
qed (use assms in \<open>auto simp: refresh_HandleEvents_def\<close>)

section \<open>Properties\<close>

text \<open>C31: a relayer that already holds a key share with a threshold never takes part in another key
  generation, whatever events it is shown; one without takes part exactly when there is an
  event, in a session that is named after the block of the first event, so that relayers that
  see the same event meet in the same session.\<close>

theorem keygen_once:
  assumes "FetchKeygenEvents fetch bridge a b = Ok logs" and "\<And>m. GetKeyshare J L C ks \<noteq> Panic m"
  shows "fst (keygen_HandleEvents J L C eh ks (FetchKeygenEvents fetch bridge a b)) =
     (if (\<exists>k. GetKeyshare J L C ks = Ok k \<and> Threshold k \<noteq> 0) \<or> logs = [] then None
      else Some (NewKeygen (''keygen-'' @ show_nat (unat (BlockNumber (hd logs)))) (kh_threshold eh) (kh_host eh)))"
  using assms
  by (auto simp: keygen_HandleEvents_def keygen_sessionID_def split: res.splits list.splits)

theorem keygen_once_witness:
  "fst (keygen_HandleEvents (one_doc JNull []) raw_ids int_codec \<lparr>kh_host = sample_host, kh_threshold = 1\<rparr>
     (NewECDSAKeyshareStore None) (FetchKeygenEvents (\<lambda>_ _ _ _. Ok [\<lparr>ev_Data = [], BlockNumber = 7\<rparr>]) () 0 9))
   = Some (NewKeygen ''keygen-7'' 1 sample_host)"
proof -
  have f: "FetchKeygenEvents (\<lambda>_ _ _ _. Ok [\<lparr>ev_Data = [], BlockNumber = 7\<rparr>]) () 0 9 = Ok [\<lparr>ev_Data = [], BlockNumber = 7\<rparr>]"
    by (simp add: FetchKeygenEvents_def)
  have g: "GetKeyshare (one_doc JNull []) raw_ids int_codec (NewECDSAKeyshareStore None)
      = Fail (Wrapf ''error on reading keyshare file: '' (Errorf ''no such file''))"
    by (simp add: GetKeyshare_def NewECDSAKeyshareStore_def)
  show ?thesis
    using keygen_once [OF f, of "one_doc JNull []" raw_ids int_codec "NewECDSAKeyshareStore None"
        "\<lparr>kh_host = sample_host, kh_threshold = 1\<rparr>"]
    by (simp add: g show_nat.simps digit_char_def char_of_def bit_Suc_0_iff)
qed


definition sample_refresher :: "int refresh_handler" where
  "sample_refresher = \<lparr>rh_self = ''a'', peers_of = map fst, rh_json = one_doc sample_doc [], rh_lib = raw_ids,
     rh_codec = int_codec, rh_addrs = sample_addr\<rparr>"

definition sample_ct :: bytes where
  "sample_ct = replicate 16 7 @ XORKeyStream sample_cipher (replicate 16 7) [1]"

definition sample_state :: refresh_state where
  "sample_state = \<lparr>topology_on_disk = None, gate = NewConnectionGate \<lparr>TPeers = [], TThreshold = 1\<rparr>, book = [],
     shares = NewECDSAKeyshareStore None\<rparr>"

lemma sample_served:
  "NetworkTopology (one_doc sample_doc []) sample_addr id sample_cipher (Ok (hex_encode sample_ct @ [CHR 0x0A]))
     (hex_encode sample_ct) = Ok \<lparr>TPeers = [\<lparr>ai_ID = ''p'', Addrs = [''p'']\<rparr>], TThreshold = 2\<rparr>"
proof -
  have "Encrypt sample_cipher (Ok (replicate 16 7)) [1] = Ok sample_ct" by (simp add: Encrypt_def sample_ct_def)
  from NetworkTopology_served [OF length_sample_cipher _ this sample_raw, of sample_addr id]
  show ?thesis
    by (simp add: ProcessRawTopology_def process_peer_def sample_addr_def parse_int0_def parse_uint0_def
        alnum_val_def lower_ascii_def res_guard_def)
qed


section \<open>Restarts\<close>

text \<open>\<open>app.go\<close> at the start: the topology of the file, else the provider's, which is then stored.\<close>

definition load_topology ::
  "json_text \<Rightarrow> addr_lib \<Rightarrow> file_ops \<Rightarrow> (string \<Rightarrow> network_topology res) \<Rightarrow> topology_file
   \<Rightarrow> topology_file \<times> network_topology option res" where
  "load_topology J A os provider f =
     (case Topology_read J A f of
        Ok t \<Rightarrow> (f, Ok t)
      | Panic m \<Rightarrow> (f, Panic m)
      | Fail _ \<Rightarrow>
          (case provider [] of
             Ok t \<Rightarrow>
               (case StoreTopology J A os t f of
                  (f', Ok _) \<Rightarrow> (f', Ok (Some t))
                | (f', _) \<Rightarrow> (f', Panic ''panicOnError''))
           | _ \<Rightarrow> (f, Panic ''panicOnError'')))"

text \<open>The states of a relayer: the start, refreshes, and whatever else happens to the address book and
  the key shares. \<open>served\<close> are the topologies the provider hands out.\<close>

inductive relayer_state ::
  "'k refresh_handler \<Rightarrow> (network_topology \<Rightarrow> bool) \<Rightarrow> refresh_state \<Rightarrow> bool" for eh served where
  boot: "load_topology (rh_json eh) (rh_addrs eh) os provider f = (f', Ok (Some t)) \<Longrightarrow>
    (\<And>h u. provider h = Ok u \<Longrightarrow> served u) \<Longrightarrow>
    relayer_state eh served \<lparr>topology_on_disk = f', gate = NewConnectionGate t, book = b, shares = ks\<rparr>"
| refreshed: "relayer_state eh served s \<Longrightarrow> (\<And>h u. provider h = Ok u \<Longrightarrow> served u) \<Longrightarrow> write_err os = None \<Longrightarrow>
    refresh_HandleEvents eh provider os fetched s = Some (s', r, x) \<Longrightarrow> relayer_state eh served s'"
| other: "relayer_state eh served s \<Longrightarrow> relayer_state eh served (s\<lparr>book := b, shares := ks\<rparr>)"

definition storable :: "json_text \<Rightarrow> addr_lib \<Rightarrow> network_topology \<Rightarrow> bool" where
  "storable J A t \<longleftrightarrow> text_ok J (topology_json A t) \<and> list_all (\<lambda>a. addr_of_json A (addr_json A a) = Ok a) (TPeers t)
     \<and> - (2 ^ 63) \<le> TThreshold t \<and> TThreshold t < 2 ^ 63"

lemma storable_read:
  "storable J A t \<Longrightarrow> Topology_read J A (Some (jrender J (topology_json A t))) = Ok (Some t)"
  by (rule topology_store_roundtrip [of J A "\<lparr>open_err = None, write_err = None\<rparr>" t None])
    (simp_all add: storable_def StoreTopology_def list_all_iff)

lemma relayer_state_reads:
  assumes "relayer_state eh served s" and "\<And>t. served t \<Longrightarrow> storable (rh_json eh) (rh_addrs eh) t"
  shows "Topology_read (rh_json eh) (rh_addrs eh) (topology_on_disk s) = Ok (Some (gate_topology (gate s)))"
  using assms(1)
proof (induction rule: relayer_state.induct)
  case (boot os provider f f' t b ks)
  show ?case
  proof (cases "Topology_read (rh_json eh) (rh_addrs eh) f")
    case (Ok x)
    with boot(1) show ?thesis by (auto simp: load_topology_def NewConnectionGate_def)
  next
    case (Fail e)
    then obtain "provider [] = Ok t" "f' = Some (jrender (rh_json eh) (topology_json (rh_addrs eh) t))"
      using boot(1) StoreTopology_result
      by (fastforce simp: load_topology_def split: res.splits prod.splits)
    then show ?thesis using storable_read assms(2) boot(2) by (simp add: NewConnectionGate_def)
  qed (use boot(1) in \<open>simp add: load_topology_def\<close>)
next
  case (refreshed s provider os fetched s' r x)
  from refresh_cases [OF refreshed(4)] show ?case
  proof (elim disjE exE conjE)
    fix ev l t
    assume t: "provider (refresh_Hash ev) = Ok t" "apply_topology eh t (BlockNumber l)
      (s\<lparr>topology_on_disk := Some (jrender (rh_json eh) (topology_json (rh_addrs eh) t))\<rparr>) = Some (s', r, x)"
    then show ?thesis using apply_topology_gate [OF t(2)] storable_read assms(2) refreshed(2) by simp
  qed (use refreshed in auto)
qed simp

text \<open>C27: as long as no write to the file fails, a relayer that restarts comes back with the topology it
  was enforcing when it stopped, through any number of refreshes and whatever the provider
  would say by then.\<close>

theorem restart_resumes_topology:
  assumes "relayer_state eh served s" and "\<And>t. served t \<Longrightarrow> storable (rh_json eh) (rh_addrs eh) t"
  shows "load_topology (rh_json eh) (rh_addrs eh) os provider (topology_on_disk s)
     = (topology_on_disk s, Ok (Some (gate_topology (gate s))))"
  using relayer_state_reads [OF assms] by (simp add: load_topology_def)

text \<open>A write that fails leaves a cut off file behind, with the gate as it was.\<close>

lemma failed_store_truncates:
  assumes "write_err os = Some (n, e)" and "open_err os = None" and "provider h = Ok t"
  shows "refresh_HandleEvents eh provider os (Ok (Some (\<lparr>refresh_Hash = h\<rparr>, l))) s
     = Some (s\<lparr>topology_on_disk := Some (take n (jrender (rh_json eh) (topology_json (rh_addrs eh) t)))\<rparr>, None, Ok ())"
  using assms by (simp add: refresh_HandleEvents_def StoreTopology_def)

definition sample_topology :: network_topology where
  "sample_topology = \<lparr>TPeers = [\<lparr>ai_ID = ''p'', Addrs = [''p'']\<rparr>], TThreshold = 2\<rparr>"

theorem restart_resumes_topology_witness:
  "let eh = sample_refresher\<lparr>rh_json := one_doc (topology_json sample_addr sample_topology) []\<rparr>
   in load_topology (rh_json eh) (rh_addrs eh) \<lparr>open_err = None, write_err = None\<rparr> (\<lambda>_. Fail (Errorf ''down'')) (Some [0])
       = (Some [0], Ok (Some sample_topology))"
proof -
  define eh where "eh = sample_refresher\<lparr>rh_json := one_doc (topology_json sample_addr sample_topology) []\<rparr>"
  have J: "rh_json eh = one_doc (topology_json sample_addr sample_topology) []" "rh_addrs eh = sample_addr"
    by (simp_all add: eh_def sample_refresher_def)
  have "load_topology (rh_json eh) (rh_addrs eh) \<lparr>open_err = None, write_err = None\<rparr> (\<lambda>_. Ok sample_topology) None
      = (Some [0], Ok (Some sample_topology))"
    by (simp add: load_topology_def Topology_read_def StoreTopology_def J)
  then have "relayer_state eh (\<lambda>t. t = sample_topology)
      \<lparr>topology_on_disk = Some [0], gate = NewConnectionGate sample_topology, book = [], shares = NewECDSAKeyshareStore None\<rparr>"
    by (rule relayer_state.boot) simp
  from restart_resumes_topology [OF this] show ?thesis
    unfolding Let_def eh_def [symmetric]
    by (simp add: storable_def J NewConnectionGate_def) (simp add: sample_topology_def sample_addr_def)
qed

end
