(* ===== verification/Sig_Cache.thy ===== *)
theory Sig_Cache
  imports Signing Ttl_Cache
begin

text \<open>
  The signature cache, \<open>cache/signature.go\<close>, through which the API answers and which is filled by the
  relayer's own signing processes and by the signatures other relayers distribute. The expiring
  map is an argument, with the laws of \<open>Ttl_Cache\<close>.
\<close>

record 'c sig_cache =
  sigCache :: 'c
  ended :: "string list"
  watching_sigs :: bool

definition NewSignatureCache :: "('c, bytes) ttl_cache \<Rightarrow> 'c sig_cache" where
  "NewSignatureCache C = \<lparr>sigCache = tc_New C, ended = [], watching_sigs = True\<rparr>"

definition cache_Signature :: "('c, bytes) ttl_cache \<Rightarrow> 'c sig_cache \<Rightarrow> string \<Rightarrow> 'c sig_cache \<times> bytes res" where
  "cache_Signature C s sid =
     (case tc_Get C (sigCache s) sid of
        (None, c) \<Rightarrow> (s\<lparr>sigCache := c\<rparr>, Fail (Errorf (''no signature found with id '' @ sid)))
      | (Some v, c) \<Rightarrow> (s\<lparr>sigCache := c\<rparr>, Ok v))"

section \<open>Watch\<close>

text \<open>
  What its \<open>select\<close> receives, and time passing in the cache. \<open>LocalResult None\<close> is a value on the result
  channel that is not an \<open>EcdsaSignature\<close>, for which the type assertion panics.
\<close>

datatype cache_event =
    LocalResult "ecdsa_signature option"
  | SigMessage wrapped_message
  | Elapsed nat
  | CacheCtxDone

definition put_signature :: "('c, bytes) ttl_cache \<Rightarrow> string \<Rightarrow> bytes \<Rightarrow> 'c sig_cache \<Rightarrow> 'c sig_cache" where
  "put_signature C sid sig s = s\<lparr>sigCache := tc_Set C (sigCache s) sid sig, ended := ended s @ [sid]\<rparr>"

fun Watch_step :: "json_text \<Rightarrow> ('c, bytes) ttl_cache \<Rightarrow> 'c sig_cache \<Rightarrow> cache_event \<Rightarrow> 'c sig_cache res" where
  "Watch_step J C s (Elapsed n) = Ok (s\<lparr>sigCache := tc_Elapse C (sigCache s) n\<rparr>)"
| "Watch_step J C s ev =
     (if \<not> watching_sigs s then Ok s
      else case ev of
             LocalResult None \<Rightarrow> Panic ''interface conversion''
           | LocalResult (Some sig) \<Rightarrow> Ok (put_signature C (es_ID sig) (es_Signature sig) s)
           | SigMessage wMsg \<Rightarrow>
               (case UnmarshalSignatureMessage J (Payload wMsg) of
                  Ok msg \<Rightarrow> Ok (put_signature C (SigID msg) (Signature msg) s)
                | Fail e \<Rightarrow> Ok s
                | Panic m \<Rightarrow> Panic m)
           | _ \<Rightarrow> Ok (s\<lparr>watching_sigs := False\<rparr>))"

fun cache_Watch :: "json_text \<Rightarrow> ('c, bytes) ttl_cache \<Rightarrow> 'c sig_cache \<Rightarrow> cache_event list \<Rightarrow> 'c sig_cache res" where
  "cache_Watch J C s [] = Ok s"
| "cache_Watch J C s (e # es) = res_bind (Watch_step J C s e) (\<lambda>s'. cache_Watch J C s' es)"

section \<open>Subscribe\<close>

text \<open>The ticks of the loop, each with what the cache holds then; the signature sent to the channel, if
  one is.\<close>

datatype ping_event = Ping "bytes option" | PingCtxDone

fun Subscribe_loop :: "ping_event list \<Rightarrow> bytes option" where
  "Subscribe_loop [] = None"
| "Subscribe_loop (PingCtxDone # es) = None"
| "Subscribe_loop (Ping None # es) = Subscribe_loop es"
| "Subscribe_loop (Ping (Some v) # es) = Some v"

definition cache_Subscribe :: "bytes option \<Rightarrow> ping_event list \<Rightarrow> bytes option" where
  "cache_Subscribe first es = (case first of Some v \<Rightarrow> Some v | None \<Rightarrow> Subscribe_loop es)"

section \<open>Lemmas\<close>

text \<open>The signature an event brings, and the signatures of an identifier.\<close>

fun brings :: "json_text \<Rightarrow> cache_event \<Rightarrow> (string \<times> bytes) option" where
  "brings J (LocalResult (Some sig)) = Some (es_ID sig, es_Signature sig)"
| "brings J (SigMessage w) =
     (case UnmarshalSignatureMessage J (Payload w) of Ok m \<Rightarrow> Some (SigID m, Signature m) | _ \<Rightarrow> None)"
| "brings J _ = None"

lemma Watch_step_effect:
  assumes "Watch_step J C s e = Ok s'"
  shows "(\<exists>i v. brings J e = Some (i, v) \<and> s' = put_signature C i v s)
    \<or> (\<exists>n. e = Elapsed n \<and> s' = s\<lparr>sigCache := tc_Elapse C (sigCache s) n\<rparr>)
    \<or> (e = CacheCtxDone \<or> \<not> watching_sigs s \<or> brings J e = None) \<and> sigCache s' = sigCache s"
proof (cases e)
  case (LocalResult r)
  with assms show ?thesis by (cases r) (auto split: if_splits)
next
  case (SigMessage w)
  with assms show ?thesis
    by (cases "UnmarshalSignatureMessage J (Payload w)") (auto split: if_splits)
qed (use assms in \<open>auto split: if_splits\<close>)

lemma view_put: "cache_ok view C \<Longrightarrow> view (sigCache (put_signature C i v s)) = (view (sigCache s))(i \<mapsto> v)"
  by (simp add: cache_ok_def put_signature_def)

lemma Watch_step_origin:
  assumes "cache_ok view C" and "Watch_step J C s e = Ok s'" and "view (sigCache s') k = Some v"
  shows "brings J e = Some (k, v) \<or> view (sigCache s) k = Some v"
  using Watch_step_effect [OF assms(2)]
proof (elim disjE exE conjE)
  fix i w
  assume "brings J e = Some (i, w)" and "s' = put_signature C i w s"
  then show ?thesis using assms(3) by (simp add: view_put [OF assms(1)] split: if_splits)
next
  fix n
  assume "e = Elapsed n" and "s' = s\<lparr>sigCache := tc_Elapse C (sigCache s) n\<rparr>"
  then have "view (tc_Elapse C (sigCache s) n) k = Some v" using assms(3) by simp
  then have "view (sigCache s) k = Some v" by (rule view_elapse [OF assms(1)])
  then show ?thesis ..
qed (use assms(3) in simp_all)

definition sound :: "json_text \<Rightarrow> ('c \<Rightarrow> string \<Rightarrow> bytes option) \<Rightarrow> cache_event list \<Rightarrow> 'c sig_cache \<Rightarrow> bool" where
  "sound J view es s \<longleftrightarrow>
     (\<forall>k v. view (sigCache s) k = Some v \<longrightarrow> (\<exists>e \<in> set es. brings J e = Some (k, v)))"

lemma sound_step:
  assumes "cache_ok view C" and "sound J view es s" and "Watch_step J C s e = Ok s'"
  shows "sound J view (es @ [e]) s'"
  unfolding sound_def
proof (intro allI impI)
  fix k v
  assume "view (sigCache s') k = Some v"
  with Watch_step_origin [OF assms(1,3)] show "\<exists>x \<in> set (es @ [e]). brings J x = Some (k, v)"
    using assms(2) by (auto simp: sound_def)
qed

lemma sound_Watch:
  assumes "cache_ok view C" and "sound J view es s" and "cache_Watch J C s fs = Ok s'"
  shows "sound J view (es @ fs) s'"
  using assms(2,3)
proof (induction fs arbitrary: es s)
  case (Cons f fs)
  then obtain s1 where "Watch_step J C s f = Ok s1" "cache_Watch J C s1 fs = Ok s'"
    by (auto simp: res_bind_Ok_iff)
  then show ?case using Cons.IH [of "es @ [f]" s1] sound_step [OF assms(1) Cons.prems(1)] by simp
qed simp

lemma cache_Signature_view:
  "cache_ok view C \<Longrightarrow> snd (cache_Signature C s sid) = Ok v \<longleftrightarrow> view (sigCache s) sid = Some v"
  by (auto simp: cache_ok_def cache_Signature_def split: prod.splits option.splits)
    (metis fst_conv option.distinct(1) option.inject)+

section \<open>The log of signatures\<close>

text \<open>
  What the cache promises, as a machine of its own: a map that records the last signature that
  arrived under an identifier, as long as the cache is watching. The cache may know less than
  the log, because entries expire, and never anything else.
\<close>

fun log_step :: "json_text \<Rightarrow> bool \<times> (string \<rightharpoonup> bytes) \<Rightarrow> cache_event \<Rightarrow> bool \<times> (string \<rightharpoonup> bytes)" where
  "log_step J (run, m) CacheCtxDone = (False, m)"
| "log_step J (run, m) e = (run, case brings J e of Some (i, v) \<Rightarrow> if run then m(i \<mapsto> v) else m | None \<Rightarrow> m)"

definition sig_log :: "json_text \<Rightarrow> cache_event list \<Rightarrow> string \<rightharpoonup> bytes" where
  "sig_log J es = snd (foldl (log_step J) (True, Map.empty) es)"

text \<open>The simulation relation; \<open>fresh\<close> says that no time has passed.\<close>

definition simulates :: "('c \<Rightarrow> string \<Rightarrow> bytes option) \<Rightarrow> bool \<Rightarrow> 'c sig_cache \<Rightarrow> bool \<times> (string \<rightharpoonup> bytes) \<Rightarrow> bool" where
  "simulates view fresh s a \<longleftrightarrow> watching_sigs s = fst a \<and> view (sigCache s) \<subseteq>\<^sub>m snd a \<and> (fresh \<longrightarrow> view (sigCache s) = snd a)"

lemma watching_put: "watching_sigs (put_signature C i v s) = watching_sigs s"
  by (simp add: put_signature_def)

lemma simulates_step:
  assumes "cache_ok view C" and "simulates view fresh s a" and "Watch_step J C s e = Ok s'"
  shows "simulates view (fresh \<and> (\<forall>n. e \<noteq> Elapsed n)) s' (log_step J a e)"
proof (cases e)
  case (LocalResult r)
  then show ?thesis
    using assms by (cases r; cases a) (auto simp: simulates_def view_put [OF assms(1)] map_le_upd watching_put split: if_splits)
next
  case (SigMessage w)
  then show ?thesis
    using assms
    by (cases "UnmarshalSignatureMessage J (Payload w)"; cases a)
      (auto simp: simulates_def view_put [OF assms(1)] map_le_upd watching_put split: if_splits)
next
  case (Elapsed n)
  then have s': "s' = s\<lparr>sigCache := tc_Elapse C (sigCache s) n\<rparr>" using assms(3) by simp
  have "view (tc_Elapse C (sigCache s) n) \<subseteq>\<^sub>m view (sigCache s)"
    unfolding map_le_def
  proof
    fix k assume "k \<in> dom (view (tc_Elapse C (sigCache s) n))"
    then obtain v where "view (tc_Elapse C (sigCache s) n) k = Some v" by blast
    with view_elapse [OF assms(1) this] show "view (tc_Elapse C (sigCache s) n) k = view (sigCache s) k" by simp
  qed
  moreover have "log_step J a (Elapsed n) = a" by (cases a) simp
  ultimately show ?thesis using assms(2) map_le_trans by (auto simp: simulates_def s' Elapsed)
next
  case CacheCtxDone
  then show ?thesis using assms by (cases a) (auto simp: simulates_def split: if_splits)
qed

lemma simulates_Watch:
  assumes "cache_ok view C" and "simulates view fresh s a" and "cache_Watch J C s es = Ok s'"
  shows "simulates view (fresh \<and> (\<forall>n. Elapsed n \<notin> set es)) s' (foldl (log_step J) a es)"
  using assms(2,3)
proof (induction es arbitrary: fresh s a)
  case (Cons e es)
  then obtain s1 where s1: "Watch_step J C s e = Ok s1" "cache_Watch J C s1 es = Ok s'"
    by (auto simp: res_bind_Ok_iff)
  from Cons.IH [OF simulates_step [OF assms(1) Cons.prems(1) s1(1)] s1(2)] show ?case
    by (simp add: simulates_def) blast
qed simp

section \<open>Properties\<close>

text \<open>C35: the signature cache refines the log of signatures: whatever results, messages and pauses it sees,
  a signature it returns for an identifier is the last one a signing process of this relayer or
  another relayer delivered under it while the cache was watching, and as long as no time passes
  it returns exactly what the log holds.\<close>

theorem signature_cache_refines:
  assumes "cache_ok view C" and "cache_Watch J C (NewSignatureCache C) es = Ok s"
  shows "(snd (cache_Signature C s sid) = Ok v \<longrightarrow> sig_log J es sid = Some v)
    \<and> ((\<forall>n. Elapsed n \<notin> set es) \<longrightarrow> (snd (cache_Signature C s sid) = Ok v \<longleftrightarrow> sig_log J es sid = Some v))"
proof -
  have "simulates view True (NewSignatureCache C) (True, Map.empty)"
    using assms(1) by (simp add: simulates_def cache_ok_def NewSignatureCache_def)
  from simulates_Watch [OF assms(1) this assms(2)] show ?thesis
    by (auto simp: simulates_def sig_log_def cache_Signature_view [OF assms(1)] map_le_def dom_def)
qed

theorem signature_cache_refines_witness:
  "snd (cache_Signature map_cache \<lparr>sigCache = [''1-5'' \<mapsto> [8]], ended = [''1-5'', ''1-5''], watching_sigs = True\<rparr> ''1-5'') = Ok [8]
   \<and> sig_log (one_doc JNull []) [LocalResult (Some \<lparr>es_Signature = [7], es_ID = ''1-5''\<rparr>),
        LocalResult (Some \<lparr>es_Signature = [8], es_ID = ''1-5''\<rparr>)] ''1-5'' = Some [8]"
proof -
  have "cache_Watch (one_doc JNull []) map_cache (NewSignatureCache map_cache)
      [LocalResult (Some \<lparr>es_Signature = [7], es_ID = ''1-5''\<rparr>), LocalResult (Some \<lparr>es_Signature = [8], es_ID = ''1-5''\<rparr>)]
    = Ok \<lparr>sigCache = [''1-5'' \<mapsto> [8]], ended = [''1-5'', ''1-5''], watching_sigs = True\<rparr>"
    by (simp add: NewSignatureCache_def put_signature_def map_cache_def)
  from signature_cache_refines [OF map_cache_ok this, of "''1-5''" "[8]"] show ?thesis
    by (simp add: cache_Signature_def map_cache_def)
qed

text \<open>Whatever results, messages and pauses the cache sees, a signature it returns for an identifier
  is one that a signing process of this relayer produced for that identifier or that a relayer
  distributed under it.\<close>

theorem signature_cache_sound:
  assumes "cache_ok view C" and "cache_Watch J C (NewSignatureCache C) es = Ok s"
    and "snd (cache_Signature C s sid) = Ok v"
  shows "\<exists>e \<in> set es. brings J e = Some (sid, v)"
proof -
  have "sound J view [] (NewSignatureCache C)"
    using assms(1) by (simp add: sound_def cache_ok_def NewSignatureCache_def)
  from sound_Watch [OF assms(1) this assms(2)] show ?thesis
    using assms(3) by (simp add: sound_def cache_Signature_view [OF assms(1)])
qed

theorem signature_cache_sound_witness:
  "\<exists>e \<in> set [LocalResult (Some \<lparr>es_Signature = [7], es_ID = ''1-5''\<rparr>), Elapsed 3].
     brings (one_doc JNull []) e = Some (''1-5'', [7])"
  by (rule signature_cache_sound [OF map_cache_ok, where s = "\<lparr>sigCache = [''1-5'' \<mapsto> [7]], ended = [''1-5''], watching_sigs = True\<rparr>"])
    (simp_all add: NewSignatureCache_def put_signature_def cache_Signature_def map_cache_def)

fun keeps :: "json_text \<Rightarrow> string \<Rightarrow> cache_event \<Rightarrow> bool" where
  "keeps J sid (Elapsed n) = False"
| "keeps J sid e = (case brings J e of Some (i, v) \<Rightarrow> i \<noteq> sid | None \<Rightarrow> True)"

lemma Watch_step_keeps:
  assumes "cache_ok view C" and "Watch_step J C s e = Ok s'" and "keeps J sid e"
  shows "view (sigCache s') sid = view (sigCache s) sid"
  using Watch_step_effect [OF assms(2)] assms(3)
  by (auto simp: view_put [OF assms(1)]) (cases e; auto)+

lemma cache_Watch_keeps:
  assumes "cache_ok view C" and "cache_Watch J C s es = Ok s'" and "list_all (keeps J sid) es"
  shows "view (sigCache s') sid = view (sigCache s) sid"
  using assms(2,3)
proof (induction es arbitrary: s)
  case (Cons e es)
  then obtain s1 where s1: "Watch_step J C s e = Ok s1" "cache_Watch J C s1 es = Ok s'"
    by (auto simp: res_bind_Ok_iff)
  show ?case
    using Cons.IH [OF s1(2)] Cons.prems(2) Watch_step_keeps [OF assms(1) s1(1)] by simp
qed simp

text \<open>A signature is found under its identifier as soon as the cache has seen it, whether this
  relayer computed it or another distributed it, until another one with the same identifier
  replaces it or its time runs out.\<close>

theorem signature_cache_latest:
  assumes "cache_ok view C" and "watching_sigs s" and "e \<noteq> CacheCtxDone"
    and "brings J e = Some (sid, v)" and "list_all (keeps J sid) es"
    and "cache_Watch J C s (e # es) = Ok s'"
  shows "snd (cache_Signature C s' sid) = Ok v"
proof -
  obtain s1 where s1: "Watch_step J C s e = Ok s1" "cache_Watch J C s1 es = Ok s'"
    using assms(6) by (auto simp: res_bind_Ok_iff)
  have "view (sigCache s1) sid = Some v"
    using Watch_step_effect [OF s1(1)] assms(2,3,4) by (auto simp: view_put [OF assms(1)])
  then show ?thesis
    using cache_Watch_keeps [OF assms(1) s1(2) assms(5)] by (simp add: cache_Signature_view [OF assms(1)])
qed

theorem signature_cache_latest_witness:
  "snd (cache_Signature map_cache \<lparr>sigCache = [''1-5'' \<mapsto> [7], ''2-6'' \<mapsto> [8]], ended = [''1-5'', ''2-6''], watching_sigs = True\<rparr> ''1-5'')
   = Ok [7]"
  by (rule signature_cache_latest [OF map_cache_ok, where s = "NewSignatureCache map_cache" and J = "one_doc JNull []"
        and e = "LocalResult (Some \<lparr>es_Signature = [7], es_ID = ''1-5''\<rparr>)"
        and es = "[LocalResult (Some \<lparr>es_Signature = [8], es_ID = ''2-6''\<rparr>)]"])
    (simp_all add: NewSignatureCache_def put_signature_def map_cache_def)

end
