(* ===== verification/Api.thy ===== *)
theory Api
  imports Chain_Config Sig_Cache
begin

text \<open>
  The HTTP interface, \<open>api/handlers\<close>. A handler gets the values of the path (\<open>mux.Vars\<close>) and the first
  JSON value of the body, as the decoder delivers it. What it sends to the relayer and what it
  replies are its results; what the other side of a channel answers is an argument. A reply that
  never comes is \<open>None\<close>. \<open>reason\<close> is the text of an error.
\<close>

section \<open>Replies\<close>

record http_reply =
  rep_status :: int
  rep_headers :: "(string \<times> string) list"
  rep_body :: bytes

record api_env =
  api_json :: json_text
  api_eth :: eth
  reason :: "go_error \<Rightarrow> string"

definition JSONError :: "api_env \<Rightarrow> go_error \<Rightarrow> int \<Rightarrow> http_reply" where
  "JSONError A err code =
     \<lparr>rep_status = code,
      rep_headers = [(''Content-Type'', ''application/json; charset=utf-8''), (''X-Content-Type-Options'', ''nosniff'')],
      rep_body = jrender (api_json A) (JObj [(''code'', JNum code), (''reason'', JStr (reason A err))]) @ [0x0A]\<rparr>"

text \<open>\<open>BigInt.UnmarshalJSON\<close> through a pointer: the text of a number, or a string that holds one; null
  leaves the pointer nil. Strings are taken to be written without escapes.\<close>

fun dec_BigInt :: "int option decoder" where
  "dec_BigInt JNull old = Ok None"
| "dec_BigInt (JNum i) old = Ok (Some i)"
| "dec_BigInt (JStr s) old = of_option (Errorf (''failed to parse big.Int from '' @ s)) (map_option Some (set_string10 s))"
| "dec_BigInt j old = Fail (Errorf ''failed to parse big.Int'')"

definition marshal_BigInt :: "int \<Rightarrow> bytes" where
  "marshal_BigInt i = string_bytes (show_int i)"

type_synonym path_vars = "string \<rightharpoonup> string"

definition var_text :: "path_vars \<Rightarrow> string \<Rightarrow> string" where
  "var_text vars k = (case vars k of Some v \<Rightarrow> v | None \<Rightarrow> [])"

section \<open>Requests for signatures\<close>

record signing_body =
  sb_ChainId :: uint64
  sb_DepositId :: string
  sb_Nonce :: "int option"
  sb_Protocol :: string
  sb_LiquidityPool :: string
  sb_Caller :: string
  sb_Calldata :: string
  sb_DepositTxHash :: string
  sb_BorrowAmount :: "int option"
  sb_RepaymentChainId :: uint64
  sb_Deadline :: uint64
  sb_TokenOut :: string

definition decode_body :: "json \<Rightarrow> signing_body res" where
  "decode_body j =
     res_bind (members j) (\<lambda>kvs.
     res_bind (struct_field kvs ''ChainId'' dec_uint64 0) (\<lambda>ci.
     res_bind (struct_field kvs ''depositId'' dec_string []) (\<lambda>di.
     res_bind (struct_field kvs ''nonce'' dec_BigInt None) (\<lambda>n.
     res_bind (struct_field kvs ''protocol'' dec_string []) (\<lambda>pr.
     res_bind (struct_field kvs ''liquidityPool'' dec_string []) (\<lambda>lp.
     res_bind (struct_field kvs ''caller'' dec_string []) (\<lambda>ca.
     res_bind (struct_field kvs ''calldata'' dec_string []) (\<lambda>cd.
     res_bind (struct_field kvs ''depositTxHash'' dec_string []) (\<lambda>dh.
     res_bind (struct_field kvs ''borrowAmount'' dec_BigInt None) (\<lambda>ba.
     res_bind (struct_field kvs ''repaymentChainId'' dec_uint64 0) (\<lambda>rc.
     res_bind (struct_field kvs ''deadline'' dec_uint64 0) (\<lambda>de.
     res_bind (struct_field kvs ''tokenOut'' dec_string []) (\<lambda>t.
     Ok \<lparr>sb_ChainId = ci, sb_DepositId = di, sb_Nonce = n, sb_Protocol = pr, sb_LiquidityPool = lp, sb_Caller = ca,
         sb_Calldata = cd, sb_DepositTxHash = dh, sb_BorrowAmount = ba, sb_RepaymentChainId = rc, sb_Deadline = de,
         sb_TokenOut = t\<rparr>)))))))))))))"

text \<open>\<open>validate\<close> also writes the chain of the path into the body. The chain is looked up by the low 64
  bits of the number in the path.\<close>

definition path_chain :: "path_vars \<Rightarrow> uint64 res" where
  "path_chain vars =
     res_bind (of_option (Errorf (''field '' @ [CHR 0x27] @ ''chainId'' @ [CHR 0x27] @ '' invalid'')) (set_string10 (var_text vars ''chainId''))) (\<lambda>c. Ok (big_uint64 c))"

definition missing_field :: "string \<Rightarrow> go_error" where
  "missing_field f = Errorf (''missing field '' @ [CHR 0x27] @ f @ [CHR 0x27])"

definition not_supported :: "uint64 \<Rightarrow> go_error" where
  "not_supported c = Errorf (''chain '' @ show_nat (unat c) @ '' not supported'')"

definition signing_validate :: "uint64 set \<Rightarrow> signing_body \<Rightarrow> path_vars \<Rightarrow> signing_body res" where
  "signing_validate chns b0 vars =
     res_bind (path_chain vars) (\<lambda>c.
     let b = b0\<lparr>sb_ChainId := c\<rparr> in
     res_bind (res_guard (sb_DepositId b \<noteq> []) (missing_field ''depositId'')) (\<lambda>_.
     res_bind (res_guard (sb_LiquidityPool b \<noteq> []) (missing_field ''liquidityPool'')) (\<lambda>_.
     res_bind (res_guard (sb_Caller b \<noteq> []) (missing_field ''caller'')) (\<lambda>_.
     res_bind (res_guard (sb_Nonce b \<noteq> None) (missing_field ''nonce'')) (\<lambda>_.
     res_bind (res_guard (sb_ChainId b \<noteq> 0) (missing_field ''chainId'')) (\<lambda>_.
     res_bind (res_guard (sb_Deadline b \<noteq> 0) (missing_field ''deadline'')) (\<lambda>_.
     res_bind (res_guard (sb_ChainId b \<in> chns) (not_supported (sb_ChainId b))) (\<lambda>_. Ok b))))))))"

datatype request =
    ReqAcross "across_data relayer_message"
  | ReqEscrow "lifi_escrow_data relayer_message"
  | ReqLighter "lighter_data relayer_message"
  | ReqCredit "sprinter_credit_data relayer_message"
  | ReqUnlock "lifi_unlock_data relayer_message"

text \<open>The message for a body. \<open>b.Nonce.Int\<close> and \<open>b.BorrowAmount.Int\<close> read through pointers; the parse of the
  deposit's number of an Across request leaves nil when it fails.\<close>

definition signing_message :: "eth \<Rightarrow> signing_body \<Rightarrow> request res" where
  "signing_message E b =
     (let addr = HexToAddress E in
      if sb_Protocol b = ''across'' then
        res_bind (deref (sb_Nonce b)) (\<lambda>n.
        res_bind (deref (sb_BorrowAmount b)) (\<lambda>amount.
        Ok (ReqAcross (NewAcrossMessage 0 (sb_ChainId b)
          \<lparr>a_DepositTxHash = HexToHash E (sb_DepositTxHash b), a_DepositId = set_string10 (sb_DepositId b),
           a_Nonce = Some n, a_BorrowAmount = Some amount, a_LiquidityPool = addr (sb_LiquidityPool b),
           a_RepaymentChainID = sb_RepaymentChainId b, a_Caller = addr (sb_Caller b), a_Coordinator = [],
           a_Deadline = sb_Deadline b, a_Source = 0, a_Destination = sb_ChainId b\<rparr>))))
      else if sb_Protocol b = ''lifi-escrow'' then
        res_bind (deref (sb_Nonce b)) (\<lambda>n.
        res_bind (deref (sb_BorrowAmount b)) (\<lambda>amount.
        Ok (ReqEscrow (NewLifiEscrowMessage 0 (sb_ChainId b)
          \<lparr>e_OrderID = sb_DepositId b, e_Coordinator = [], e_LiquidityPool = addr (sb_LiquidityPool b),
           e_Caller = addr (sb_Caller b), e_DepositTxHash = sb_DepositTxHash b, e_BorrowAmount = Some amount,
           e_Deadline = sb_Deadline b, e_Nonce = Some n, e_Source = 0, e_Destination = sb_ChainId b\<rparr>))))
      else if sb_Protocol b = ''lighter'' then
        res_bind (deref (sb_Nonce b)) (\<lambda>n.
        Ok (ReqLighter (NewLighterMessage 0 (sb_ChainId b)
          \<lparr>l_OrderHash = sb_DepositId b, l_Coordinator = [], l_LiquidityPool = addr (sb_LiquidityPool b),
           l_DepositTxHash = sb_DepositTxHash b, l_Calldata = [], l_Nonce = Some n, l_Deadline = sb_Deadline b,
           l_Source = 0, l_Destination = sb_ChainId b\<rparr>)))
      else if sb_Protocol b = ''sprinter-credit'' then
        res_bind (deref (sb_Nonce b)) (\<lambda>n.
        res_bind (deref (sb_BorrowAmount b)) (\<lambda>amount.
        Ok (ReqCredit (NewSprinterCreditMessage 0 (sb_ChainId b)
          \<lparr>s_DepositID = sb_DepositId b, s_BorrowAmount = Some amount, s_Calldata = sb_Calldata b,
           s_Deadline = sb_Deadline b, s_LiquidityPool = addr (sb_LiquidityPool b), s_Caller = addr (sb_Caller b),
           s_Nonce = Some n, s_Coordinator = [], s_Source = 0, s_Destination = sb_ChainId b, s_TokenOut = sb_TokenOut b\<rparr>))))
      else Fail (Errorf (''invalid protocol '' @ sb_Protocol b)))"

definition prepare_signing :: "eth \<Rightarrow> uint64 set \<Rightarrow> json res \<Rightarrow> path_vars \<Rightarrow> request res" where
  "prepare_signing E chns rq vars =
     res_bind (res_wrap ''invalid request body'' (res_bind rq decode_body)) (\<lambda>b0.
     res_bind (res_wrap ''invalid request body'' (signing_validate chns b0 vars)) (signing_message E))"

text \<open>\<open>answer\<close> is the first value on the error channel, if one arrives.\<close>

definition HandleSigning ::
  "api_env \<Rightarrow> uint64 set \<Rightarrow> json res \<Rightarrow> path_vars \<Rightarrow> (request \<Rightarrow> go_error option option) \<Rightarrow> (request list \<times> http_reply option) res" where
  "HandleSigning A chns rq vars answer =
     (case prepare_signing (api_eth A) chns rq vars of
        Fail e \<Rightarrow> Ok ([], Some (JSONError A e 400))
      | Panic m \<Rightarrow> Panic m
      | Ok r \<Rightarrow>
          Ok ([r], case answer r of
                     None \<Rightarrow> None
                   | Some (Some err) \<Rightarrow> Some (JSONError A (Wrapf ''signing failed'' err) 500)
                   | Some None \<Rightarrow> Some \<lparr>rep_status = 202, rep_headers = [], rep_body = []\<rparr>))"

section \<open>Requests for unlocks\<close>

record unlock_body =
  ub_ChainId :: uint64
  ub_Protocol :: string
  ub_OrderID :: string
  ub_Settler :: string

definition decode_unlock :: "json \<Rightarrow> unlock_body res" where
  "decode_unlock j =
     res_bind (members j) (\<lambda>kvs.
     res_bind (struct_field kvs ''ChainId'' dec_uint64 0) (\<lambda>ci.
     res_bind (struct_field kvs ''protocol'' dec_string []) (\<lambda>pr.
     res_bind (struct_field kvs ''orderId'' dec_string []) (\<lambda>oi.
     res_bind (struct_field kvs ''settler'' dec_string []) (\<lambda>s.
     Ok \<lparr>ub_ChainId = ci, ub_Protocol = pr, ub_OrderID = oi, ub_Settler = s\<rparr>)))))"

definition unlock_validate :: "uint64 set \<Rightarrow> unlock_body \<Rightarrow> path_vars \<Rightarrow> unlock_body res" where
  "unlock_validate chns b vars =
     res_bind (path_chain vars) (\<lambda>c.
     res_bind (res_guard (c \<noteq> 0) (missing_field ''chainId'')) (\<lambda>_.
     res_bind (res_guard (c \<in> chns) (not_supported c)) (\<lambda>_. Ok (b\<lparr>ub_ChainId := c\<rparr>))))"

definition prepare_unlock :: "eth \<Rightarrow> uint64 set \<Rightarrow> json res \<Rightarrow> path_vars \<Rightarrow> request res" where
  "prepare_unlock E chns rq vars =
     res_bind (res_wrap ''invalid request body'' (res_bind rq decode_unlock)) (\<lambda>b0.
     res_bind (res_wrap ''invalid request body'' (unlock_validate chns b0 vars)) (\<lambda>b.
     if ub_Protocol b = ''lifi-escrow''
     then Ok (ReqUnlock (NewLifiUnlockMessage 0 (ub_ChainId b)
       \<lparr>u_OrderID = ub_OrderID b, u_Settler = HexToAddress E (ub_Settler b), u_Coordinator = [], u_Source = 0,
        u_Destination = ub_ChainId b\<rparr>))
     else Fail (Errorf (''invalid protocol '' @ ub_Protocol b))))"

text \<open>What comes first: the timeout, a signature, or a value of another type.\<close>

datatype unlock_answer = UnlockTimeout | UnlockResult "ecdsa_signature option"

definition unlock_reply :: "api_env \<Rightarrow> unlock_answer \<Rightarrow> http_reply" where
  "unlock_reply A ans =
     (case ans of
        UnlockTimeout \<Rightarrow> JSONError A (Errorf ''timeout'') 500
      | UnlockResult None \<Rightarrow> JSONError A (Errorf ''invalid signature'') 500
      | UnlockResult (Some sig) \<Rightarrow>
          \<lparr>rep_status = 200, rep_headers = [(''Content-Type'', ''application/json'')],
           rep_body = jrender (api_json A)
             (JObj [(''signature'', JStr (hex_encode (es_Signature sig))), (''id'', JStr (es_ID sig))])\<rparr>)"

definition HandleUnlock ::
  "api_env \<Rightarrow> uint64 set \<Rightarrow> json res \<Rightarrow> path_vars \<Rightarrow> (request \<Rightarrow> unlock_answer) \<Rightarrow> (request list \<times> http_reply) res" where
  "HandleUnlock A chns rq vars answer =
     (case prepare_unlock (api_eth A) chns rq vars of
        Fail e \<Rightarrow> Ok ([], JSONError A e 400)
      | Panic m \<Rightarrow> Panic m
      | Ok r \<Rightarrow> Ok ([r], unlock_reply A (answer r)))"

section \<open>The status stream\<close>

text \<open>\<open>new(big.Int).SetString(s, 0)\<close>: a sign, and a magnitude with an optional base prefix.\<close>

definition set_string0 :: "string \<Rightarrow> int option" where
  "set_string0 s =
     (case s of
        [] \<Rightarrow> None
      | c # r \<Rightarrow>
          (if c = CHR ''-'' then map_option (\<lambda>n. - int n) (parse_uint0 r)
           else if c = CHR ''+'' then map_option int (parse_uint0 r)
           else map_option int (parse_uint0 s)))"

text \<open>The identifier to subscribe to, or the error reply.\<close>

definition status_subscription :: "uint64 set \<Rightarrow> path_vars \<Rightarrow> (int \<times> go_error) + string" where
  "status_subscription chns vars =
     (case set_string0 (var_text vars ''chainId'') of
        None \<Rightarrow> Inl (400, Errorf ''chain id invalid'')
      | Some c \<Rightarrow>
          (if big_uint64 c \<notin> chns then Inl (404, Errorf (''chain '' @ show_int (sint (word_of_int c :: 64 word)) @ '' not supported''))
           else case vars ''depositId'' of
                  None \<Rightarrow> Inl (400, Errorf (''missing '' @ [CHR 0x27] @ ''depositId''))
                | Some d \<Rightarrow> Inr (show_int c @ ''-'' @ d)))"

definition setheaders :: "(string \<times> string) list" where
  "setheaders = [(''Content-Type'', ''text/event-stream''), (''Cache-Control'', ''no-cache''),
     (''Connection'', ''keep-alive''), (''Access-Control-Allow-Origin'', ''*'')]"

text \<open>\<open>sigs\<close> is what the subscription sends for an identifier before the client goes away.\<close>

definition HandleStatus ::
  "api_env \<Rightarrow> uint64 set \<Rightarrow> path_vars \<Rightarrow> (string \<Rightarrow> bytes option) \<Rightarrow> http_reply" where
  "HandleStatus A chns vars sigs =
     (case status_subscription chns vars of
        Inl (code, e) \<Rightarrow> JSONError A e code
      | Inr sid \<Rightarrow>
          \<lparr>rep_status = 200, rep_headers = setheaders,
           rep_body = (case sigs sid of
                         None \<Rightarrow> []
                       | Some sig \<Rightarrow> string_bytes (''data: '' @ hex_encode sig @ [CHR 0x0A, CHR 0x0A]))\<rparr>)"

section \<open>Confirmations and health\<close>

text \<open>\<open>json.Marshal\<close> of a map with numbers as keys: the keys as text, in the order of the text.\<close>

definition confirmations_json :: "(uint64 \<times> uint64) list \<Rightarrow> json" where
  "confirmations_json m = JObj (sort_key fst (map (\<lambda>(k, v). (show_nat (unat k), enc_uint64 v)) m))"

definition HandleConfirmations ::
  "api_env \<Rightarrow> (uint64 \<rightharpoonup> (uint64 \<times> uint64) list) \<Rightarrow> path_vars \<Rightarrow> http_reply" where
  "HandleConfirmations A confirmationsByChain vars =
     (case set_string10 (var_text vars ''chainId'') of
        None \<Rightarrow> JSONError A (Errorf ''invalid chainId'') 400
      | Some c \<Rightarrow>
          (case confirmationsByChain (big_uint64 c) of
             None \<Rightarrow> JSONError A (Errorf (''no confirmations for chainID: '' @ show_nat (unat (big_uint64 c)))) 404
           | Some m \<Rightarrow>
               \<lparr>rep_status = 200, rep_headers = [(''Content-Type'', ''application/json'')],
                rep_body = jrender (api_json A) (confirmations_json m)\<rparr>))"

definition HealthHandler :: http_reply where
  "HealthHandler = \<lparr>rep_status = 200, rep_headers = [], rep_body = string_bytes ''ok''\<rparr>"

section \<open>Routes\<close>

text \<open>The routes of \<open>Serve\<close>: a method and path pattern, and what answers it.\<close>

datatype endpoint = Unlocks | Signatures | Status | ConfirmationsOf | Health

definition routes :: "(string \<times> string \<times> endpoint) list" where
  "routes =
     [(''POST'', ''/v1/chains/{chainId:[0-9]+}/unlocks'', Unlocks),
      (''POST'', ''/v1/chains/{chainId:[0-9]+}/signatures'', Signatures),
      (''GET'', ''/v1/chains/{chainId:[0-9]+}/signatures/{depositId}'', Status),
      (''GET'', ''/v1/chains/{chainId:[0-9]+}/confirmations'', ConfirmationsOf),
      (''GET'', ''/health'', Health)]"

section \<open>The Lighter domain\<close>

text \<open>\<open>LighterChain.ReceiveMessage\<close> hands every message to the one handler, whose type assertion on the
  data panics for the data of another protocol.\<close>

definition lighter_domain_receive :: "'k env \<Rightarrow> lighter_handler \<Rightarrow> request \<Rightarrow> ('k, unit) run" where
  "lighter_domain_receive V H r =
     (case r of ReqLighter m \<Rightarrow> lighter_ReceiveMessage V H m | _ \<Rightarrow> ([], Panic ''interface conversion''))"

section \<open>Requests and the runs they cause\<close>

text \<open>The handlers of a relayer for one domain; a request goes to the handler of its message type.\<close>

record 'g chain_handlers =
  ch_pool :: spoke_pool
  ch_across :: across_handler
  ch_escrow :: "'g escrow_handler"
  ch_lighter :: lighter_handler
  ch_credit :: sprinter_handler
  ch_unlock :: unlock_handler

fun handle :: "'k env \<Rightarrow> 'g chain_handlers \<Rightarrow> request \<Rightarrow> ('k, unit) run" where
  "handle V hs (ReqAcross m) = across_HandleMessage V (ch_pool hs) (ch_across hs) m"
| "handle V hs (ReqEscrow m) = escrow_HandleMessage V (ch_escrow hs) m"
| "handle V hs (ReqLighter m) = lighter_HandleMessage V (ch_lighter hs) m"
| "handle V hs (ReqCredit m) = sprinter_HandleMessage V (ch_credit hs) m"
| "handle V hs (ReqUnlock m) = unlock_HandleMessage V (ch_unlock hs) m"

lemma handle_answers:
  assumes "signing_message E b = Ok r"
  shows "answers (handle V hs r)"
  using assms across.answers escrow.answers credit.answers lighter.answers
  by (cases r) (auto simp: signing_message_def Let_def res_simps split: if_splits)

lemma prepare_signing_Ok:
  assumes "prepare_signing E chns rq vars = Ok r"
  shows "\<exists>j b0 b c. rq = Ok j \<and> decode_body j = Ok b0 \<and> path_chain vars = Ok c \<and> b = b0\<lparr>sb_ChainId := c\<rparr> \<and> c \<in> chns \<and> c \<noteq> 0
    \<and> sb_DepositId b \<noteq> [] \<and> sb_Nonce b \<noteq> None \<and> sb_Deadline b \<noteq> 0 \<and> signing_message E b = Ok r"
  using assms by (auto simp: prepare_signing_def signing_validate_def Let_def res_simps)

lemma set_string10_show_int: "set_string10 (show_int i) = Some i"
proof (cases "i < 0")
  case True
  then show ?thesis by (simp add: show_int_def set_string10_def parse_dec_show_nat)
qed (simp add: show_int_def set_string10_show_nat)

lemma set_string0_show_nat: "set_string0 (show_nat n) = Some (int n)"
proof -
  obtain c r where s: "show_nat n = c # r" by (cases "show_nat n") simp_all
  then have "c \<noteq> CHR ''-''" "c \<noteq> CHR ''+''" using dash_notin_show_nat [of n] by auto
  then show ?thesis using parse_uint0_show_nat [of n] by (simp add: set_string0_def s)
qed

lemma big_uint64_unat [simp]: "big_uint64 (int (unat (c :: uint64))) = c" "big_uint64 (uint c) = c"
  by (simp_all add: big_uint64_def)

text \<open>A big integer is read back from its own text, as a number or in quotes.\<close>

lemma dec_BigInt_marshal:
  "dec_BigInt (JNum i) old = Ok (Some i)" "dec_BigInt (JStr (show_int i)) old = Ok (Some i)"
  by (simp_all add: set_string10_show_int)

section \<open>Properties\<close>


definition sample_body :: json where
  "sample_body = JObj [(''depositId'', JStr ''d''), (''nonce'', JStr ''1''), (''protocol'', JStr ''sprinter-credit''),
     (''liquidityPool'', JStr ''p''), (''caller'', JStr ''c''), (''calldata'', JStr ''0a''), (''borrowAmount'', JNum 40),
     (''deadline'', JNum 9), (''tokenOut'', JStr ''t'')]"

definition sample_api :: api_env where
  "sample_api = \<lparr>api_json = one_doc JNull [], api_eth = sample_eth, reason = (\<lambda>_. [])\<rparr>"

definition sample_handlers :: "unit chain_handlers" where
  "sample_handlers = \<lparr>ch_pool = sample_pool, ch_across = sample_across, ch_escrow = sample_escrow, ch_lighter = sample_lighter,
     ch_credit = \<lparr>sh_chainID = 1, sh_liquidators = [string_bytes ''t'' \<mapsto> [4]]\<rparr>,
     ch_unlock = \<lparr>uh_chainID = 1, uh_repayers = [1 \<mapsto> [4]]\<rparr>\<rparr>"

lemma sample_prepared:
  "\<exists>d. prepare_signing sample_eth {1} (Ok sample_body) [''chainId'' \<mapsto> ''1''] = Ok (ReqCredit (NewSprinterCreditMessage 0 1 d))
     \<and> s_Calldata d = ''0a'' \<and> s_TokenOut d = ''t'' \<and> s_DepositID d = ''d'' \<and> s_BorrowAmount d = Some 40 \<and> s_Coordinator d = []"
  by (simp add: prepare_signing_def sample_body_def decode_body_def field_eval set_string10_def parse_dec_def digit_val_def
      signing_validate_def path_chain_def var_text_def big_uint64_def res_guard_def signing_message_def Let_def)
    (rule exI, rule conjI, rule refl, simp)

lemma sample_credit_exec:
  assumes "s_Calldata d = ''0a''" "s_TokenOut d = ''t''" "s_DepositID d = ''d''" "s_BorrowAmount d = Some 40" "s_Coordinator d = []"
  shows "\<exists>s. (s, host_ID sample_host) \<in> set (execs (fst (handle sample_env sample_handlers (ReqCredit (NewSprinterCreditMessage 0 1 d)))))"
proof -
  let ?H = "ch_credit sample_handlers"
  obtain w d' where n: "sprinter_notify sample_env ?H d = (w, Ok d')" "s_Calldata d' = ''0a''" "s_TokenOut d' = ''t''"
    "s_DepositID d' = ''d''" "s_BorrowAmount d' = Some 40" "s_Coordinator d' = host_ID sample_host"
    using assms by (simp add: sprinter_notify_def Let_def sample_env_def)
  have h: "hex_val CHR ''0'' = Some 0" "hex_val CHR ''a'' = Some 10" by (simp_all add: hex_val_def alnum_val_def lower_ascii_def)
  have l: "HexToAddress (eE sample_env) ''t'' = string_bytes ''t''" by (simp add: sample_env_def sample_eth_def)
  have L: "sh_liquidators ?H = [string_bytes ''t'' \<mapsto> [4]]" by (simp add: sample_handlers_def)
  obtain u where u: "sprinter_unlock_hash (eE sample_env) ?H d' [10] [4] = Ok u"
    using n(5) by (simp add: sprinter_unlock_hash_def sample_env_def sample_hash)
  have "execs (fst (handle sample_env sample_handlers (ReqCredit (NewSprinterCreditMessage 0 1 d))))
      = execs w @ execs (fst (sign_and_execute sample_env u (chain_session (sh_chainID ?H) ''d'') (host_ID sample_host)))"
    by (simp add: sprinter_HandleMessage_def NewSprinterCreditMessage_def n h l L u run_bind_report split: prod.splits)
  with sample_sign_execs [of "host_ID sample_host" u] show ?thesis by fastforce
qed


text \<open>The handlers of one domain; the Lighter handler serves its own.\<close>

definition serves :: "'g chain_handlers \<Rightarrow> uint64 \<Rightarrow> bool" where
  "serves hs c \<longleftrightarrow> ah_chainID (ch_across hs) = c \<and> eh_chainID (ch_escrow hs) = c \<and> sh_chainID (ch_credit hs) = c"


text \<open>With a leading zero the two handlers read different numbers: the request is for chain 10, its status for 8.\<close>

lemma status_reads_octal:
  "path_chain [''chainId'' \<mapsto> ''010''] = Ok 10" "set_string0 ''010'' = Some 8"
  by (simp_all add: path_chain_def var_text_def set_string10_def parse_dec_def digit_val_def big_uint64_def set_string0_def
      parse_uint0_def lower_ascii_def alnum_val_def)


text \<open>A request without a borrow amount, which \<open>validate\<close> lets pass, panics in the handler for the three protocols that
  need one; a request with one does not panic.\<close>

theorem missing_amount_panics:
  assumes "decode_body j = Ok b" and "signing_validate chns b vars = Ok b'"
    and "sb_Protocol b \<in> {''across'', ''lifi-escrow'', ''sprinter-credit''}"
  shows "(\<exists>m. HandleSigning A chns (Ok j) vars answer = Panic m) \<longleftrightarrow> sb_BorrowAmount b = None"
proof -
  have b': "sb_Protocol b' = sb_Protocol b" "sb_BorrowAmount b' = sb_BorrowAmount b" "sb_Nonce b' \<noteq> None"
    using assms(2) by (auto simp: signing_validate_def Let_def res_simps)
  have "prepare_signing (api_eth A) chns (Ok j) vars = signing_message (api_eth A) b'"
    using assms(1,2) by (simp add: prepare_signing_def)
  moreover have "(\<exists>m. signing_message (api_eth A) b' = Panic m) \<longleftrightarrow> sb_BorrowAmount b = None"
    using assms(3) b' by (cases "sb_BorrowAmount b") (auto simp: signing_message_def Let_def)
  ultimately show ?thesis by (cases "signing_message (api_eth A) b'") (auto simp: HandleSigning_def)
qed

definition bare_body :: json where
  "bare_body = JObj [(''depositId'', JStr ''d''), (''nonce'', JNum 1), (''protocol'', JStr ''across''),
     (''liquidityPool'', JStr ''p''), (''caller'', JStr ''c''), (''deadline'', JNum 9)]"

theorem missing_amount_panics_witness:
  "\<exists>m. HandleSigning sample_api {1} (Ok bare_body) [''chainId'' \<mapsto> ''1''] answer = Panic m"
proof -
  obtain b where b: "decode_body bare_body = Ok b" "sb_Protocol b = ''across''" "sb_BorrowAmount b = None"
    "sb_DepositId b = ''d''" "sb_LiquidityPool b = ''p''" "sb_Caller b = ''c''" "sb_Nonce b = Some 1" "sb_Deadline b = 9"
    by (simp add: bare_body_def decode_body_def field_eval)
  obtain b' where v: "signing_validate {1} b [''chainId'' \<mapsto> ''1''] = Ok b'"
    using b by (simp add: signing_validate_def path_chain_def var_text_def set_string10_def parse_dec_def digit_val_def
        big_uint64_def res_guard_def)
  from missing_amount_panics [OF b(1) v] b show ?thesis by simp
qed

text \<open>Every relayer serves the Lighter domain, and its one handler takes any message for its own: a valid
  request for another protocol, sent to that domain, gets past the API and panics in the chain.\<close>

theorem lighter_domain_panics:
  assumes "wire A S cs = Ok w" and "decode_body j = Ok b"
    and "signing_validate {LIGHTER_DOMAIN_ID} b [''chainId'' \<mapsto> ''1701984817''] = Ok b'"
    and "sb_Protocol b \<in> {''across'', ''lifi-escrow'', ''sprinter-credit''}" and "sb_BorrowAmount b \<noteq> None"
  shows "\<exists>r. prepare_signing E (supportedChains w) (Ok j) [''chainId'' \<mapsto> ''1701984817''] = Ok r
     \<and> panics (snd (lighter_domain_receive V H r))"
proof -
  have in_w: "LIGHTER_DOMAIN_ID \<in> supportedChains w" by (subst wire_Ok [OF assms(1)]) simp
  have v: "signing_validate (supportedChains w) b [''chainId'' \<mapsto> ''1701984817''] = Ok b'"
    using assms(3) in_w by (auto simp: signing_validate_def Let_def res_simps)
  have b': "sb_Protocol b' = sb_Protocol b" "sb_BorrowAmount b' = sb_BorrowAmount b" "sb_Nonce b' \<noteq> None"
    using assms(3) by (auto simp: signing_validate_def Let_def res_simps)
  obtain r where r: "signing_message E b' = Ok r" "\<nexists>q. r = ReqLighter q"
    using assms(4,5) b' by (auto simp: signing_message_def Let_def)
  moreover have "prepare_signing E (supportedChains w) (Ok j) [''chainId'' \<mapsto> ''1701984817''] = Ok r"
    using assms(2) v r(1) by (simp add: prepare_signing_def)
  ultimately show ?thesis by (cases r) (auto simp: lighter_domain_receive_def)
qed

theorem lighter_domain_panics_witness:
  "\<exists>w r. wire sample_app sample_solver [] = Ok w
     \<and> prepare_signing sample_eth (supportedChains w) (Ok sample_body) [''chainId'' \<mapsto> ''1701984817''] = Ok r
     \<and> panics (snd (lighter_domain_receive sample_env sample_lighter r))"
proof -
  obtain w where w: "wire sample_app sample_solver [] = Ok w"
    by (simp add: wire_def register_lighter_def panicOnError_def NewLighterConfig_def sample_solver_def)
  obtain b where b: "decode_body sample_body = Ok b" "sb_Protocol b = ''sprinter-credit''" "sb_BorrowAmount b = Some 40"
    "sb_DepositId b = ''d''" "sb_LiquidityPool b = ''p''" "sb_Caller b = ''c''" "sb_Nonce b = Some 1" "sb_Deadline b = 9"
    by (simp add: sample_body_def decode_body_def field_eval set_string10_def parse_dec_def digit_val_def)
  obtain b' where v: "signing_validate {LIGHTER_DOMAIN_ID} b [''chainId'' \<mapsto> ''1701984817''] = Ok b'"
    using b by (simp add: signing_validate_def path_chain_def var_text_def set_string10_def parse_dec_def digit_val_def
        big_uint64_def LIGHTER_DOMAIN_ID_def res_guard_def)
  from lighter_domain_panics [OF w b(1) v] b w show ?thesis by auto
qed
end
