(* ===== verification/App.thy ===== *)
theory App
  imports Chain_Config Evm_Listener Api
begin

text \<open>
  How \<open>app/app.go\<close> builds the handlers of a chain from the configuration, with the constructors it calls.
  \<open>clients\<close> is what the program gets from outside: the chain clients by endpoint, the price of a
  symbol, the rebalance routes of a hub pool, and the libraries for orders. Every handler of a
  chain gets the maps that were collected over all chains, and its own chain's confirmations.
\<close>

section \<open>Clients\<close>

record 'g clients =
  cl_receipt :: "string \<Rightarrow> hash \<Rightarrow> tx_log list res"
  cl_turns :: "string \<Rightarrow> hash \<Rightarrow> wait_turn list"
  cl_price :: "string \<Rightarrow> float64 res"
  cl_route :: "address \<Rightarrow> int \<Rightarrow> address \<Rightarrow> address res"
  cl_lifi :: "'g lifi_lib"
  cl_mpcAddress :: address

section \<open>Constructors\<close>

definition NewWatcher :: "token_store \<Rightarrow> (uint64 \<times> uint64) list \<Rightarrow> uint64 \<Rightarrow> watcher" where
  "NewWatcher store confirmations blockt =
     \<lparr>tokenStore = store, w_confirmations = confirmations, blocktime = blockt\<rparr>"

definition NewHubPoolContract ::
  "eth \<Rightarrow> (address \<Rightarrow> int \<Rightarrow> address \<Rightarrow> address res) \<Rightarrow> address \<Rightarrow> (string \<times> token_config) list \<Rightarrow> int \<Rightarrow> string \<Rightarrow> address res" where
  "NewHubPoolContract E route poolAddress ts = DestinationToken E (map_of ts) (route poolAddress)"

definition NewAcrossDepositFetcher ::
  "uint64 \<Rightarrow> token_store \<Rightarrow> (hash \<Rightarrow> tx_log list res) \<Rightarrow> (int \<Rightarrow> string \<Rightarrow> address res) \<Rightarrow> deposit_fetcher" where
  "NewAcrossDepositFetcher chainID store client matcher =
     \<lparr>df_chainID = chainID, df_tokens = store, df_receipt = client, df_matcher = matcher\<rparr>"

definition NewAcrossMessageHandler ::
  "uint64 \<Rightarrow> token_store \<Rightarrow> (uint64 \<rightharpoonup> address) \<Rightarrow> (uint64 \<rightharpoonup> address) \<Rightarrow> (hash \<Rightarrow> int option \<Rightarrow> across_deposit res)
   \<Rightarrow> (uint64 \<Rightarrow> hash \<Rightarrow> address \<Rightarrow> int option \<Rightarrow> unit res) \<Rightarrow> across_handler" where
  "NewAcrossMessageHandler chainID store pools repayers fetcher waiter =
     \<lparr>ah_chainID = chainID, ah_tokens = store, ah_pools = pools, ah_repayers = repayers, ah_fetch = fetcher, ah_wait = waiter\<rparr>"

definition NewLifiEventFetcher :: "(hash \<Rightarrow> tx_log list res) \<Rightarrow> address \<Rightarrow> event_fetcher" where
  "NewLifiEventFetcher client settler = \<lparr>ef_receipt = client, inputSettler = settler\<rparr>"

definition NewLifiEscrowMessageHandler ::
  "uint64 \<Rightarrow> address \<Rightarrow> (uint64 \<rightharpoonup> address) \<Rightarrow> (uint64 \<Rightarrow> hash \<Rightarrow> float64 \<Rightarrow> unit res) \<Rightarrow> token_store
   \<Rightarrow> (hash \<Rightarrow> hash \<Rightarrow> lifi_order res) \<Rightarrow> 'g lifi_lib \<Rightarrow> 'g escrow_handler" where
  "NewLifiEscrowMessageHandler chainID mpcAddress lifiAddresses waiter store fetcher lib =
     \<lparr>eh_chainID = chainID, eh_lib = lib, eh_addresses = lifiAddresses, eh_tokens = store, eh_mpcAddress = mpcAddress,
      eh_order = fetcher, eh_wait = waiter\<rparr>"

definition NewSprinterCreditMessageHandler :: "uint64 \<Rightarrow> (address \<times> address) list \<Rightarrow> sprinter_handler" where
  "NewSprinterCreditMessageHandler chainID liquidators = \<lparr>sh_chainID = chainID, sh_liquidators = map_of liquidators\<rparr>"

definition NewLifiUnlockHandler :: "uint64 \<Rightarrow> (uint64 \<rightharpoonup> address) \<Rightarrow> unlock_handler" where
  "NewLifiUnlockHandler chainID repayers = \<lparr>uh_chainID = chainID, uh_repayers = repayers\<rparr>"

definition NewLighterMessageHandler ::
  "address \<Rightarrow> address \<Rightarrow> string \<Rightarrow> (uint64 \<times> uint64) list \<Rightarrow> (string \<Rightarrow> lighter_tx res)
   \<Rightarrow> (hash \<Rightarrow> address \<Rightarrow> int \<Rightarrow> bytes res) \<Rightarrow> lighter_handler" where
  "NewLighterMessageHandler lighterAddress usdcAddress repaymentAccount confirmations fetcher abi =
     \<lparr>lh_lighterAddress = lighterAddress, lh_usdcAddress = usdcAddress, lh_repaymentAccount = repaymentAccount,
      lh_confirmations = confirmations, lh_getTx = fetcher, PackFulfillWithdraw = abi\<rparr>"

definition NewKeygenEventHandler :: "host \<Rightarrow> int \<Rightarrow> keygen_handler" where
  "NewKeygenEventHandler h threshold = \<lparr>kh_host = h, kh_threshold = threshold\<rparr>"

definition NewRefreshEventHandler ::
  "peer \<Rightarrow> (peerstore \<Rightarrow> peer list) \<Rightarrow> json_text \<Rightarrow> libp2p \<Rightarrow> 'k key_codec \<Rightarrow> addr_lib \<Rightarrow> 'k refresh_handler" where
  "NewRefreshEventHandler self known J L C A =
     \<lparr>rh_self = self, peers_of = known, rh_json = J, rh_lib = L, rh_codec = C, rh_addrs = A\<rparr>"

section \<open>The handlers of a chain\<close>

definition chain_watcher :: "wiring \<Rightarrow> evm_config \<Rightarrow> watcher" where
  "chain_watcher w c =
     NewWatcher (all_tokens w) (ConfirmationsByValue c) (Blocktime (GeneralChainConfig c) * 1000000000)"

text \<open>Without any hub pool the interface is nil, and calling it panics.\<close>

definition chain_matcher :: "eth \<Rightarrow> 'g clients \<Rightarrow> wiring \<Rightarrow> int \<Rightarrow> string \<Rightarrow> address res" where
  "chain_matcher E cl w =
     (case hubPool w of
        None \<Rightarrow> (\<lambda>_ _. Panic ''nil pointer dereference'')
      | Some (a, ts) \<Rightarrow> NewHubPoolContract E (cl_route cl) a ts)"

definition endpoint_of :: "evm_config \<Rightarrow> string" where
  "endpoint_of c = Endpoint (GeneralChainConfig c)"

definition chain_fetcher :: "eth \<Rightarrow> 'g clients \<Rightarrow> wiring \<Rightarrow> evm_config \<Rightarrow> deposit_fetcher" where
  "chain_fetcher E cl w c =
     NewAcrossDepositFetcher (config_id c) (all_tokens w) (cl_receipt cl (endpoint_of c)) (chain_matcher E cl w)"

definition across_of :: "eth \<Rightarrow> spoke_pool \<Rightarrow> 'g clients \<Rightarrow> wiring \<Rightarrow> evm_config \<Rightarrow> across_handler" where
  "across_of E P cl w c =
     NewAcrossMessageHandler (config_id c) (all_tokens w) (acrossPools w) (repayerAddresses w)
       (Deposit E P (chain_fetcher E cl w c))
       (\<lambda>chain h token amount.
          await (WaitForTokenConfirmations (cl_price cl) (chain_watcher w c) chain token amount (cl_turns cl (endpoint_of c) h)))"

definition escrow_of :: "eth \<Rightarrow> 'g clients \<Rightarrow> wiring \<Rightarrow> evm_config \<Rightarrow> 'g escrow_handler" where
  "escrow_of E cl w c =
     NewLifiEscrowMessageHandler (config_id c) (cl_mpcAddress cl) (lifiOutputSettlers w)
       (\<lambda>chain h v. await (WaitForOrderConfirmations (chain_watcher w c) v (cl_turns cl (endpoint_of c) h)))
       (all_tokens w)
       (Order E (cl_lifi cl) (NewLifiEventFetcher (cl_receipt cl (endpoint_of c)) (HexToAddress E (LifiInputSettlerEscrow c))))
       (cl_lifi cl)"

definition credit_of :: "evm_config \<Rightarrow> sprinter_handler" where
  "credit_of c = NewSprinterCreditMessageHandler (config_id c) (Liquidators c)"

definition unlock_of :: "wiring \<Rightarrow> evm_config \<Rightarrow> unlock_handler" where
  "unlock_of w c = NewLifiUnlockHandler (config_id c) (repayerAddresses w)"

definition lighter_of :: "(string \<Rightarrow> lighter_tx res) \<Rightarrow> (hash \<Rightarrow> address \<Rightarrow> int \<Rightarrow> bytes res) \<Rightarrow> lighter_config \<Rightarrow> lighter_handler" where
  "lighter_of fetcher abi lc =
     NewLighterMessageHandler (WithdrawalAddress lc) (UsdcAddress lc) (RepaymentAddress lc) (lc_ConfirmationsByValue lc) fetcher abi"

text \<open>The event handlers, for chains with an admin contract.\<close>

definition admin_of ::
  "host \<Rightarrow> network_topology \<Rightarrow> 'k refresh_handler \<Rightarrow> evm_config \<Rightarrow> (keygen_handler \<times> 'k refresh_handler) option" where
  "admin_of h t rh c = (if Admin c \<noteq> [] then Some (NewKeygenEventHandler h (TThreshold t), rh) else None)"

section \<open>Lemmas\<close>

lemma collected_repayer:
  "repayerAddresses (fold (collect_config E) cs w) i = Some a \<Longrightarrow>
   repayerAddresses w i = Some a \<or> (\<exists>c \<in> set cs. config_id c = i \<and> Repayer c \<noteq> [] \<and> a = HexToAddress E (Repayer c))"
proof (induction cs arbitrary: w)
  case (Cons c cs)
  from Cons.IH Cons.prems have "repayerAddresses (collect_config E c w) i = Some a
      \<or> (\<exists>c \<in> set cs. config_id c = i \<and> Repayer c \<noteq> [] \<and> a = HexToAddress E (Repayer c))" by simp
  then show ?case by (auto simp: collect_config_def Let_def split: if_splits)
qed simp

lemma collected_tokens:
  "all_tokens (fold (collect_config E) cs w) i = Some ts \<Longrightarrow>
   all_tokens w i = Some ts \<or> (\<exists>c \<in> set cs. config_id c = i \<and> ts = evm_Tokens c)"
proof (induction cs arbitrary: w)
  case (Cons c cs)
  from Cons.IH Cons.prems have "all_tokens (collect_config E c w) i = Some ts
      \<or> (\<exists>c \<in> set cs. config_id c = i \<and> ts = evm_Tokens c)" by simp
  then show ?case by (auto simp: collect_config_def Let_def split: if_splits)
qed simp

lemma collected_pool:
  "acrossPools (fold (collect_config E) cs w) i = Some a \<Longrightarrow>
   acrossPools w i = Some a \<or> (\<exists>c \<in> set cs. config_id c = i \<and> AcrossPool c \<noteq> [] \<and> a = HexToAddress E (AcrossPool c))"
proof (induction cs arbitrary: w)
  case (Cons c cs)
  from Cons.IH Cons.prems have "acrossPools (collect_config E c w) i = Some a
      \<or> (\<exists>c \<in> set cs. config_id c = i \<and> AcrossPool c \<noteq> [] \<and> a = HexToAddress E (AcrossPool c))" by simp
  then show ?case by (auto simp: collect_config_def Let_def split: if_splits)
qed simp

lemma wire_maps:
  assumes "wire A S cs = Ok w"
  shows "repayerAddresses w i = Some a \<Longrightarrow> \<exists>c \<in> set (accepted A cs). config_id c = i \<and> Repayer c \<noteq> [] \<and> a = HexToAddress (ae_eth A) (Repayer c)"
    and "all_tokens w i = Some ts \<Longrightarrow> \<exists>c \<in> set (accepted A cs). config_id c = i \<and> ts = evm_Tokens c"
    and "acrossPools w i = Some p \<Longrightarrow> \<exists>c \<in> set (accepted A cs). config_id c = i \<and> AcrossPool c \<noteq> [] \<and> p = HexToAddress (ae_eth A) (AcrossPool c)"
  using wire_Ok [OF assms] collected_repayer [of "ae_eth A" "accepted A cs" empty_wiring i a]
    collected_tokens [of "ae_eth A" "accepted A cs" empty_wiring i ts]
    collected_pool [of "ae_eth A" "accepted A cs" empty_wiring i p]
  by (auto simp: fold_register_keeps empty_wiring_def)

lemma find_address_in: "find_address a ts = Some (symbol, t) \<Longrightarrow> (symbol, t) \<in> set ts \<and> tc_Address t = a"
  by (induction ts) (auto split: if_splits)

section \<open>Properties\<close>


text \<open>A chain with a pool, a repayer and one token, and clients that show the sample deposit.\<close>

definition sample_chain_evm :: evm_config where
  "sample_chain_evm = sample_evm\<lparr>GeneralChainConfig := sample_general\<lparr>Id := Some 1\<rparr>, AcrossPool := ''p'', Repayer := ''r'',
     LifiOutputSettler := [], evm_Tokens := [(''USDC'', \<lparr>tc_Address = [7], Decimals = 6\<rparr>)],
     ConfirmationsByValue := [(1000, 10), (100, 2)]\<rparr>"

definition sample_borrow_app :: app_env where
  "sample_borrow_app = sample_app\<lparr>ae_config := (\<lambda>_. Ok sample_chain_evm)\<rparr>"

definition sample_clients :: "unit clients" where
  "sample_clients = \<lparr>cl_receipt = (\<lambda>_ _. Ok [sample_log]), cl_turns = (\<lambda>_ _. sample_turns), cl_price = (\<lambda>_. Ok (F64 False 1 0)),
     cl_route = (\<lambda>_ _ _. Fail (Errorf [])), cl_lifi = sample_lifi, cl_mpcAddress = []\<rparr>"


end
