(* ===== verification/Relay.thy ===== *)
theory Relay
  imports Api
begin

text \<open>
  A request on its way through the network of relayers: the one the API asked names itself the
  coordinator and broadcasts the request, the others hear it on the subscriptions of their \<open>Listen\<close>
  loops and handle it too, and all of them hand a signing process to the tss layer. The section
  rests on the contracts that the five handlers keep.
\<close>

section \<open>Hearing a request\<close>

text \<open>A message goes to the handler that subscribed to its session and type.\<close>

definition hear :: "'k env \<Rightarrow> 'g chain_handlers \<Rightarrow> wrapped_message \<Rightarrow> ('k, unit) run" where
  "hear V hs w =
     (let key = (SessionID w, MessageType w) in
      if key = (chain_session (ah_chainID (ch_across hs)) AcrossSessionID, AcrossMsg)
        then across_on_message V (ch_pool hs) (ch_across hs) w
      else if key = (chain_session (eh_chainID (ch_escrow hs)) LifiEscrowSessionID, LifiEscrowMsg)
        then escrow_on_message V (ch_escrow hs) w
      else if key = (LighterSessionID, LighterMsg) then lighter_on_message V (ch_lighter hs) w
      else if key = (chain_session (sh_chainID (ch_credit hs)) SprinterCreditSessionID, SprinterCreditMsg)
        then sprinter_on_message V (ch_credit hs) w
      else if key = (chain_session (uh_chainID (ch_unlock hs)) LifiUnlockSessionID, LifiUnlockMsg)
        then unlock_on_message V (ch_unlock hs) w
      else ([], Ok ()))"

fun with_coordinator :: "peer \<Rightarrow> request \<Rightarrow> request" where
  "with_coordinator p (ReqAcross m) = ReqAcross (m\<lparr>m_Data := (m_Data m)\<lparr>a_Coordinator := p\<rparr>\<rparr>)"
| "with_coordinator p (ReqEscrow m) = ReqEscrow (m\<lparr>m_Data := (m_Data m)\<lparr>e_Coordinator := p\<rparr>\<rparr>)"
| "with_coordinator p (ReqLighter m) = ReqLighter (m\<lparr>m_Data := (m_Data m)\<lparr>l_Coordinator := p\<rparr>\<rparr>)"
| "with_coordinator p (ReqCredit m) = ReqCredit (m\<lparr>m_Data := (m_Data m)\<lparr>s_Coordinator := p\<rparr>\<rparr>)"
| "with_coordinator p (ReqUnlock m) = ReqUnlock (m\<lparr>m_Data := (m_Data m)\<lparr>u_Coordinator := p\<rparr>\<rparr>)"

text \<open>Requests that survive their encoding.\<close>

fun request_fits :: "'k env \<Rightarrow> request \<Rightarrow> bool" where
  "request_fits V (ReqAcross m) = across_fits V (m_Data m)"
| "request_fits V (ReqEscrow m) = escrow_fits V (m_Data m)"
| "request_fits V (ReqLighter m) = lighter_fits V (m_Data m)"
| "request_fits V (ReqCredit m) = sprinter_fits V (m_Data m)"
| "request_fits V (ReqUnlock m) = unlock_fits V (m_Data m)"

text \<open>The requests the API builds: the message repeats source and destination of its data, and there is
  no coordinator yet.\<close>

fun unled :: "request \<Rightarrow> bool" where
  "unled (ReqAcross m) = (a_Coordinator (m_Data m) = [] \<and> m = NewAcrossMessage (a_Source (m_Data m)) (a_Destination (m_Data m)) (m_Data m))"
| "unled (ReqEscrow m) = (e_Coordinator (m_Data m) = [] \<and> m = NewLifiEscrowMessage (e_Source (m_Data m)) (e_Destination (m_Data m)) (m_Data m))"
| "unled (ReqLighter m) = (l_Coordinator (m_Data m) = [] \<and> m = NewLighterMessage (l_Source (m_Data m)) (l_Destination (m_Data m)) (m_Data m))"
| "unled (ReqCredit m) = (s_Coordinator (m_Data m) = [] \<and> m = NewSprinterCreditMessage (s_Source (m_Data m)) (s_Destination (m_Data m)) (m_Data m))"
| "unled (ReqUnlock m) = (u_Coordinator (m_Data m) = [] \<and> m = NewLifiUnlockMessage (u_Source (m_Data m)) (u_Destination (m_Data m)) (m_Data m))"

section \<open>Lemmas\<close>

lemma signing_unled: "signing_message E b = Ok r \<Longrightarrow> unled r"
  by (cases r) (auto simp: signing_message_def Let_def res_simps NewAcrossMessage_def NewLifiEscrowMessage_def
      NewLighterMessage_def NewSprinterCreditMessage_def split: if_splits)

lemma prepared_unled:
  assumes "prepare_signing E chns rq vars = Ok r \<or> prepare_unlock E chns rq vars = Ok r"
  shows "unled r"
  using assms
proof
  assume "prepare_signing E chns rq vars = Ok r"
  then show ?thesis using prepare_signing_Ok signing_unled by blast
next
  assume "prepare_unlock E chns rq vars = Ok r"
  then show ?thesis by (auto simp: prepare_unlock_def res_simps NewLifiUnlockMessage_def split: if_splits)
qed

text \<open>The handlers of another relayer serve the same domain.\<close>

definition same_domain :: "'g chain_handlers \<Rightarrow> 'g chain_handlers \<Rightarrow> bool" where
  "same_domain hs hs' \<longleftrightarrow> ah_chainID (ch_across hs') = ah_chainID (ch_across hs) \<and> eh_chainID (ch_escrow hs') = eh_chainID (ch_escrow hs)
     \<and> sh_chainID (ch_credit hs') = sh_chainID (ch_credit hs) \<and> uh_chainID (ch_unlock hs') = uh_chainID (ch_unlock hs)"

lemma request_heard:
  assumes "unled r" and "Notify n \<in> set (fst (handle V hs r))" and "request_fits V (with_coordinator (host_ID (eHost V)) r)"
    and "same_encoding V W" and "same_domain hs hs'"
  shows "hear W hs' \<lparr>MessageType = kind n, SessionID = session n, Payload = body n, From = q\<rparr>
    = handle W hs' (with_coordinator (host_ID (eHost V)) r)"
proof (cases r)
  case (ReqAcross m)
  with assms(1) obtain d where m: "m = NewAcrossMessage (a_Source d) (a_Destination d) d" by auto
  show ?thesis
    using assms ReqAcross across_relay.announced [of n V "ch_pool hs" "ch_across hs" d]
      across_relay.relayed [of n V "ch_pool hs" "ch_across hs" d W "ch_pool hs'" "ch_across hs'" "session n" q]
    by (simp add: m hear_def same_domain_def across_announce_def NewAcrossMessage_def)
next
  case (ReqEscrow m)
  with assms(1) obtain d where m: "m = NewLifiEscrowMessage (e_Source d) (e_Destination d) d" by auto
  show ?thesis
    using assms ReqEscrow escrow_relay.announced [of n V "ch_escrow hs" d]
      escrow_relay.relayed [of n V "ch_escrow hs" d W "ch_escrow hs'" "session n" q]
    by (simp add: m hear_def same_domain_def escrow_announce_def NewLifiEscrowMessage_def)
next
  case (ReqLighter m)
  with assms(1) obtain d where m: "m = NewLighterMessage (l_Source d) (l_Destination d) d" by auto
  show ?thesis
    using assms ReqLighter lighter_relay.announced [of n V "ch_lighter hs" d]
      lighter_relay.relayed [of n V "ch_lighter hs" d W "ch_lighter hs'" "session n" q]
    by (simp add: m hear_def same_domain_def lighter_announce_def NewLighterMessage_def)
next
  case (ReqCredit m)
  with assms(1) obtain d where m: "m = NewSprinterCreditMessage (s_Source d) (s_Destination d) d" by auto
  show ?thesis
    using assms ReqCredit sprinter_relay.announced [of n V "ch_credit hs" d]
      sprinter_relay.relayed [of n V "ch_credit hs" d W "ch_credit hs'" "session n" q]
    by (simp add: m hear_def same_domain_def sprinter_announce_def NewSprinterCreditMessage_def)
next
  case (ReqUnlock m)
  with assms(1) obtain d where m: "m = NewLifiUnlockMessage (u_Source d) (u_Destination d) d" by auto
  show ?thesis
    using assms ReqUnlock unlock_relay.announced [of n V "ch_unlock hs" d]
      unlock_relay.relayed [of n V "ch_unlock hs" d W "ch_unlock hs'" "session n" q]
    by (simp add: m hear_def same_domain_def unlock_announce_def NewLifiUnlockMessage_def)
qed


text \<open>What a run signs is determined by the request, the handlers and the encoding; the coordinator is
  the one the request names, or else the relayer itself.\<close>

lemma unlock_hash_env:
  assumes "same_encoding V W"
  shows "across_unlock_hash W = across_unlock_hash V" "escrow_unlock_hash W = escrow_unlock_hash V"
  using assms by (simp_all add: fun_eq_iff same_encoding_def across_unlock_hash_def escrow_unlock_hash_def)

lemma check_env:
  assumes "same_encoding V W"
  shows "across_check W = across_check V" "escrow_check W = escrow_check V"
  using assms by (simp_all add: fun_eq_iff same_encoding_def across_check_def escrow_check_def)

fun coordinator_of :: "request \<Rightarrow> peer" where
  "coordinator_of (ReqAcross m) = a_Coordinator (m_Data m)"
| "coordinator_of (ReqEscrow m) = e_Coordinator (m_Data m)"
| "coordinator_of (ReqLighter m) = l_Coordinator (m_Data m)"
| "coordinator_of (ReqCredit m) = s_Coordinator (m_Data m)"
| "coordinator_of (ReqUnlock m) = u_Coordinator (m_Data m)"

lemma coordinator_of_with [simp]: "coordinator_of (with_coordinator p r) = p"
  by (cases r) simp_all

lemma unled_coordinator: "unled r \<Longrightarrow> coordinator_of r = []"
  by (cases r) simp_all

lemma exec_coordinator:
  assumes "(s, c) \<in> set (execs (fst (handle V hs r)))"
  shows "c = (if coordinator_of r \<noteq> [] then coordinator_of r else host_ID (eHost V))"
proof (cases r)
  case (ReqAcross m)
  then show ?thesis using across_exec [of s c] assms by fastforce
next
  case (ReqEscrow m)
  then show ?thesis using escrow_exec [of s c] assms by fastforce
next
  case (ReqLighter m)
  then show ?thesis using lighter_exec [of s c] assms by fastforce
next
  case (ReqCredit m)
  then show ?thesis using sprinter_exec [of s c] assms by fastforce
next
  case (ReqUnlock m)
  then show ?thesis using unlock_exec [of s c] assms by fastforce
qed

lemma exec_determined:
  assumes "(s, c) \<in> set (execs (fst (handle V hs r)))" and "same_encoding V W"
    and "(s', c) \<in> set (execs (fst (handle W hs (with_coordinator p r))))"
  shows "SID s' = SID s \<and> smsg s' = smsg s"
proof (cases r)
  case (ReqAcross m)
  from across_exec [of s c V "ch_pool hs" "ch_across hs" m] assms(1) ReqAcross
  obtain repay d u where 1: "ah_repayers (ch_across hs) (a_RepaymentChainID (m_Data m)) = Some repay"
    "ah_fetch (ch_across hs) (a_DepositTxHash (m_Data m)) (a_DepositId (m_Data m)) = Ok d"
    "across_unlock_hash V (ch_pool hs) (ch_across hs) ((m_Data m)\<lparr>a_Coordinator := c\<rparr>) repay d = Ok u" "smsg s = be_nat u"
    "SID s = chain_session (ah_chainID (ch_across hs)) (big_str (a_DepositId (m_Data m)))" by auto
  from across_exec [of s' c W "ch_pool hs" "ch_across hs" "m\<lparr>m_Data := (m_Data m)\<lparr>a_Coordinator := p\<rparr>\<rparr>"] assms(3) ReqAcross
  show ?thesis using 1 by (auto simp: unlock_hash_env [OF assms(2)])
next
  case (ReqEscrow m)
  from escrow_exec [of s c V "ch_escrow hs" m] assms(1) ReqEscrow
  show ?thesis
    using escrow_exec [of s' c W "ch_escrow hs" "m\<lparr>m_Data := (m_Data m)\<lparr>e_Coordinator := p\<rparr>\<rparr>"] assms(2,3) ReqEscrow
    by (auto simp: unlock_hash_env [OF assms(2)] check_env [OF assms(2)] same_encoding_def)
next
  case (ReqLighter m)
  from lighter_exec [of s c V "ch_lighter hs" m] assms(1) ReqLighter
  show ?thesis
    using lighter_exec [of s' c W "ch_lighter hs" "m\<lparr>m_Data := (m_Data m)\<lparr>l_Coordinator := p\<rparr>\<rparr>"] assms(2,3) ReqLighter
    by (auto simp: same_encoding_def lighter_unlock_hash_def)
next
  case (ReqCredit m)
  from sprinter_exec [of s c V "ch_credit hs" m] assms(1) ReqCredit
  show ?thesis
    using sprinter_exec [of s' c W "ch_credit hs" "m\<lparr>m_Data := (m_Data m)\<lparr>s_Coordinator := p\<rparr>\<rparr>"] assms(2,3) ReqCredit
    by (auto simp: same_encoding_def sprinter_unlock_hash_def)
next
  case (ReqUnlock m)
  from unlock_exec [of s c V "ch_unlock hs" m] assms(1) ReqUnlock
  show ?thesis
    using unlock_exec [of s' c W "ch_unlock hs" "m\<lparr>m_Data := (m_Data m)\<lparr>u_Coordinator := p\<rparr>\<rparr>"] assms(2,3) ReqUnlock
    by (auto simp: same_encoding_def)
qed

lemma be_nat_bound: "be_nat b < 256 ^ length b"
proof (induction b rule: rev_induct)
  case (snoc x b)
  with byte_less [of x] show ?case by (simp add: be_nat_def)
qed (simp add: be_nat_def)

text \<open>The contract that checks the signature for a request.\<close>

fun verifier_of :: "request \<Rightarrow> address" where
  "verifier_of (ReqAcross m) = a_LiquidityPool (m_Data m)"
| "verifier_of (ReqEscrow m) = e_LiquidityPool (m_Data m)"
| "verifier_of (ReqLighter m) = l_LiquidityPool (m_Data m)"
| "verifier_of (ReqCredit m) = s_LiquidityPool (m_Data m)"
| "verifier_of (ReqUnlock m) = u_Settler (m_Data m)"

definition typed_for :: "eth \<Rightarrow> address \<Rightarrow> string \<Rightarrow> string \<Rightarrow> bytes \<Rightarrow> bool" where
  "typed_for E contract name primary u \<longleftrightarrow>
     (\<exists>t raw. eip712 E t = Ok raw \<and> u = Keccak256 E raw \<and> PrimaryType t = primary
        \<and> dom_Name (Domain t) = name \<and> VerifyingContract (Domain t) = Hex E contract)"

lemma borrow_typed:
  assumes "BorrowUnlockHash E cd am tok ch tg dl ca pool n = Ok u"
  shows "typed_for E pool ''LiquidityPool'' ''Borrow'' u"
proof -
  obtain b raw where "eip712 E (borrow_data E b) = Ok raw" "u = Keccak256 E raw" "b_pool b = pool"
    using assms by (auto simp: BorrowUnlockHash_def res_simps)
  then show ?thesis
    unfolding typed_for_def by (intro exI [of _ "borrow_data E b"] exI [of _ raw]) (simp add: borrow_data_def borrow_domain_def)
qed

lemma unlock_typed:
  assumes "lifiUnlockHash E H d = Ok u"
  shows "typed_for E (u_Settler d) ''OIFEscrowLIFI'' ''AllowOpen'' u"
proof -
  obtain a raw where "eip712 E (allow_open_data E (uh_chainID H) a d) = Ok raw" "u = Keccak256 E raw"
    using assms by (auto simp: lifiUnlockHash_def res_simps split: option.splits)
  then show ?thesis
    unfolding typed_for_def
    by (intro exI [of _ "allow_open_data E (uh_chainID H) a d"] exI [of _ raw]) (simp add: allow_open_data_def)
qed

fun domain_of :: "request \<Rightarrow> string \<times> string" where
  "domain_of (ReqUnlock m) = (''OIFEscrowLIFI'', ''AllowOpen'')"
| "domain_of r = (''LiquidityPool'', ''Borrow'')"

lemma exec_typed:
  assumes "(s, c) \<in> set (execs (fst (handle V hs r)))"
  shows "\<exists>u. smsg s = be_nat u \<and> typed_for (eE V) (verifier_of r) (fst (domain_of r)) (snd (domain_of r)) u"
proof (cases r)
  case (ReqAcross m)
  then show ?thesis
    using across_exec [of s c] assms by (fastforce simp: across_unlock_hash_def res_simps dest!: borrow_typed)
next
  case (ReqEscrow m)
  then show ?thesis
    using escrow_exec [of s c] assms
    by (fastforce simp: escrow_unlock_hash_def res_simps split: prod.splits dest!: borrow_typed)
next
  case (ReqLighter m)
  then show ?thesis
    using lighter_exec [of s c] assms by (fastforce simp: lighter_unlock_hash_def res_simps dest!: borrow_typed)
next
  case (ReqCredit m)
  then show ?thesis
    using sprinter_exec [of s c] assms by (fastforce simp: sprinter_unlock_hash_def dest!: borrow_typed)
next
  case (ReqUnlock m)
  then show ?thesis using unlock_exec [of s c] assms by (fastforce dest!: unlock_typed)
qed

section \<open>Properties\<close>

text \<open>C11: relayers sign alike: when the relayer that the API asked and one that heard its announcement both
  hand a request to their tss layer, they do so for the same session and the same hash, and
  both with the asked relayer as the coordinator, provided that they see the same chains and have the
  same configuration. This holds for every protocol.\<close>

theorem relayers_sign_alike:
  assumes "prepare_signing E chns rq vars = Ok r \<or> prepare_unlock E chns rq vars = Ok r"
    and "Notify n \<in> set (fst (handle V hs r))" and "request_fits V (with_coordinator (host_ID (eHost V)) r)"
    and "same_encoding V W" and "host_ID (eHost V) \<noteq> []"
    and "(s, c) \<in> set (execs (fst (handle V hs r)))"
    and "(s', c') \<in> set (execs (fst (hear W hs \<lparr>MessageType = kind n, SessionID = session n, Payload = body n, From = q\<rparr>)))"
  shows "SID s' = SID s \<and> smsg s' = smsg s \<and> c = host_ID (eHost V) \<and> c' = host_ID (eHost V)"
proof -
  note u = prepared_unled [OF assms(1)]
  have x: "(s', c') \<in> set (execs (fst (handle W hs (with_coordinator (host_ID (eHost V)) r))))"
    using assms(7) request_heard [OF u assms(2,3,4), of hs q] by (simp add: same_domain_def)
  have c: "c = host_ID (eHost V)" "c' = host_ID (eHost V)"
    using exec_coordinator [OF assms(6)] exec_coordinator [OF x] unled_coordinator [OF u] assms(5) by simp_all
  with exec_determined [OF assms(6,4)] x show ?thesis by blast
qed

text \<open>Two relayers with a key share that exchange an unlock request.\<close>

definition sample_unlock :: lifi_unlock_data where
  "sample_unlock = \<lparr>u_OrderID = ''x'', u_Settler = string_bytes ''s'', u_Coordinator = [], u_Source = 0, u_Destination = 1\<rparr>"

definition relay_json :: json_text where
  "relay_json =
     \<lparr>jrender = (\<lambda>_. [1]),
      jparse = (\<lambda>b. Some (if b = [1] then lifi_unlock_json sample_eth raw_ids (sample_unlock\<lparr>u_Coordinator := ''aaaaaaaa''\<rparr>)
        else keyshare_json raw_ids (NewECDSAKeyshare (77::int) 1 committee) (JNum 77))),
      b64enc = (\<lambda>_. []), b64dec = (\<lambda>_. Some [])\<rparr>"

definition relay_env :: "int env" where
  "relay_env = sample_env\<lparr>eJ := relay_json, eE := sample_eth\<lparr>Keccak256 := \<lambda>b. take 32 (b @ replicate 32 0)\<rparr>\<rparr>"

definition sample_unlock_body :: json where
  "sample_unlock_body = JObj [(''protocol'', JStr ''lifi-escrow''), (''orderId'', JStr ''x''), (''settler'', JStr ''s'')]"

lemma relay_signs: "\<exists>s. (s, c) \<in> set (execs (fst (sign_and_execute (relay_env\<lparr>eHost := h\<rparr>) u sess c)))"
proof -
  obtain s where "new_signing (relay_env\<lparr>eHost := h\<rparr>) u sess = Ok s"
    by (simp add: new_signing_def NewSigning_def LockKeyshare_def UnlockKeyshare_def relay_env_def sample_env_def relay_json_def
      GetKeyshare_def unmarshal_keyshare_def json_unmarshal_tree_def keyshare_json_def struct_field_def
      keyshare_fields int_codec_def NewECDSAKeyshare_def committee_def)
  then show ?thesis by (intro exI [of _ s]) (simp add: sign_and_execute_def run_bind_try)
qed

lemma relay_unlocks:
  assumes "u_Coordinator d = [] \<longrightarrow> h = sample_host" and "u_OrderID d = ''x''"
  shows "\<exists>s. (s, if u_Coordinator d = [] then host_ID h else u_Coordinator d) \<in> set (execs (fst (handle (relay_env\<lparr>eHost := h\<rparr>) sample_handlers
     (ReqUnlock (NewLifiUnlockMessage 0 1 d)))))"
proof -
  let ?V = "relay_env\<lparr>eHost := h\<rparr>" and ?H = "ch_unlock sample_handlers"
  define d' where "d' = d\<lparr>u_Coordinator := if u_Coordinator d \<noteq> [] then u_Coordinator d else host_ID (eHost ?V)\<rparr>"
  obtain w where n: "unlock_notify ?V ?H d = (w, Ok d')" "u_Coordinator d' = (if u_Coordinator d = [] then host_ID h else u_Coordinator d)"
    using unlock_notify_run [of ?V ?H d] by (auto simp: d'_def)
  obtain u where u: "lifiUnlockHash (eE relay_env) ?H d' = Ok u"
    by (simp add: lifiUnlockHash_def sample_handlers_def eip712_def allow_open_data_def relay_env_def sample_eth_def sample_hash_struct_def)
  show ?thesis
    using relay_signs [of "u_Coordinator d'" h u "chain_session (uh_chainID ?H) (u_OrderID d')"]
    by (simp add: unlock_HandleMessage_def NewLifiUnlockMessage_def n u run_bind_try split: prod.splits) (auto simp: n(2))
qed

lemma sample_unlock_prepared:
  "prepare_unlock sample_eth {1} (Ok sample_unlock_body) [''chainId'' \<mapsto> ''1''] = Ok (ReqUnlock (NewLifiUnlockMessage 0 1 sample_unlock))"
  by (simp add: prepare_unlock_def sample_unlock_body_def decode_unlock_def unlock_validate_def path_chain_def var_text_def field_eval
      set_string10_def parse_dec_def digit_val_def big_uint64_def res_guard_def sample_unlock_def)
    (simp add: sample_eth_def)

theorem relayers_sign_alike_witness:
  "\<exists>n s s' c'. Notify n \<in> set (fst (handle relay_env sample_handlers (ReqUnlock (NewLifiUnlockMessage 0 1 sample_unlock))))
   \<and> (s, ''aaaaaaaa'') \<in> set (execs (fst (handle relay_env sample_handlers (ReqUnlock (NewLifiUnlockMessage 0 1 sample_unlock)))))
   \<and> (s', c') \<in> set (execs (fst (hear (relay_env\<lparr>eHost := sample_host\<lparr>host_ID := ''bbbbbbbb''\<rparr>\<rparr>) sample_handlers
        \<lparr>MessageType = kind n, SessionID = session n, Payload = body n, From = ''aaaaaaaa''\<rparr>)))
   \<and> smsg s' = smsg s \<and> c' = ''aaaaaaaa''"
proof -
  let ?r = "ReqUnlock (NewLifiUnlockMessage 0 1 sample_unlock)" and ?H = "ch_unlock sample_handlers"
  let ?W = "relay_env\<lparr>eHost := sample_host\<lparr>host_ID := ''bbbbbbbb''\<rparr>\<rparr>"
  let ?d = "sample_unlock\<lparr>u_Coordinator := ''aaaaaaaa''\<rparr>"
  have h: "eHost relay_env = sample_host" "host_ID sample_host = ''aaaaaaaa''" "relay_env\<lparr>eHost := sample_host\<rparr> = relay_env"
    by (simp_all add: relay_env_def sample_env_def sample_host_def)
  define n where "n = unlock_announce relay_env ?H ?d"
  have n: "Notify n \<in> set (fst (handle relay_env sample_handlers ?r))"
    by (simp add: unlock_HandleMessage_def NewLifiUnlockMessage_def unlock_notify_def n_def unlock_announce_def h sample_unlock_def Let_def
        split: prod.splits)
  have env: "eJ relay_env = relay_json" "eL relay_env = raw_ids" "lifi_unlock_json (eE relay_env) raw_ids = lifi_unlock_json sample_eth raw_ids"
    by (simp_all add: relay_env_def sample_env_def lifi_unlock_json_def enc_addr_def fun_eq_iff)
  have fits: "request_fits relay_env (with_coordinator (host_ID (eHost relay_env)) ?r)"
    unfolding h with_coordinator.simps request_fits.simps unlock_fits_def env
    by (simp add: NewLifiUnlockMessage_def text_ok_def relay_json_def)
      (simp add: relay_env_def sample_eth_def eth_text_ok_def sample_unlock_def string_bytes_def char_of_def bit_Suc_0_iff)
  have same: "same_encoding relay_env ?W" by (simp add: same_encoding_def)
  obtain s where s: "(s, ''aaaaaaaa'') \<in> set (execs (fst (handle relay_env sample_handlers ?r)))"
    using relay_unlocks [of sample_unlock sample_host] unfolding h by (auto simp: sample_unlock_def)
  have u: "unled ?r" by (rule prepared_unled [OF disjI2 [OF sample_unlock_prepared]])
  obtain s' where s': "(s', ''aaaaaaaa'') \<in> set (execs (fst (hear ?W sample_handlers
        \<lparr>MessageType = kind n, SessionID = session n, Payload = body n, From = ''aaaaaaaa''\<rparr>)))"
    using relay_unlocks [of ?d "sample_host\<lparr>host_ID := ''bbbbbbbb''\<rparr>"]
      request_heard [OF u n fits same, of sample_handlers "''aaaaaaaa''"]
    by (auto simp: same_domain_def h NewLifiUnlockMessage_def sample_unlock_def)
  from relayers_sign_alike [OF disjI2 [OF sample_unlock_prepared] n fits same _ s s'] h
  show ?thesis using n s s' by auto
qed

text \<open>C12: whatever a relayer is asked, all it ever signs is a 256 bit digest of EIP-712 typed data, made for
  the contract the request names: a \<open>Borrow\<close> from a liquidity pool for a borrow request, and an
  \<open>AllowOpen\<close> of the LiFi escrow for an unlock request, so that neither signature passes for the other
  and none for a transaction.\<close>

theorem only_typed_data_signed:
  assumes "(s, c) \<in> set (execs (fst (handle V hs r)))" and "\<And>x. length (Keccak256 (eE V) x) = 32"
  shows "smsg s < 2 ^ 256 \<and> (\<exists>t dom msg. smsg s = be_nat (Keccak256 (eE V) ([0x19, 0x01] @ dom @ msg))
     \<and> HashStruct (eE V) t ''EIP712Domain'' (DomainMap (eE V) (Domain t)) = Ok dom
     \<and> HashStruct (eE V) t (PrimaryType t) (Message t) = Ok msg
     \<and> VerifyingContract (Domain t) = Hex (eE V) (verifier_of r)
     \<and> (dom_Name (Domain t), PrimaryType t) =
          (case r of ReqUnlock m \<Rightarrow> (''OIFEscrowLIFI'', ''AllowOpen'') | _ \<Rightarrow> (''LiquidityPool'', ''Borrow'')))"
proof -
  have d: "domain_of r = (case r of ReqUnlock m \<Rightarrow> (''OIFEscrowLIFI'', ''AllowOpen'') | _ \<Rightarrow> (''LiquidityPool'', ''Borrow''))"
    by (cases r) simp_all
  obtain t raw where t: "smsg s = be_nat (Keccak256 (eE V) raw)" "eip712 (eE V) t = Ok raw"
    "(dom_Name (Domain t), PrimaryType t) = domain_of r" "VerifyingContract (Domain t) = Hex (eE V) (verifier_of r)"
    using exec_typed [OF assms(1)] by (auto simp: typed_for_def prod_eq_iff)
  obtain dom msg where "raw = [0x19, 0x01] @ dom @ msg"
    "HashStruct (eE V) t ''EIP712Domain'' (DomainMap (eE V) (Domain t)) = Ok dom"
    "HashStruct (eE V) t (PrimaryType t) (Message t) = Ok msg"
    using t(2) by (auto simp: eip712_def res_simps)
  moreover have "smsg s < 2 ^ 256"
    using be_nat_bound [of "Keccak256 (eE V) raw"] by (simp add: t(1) assms(2) flip: power_mult [of "2::nat" 8 32, simplified])
  ultimately show ?thesis using t(1,3,4) unfolding d by blast
qed

theorem only_typed_data_signed_witness:
  "\<exists>s. (s, ''aaaaaaaa'') \<in> set (execs (fst (handle relay_env sample_handlers (ReqUnlock (NewLifiUnlockMessage 0 1 sample_unlock)))))
   \<and> smsg s < 2 ^ 256"
proof -
  have h: "eHost relay_env = sample_host" "host_ID sample_host = ''aaaaaaaa''" "relay_env\<lparr>eHost := sample_host\<rparr> = relay_env"
    by (simp_all add: relay_env_def sample_env_def sample_host_def)
  obtain s where s: "(s, ''aaaaaaaa'') \<in> set (execs (fst (handle relay_env sample_handlers
      (ReqUnlock (NewLifiUnlockMessage 0 1 sample_unlock)))))"
    using relay_unlocks [of sample_unlock sample_host] unfolding h by (auto simp: sample_unlock_def)
  have "length (Keccak256 (eE relay_env) x) = 32" for x by (simp add: relay_env_def)
  from only_typed_data_signed [OF s this] s show ?thesis by blast
qed

end
