(* ===== verification/Sessions.thy ===== *)
theory Sessions
  imports Relay Evm_Listener
begin

text \<open>
  What one relayer executes side by side. Every request is handled in a goroutine of its own, and
  so are the events of key generation and refresh; all of them meet in the coordinator's table of
  pending sessions (\<open>tss/coordinator.go\<close>). The states of that table together with the calls of
  \<open>Execute\<close> that are under way are an inductive predicate over calls that begin and return in any order.
\<close>

section \<open>Calls of Execute\<close>

text \<open>A call of \<open>Execute\<close> by the handler of a request, with the process and the coordinator it passes, or
  by the handler of an event, with the block the event was in.\<close>

datatype ('k, 'g) call =
    Signs "'g chain_handlers" request "'k signing" peer
  | Generates uint64
  | Reshares uint64

fun call_session :: "('k, 'g) call \<Rightarrow> string" where
  "call_session (Signs hs r s c) = SID s"
| "call_session (Generates block) = keygen_sessionID block"
| "call_session (Reshares block) = resharing_sessionID block"

record ('k, 'g) sessions =
  table :: pending_table
  active :: "('k, 'g) call list"

definition no_sessions :: "('k, 'g) sessions" where
  "no_sessions = \<lparr>table = NewCoordinator, active = []\<rparr>"

text \<open>\<open>Execute\<close> from its call up to the start of the process, and its deferred function.\<close>

definition execute_call :: "('k, 'g) call \<Rightarrow> ('k, 'g) sessions \<Rightarrow> ('k, 'g) sessions \<times> unit res" where
  "execute_call k S =
     (case admit (table S) (call_session k) of
        (t, Ok u) \<Rightarrow> (S\<lparr>table := t, active := k # active S\<rparr>, Ok u)
      | (t, r) \<Rightarrow> (S\<lparr>table := t\<rparr>, r))"

definition return_call :: "('k, 'g) call \<Rightarrow> ('k, 'g) sessions \<Rightarrow> ('k, 'g) sessions" where
  "return_call k S = S\<lparr>table := release (table S) (call_session k), active := remove1 k (active S)\<rparr>"

text \<open>The calls the program makes: a handler calls \<open>Execute\<close> with what its run hands to it.\<close>

fun makes_call :: "'k env \<Rightarrow> ('k, 'g) call \<Rightarrow> bool" where
  "makes_call V (Signs hs r s c) = ((s, c) \<in> set (execs (fst (handle V hs r))))"
| "makes_call V _ = True"

inductive sessions_reach :: "('k, 'g) sessions \<Rightarrow> bool" where
  init: "sessions_reach no_sessions"
| call: "sessions_reach S \<Longrightarrow> makes_call V k \<Longrightarrow> sessions_reach (fst (execute_call k S))"
| return: "sessions_reach S \<Longrightarrow> k \<in> set (active S) \<Longrightarrow> sessions_reach (return_call k S)"

section \<open>What names a request\<close>

text \<open>The chain whose handler takes the request, and the identifier of the deposit or order.\<close>

fun request_chain :: "'g chain_handlers \<Rightarrow> request \<Rightarrow> uint64" where
  "request_chain hs (ReqAcross m) = ah_chainID (ch_across hs)"
| "request_chain hs (ReqEscrow m) = eh_chainID (ch_escrow hs)"
| "request_chain hs (ReqLighter m) = LIGHTER_DOMAIN_ID"
| "request_chain hs (ReqCredit m) = sh_chainID (ch_credit hs)"
| "request_chain hs (ReqUnlock m) = uh_chainID (ch_unlock hs)"

fun request_id :: "request \<Rightarrow> string" where
  "request_id (ReqAcross m) = big_str (a_DepositId (m_Data m))"
| "request_id (ReqEscrow m) = e_OrderID (m_Data m)"
| "request_id (ReqLighter m) = l_OrderHash (m_Data m)"
| "request_id (ReqCredit m) = s_DepositID (m_Data m)"
| "request_id (ReqUnlock m) = u_OrderID (m_Data m)"

text \<open>The requests that are being signed for, by chain and identifier.\<close>

fun call_request :: "('k, 'g) call \<Rightarrow> (uint64 \<times> string) option" where
  "call_request (Signs hs r s c) = Some (request_chain hs r, request_id r)"
| "call_request _ = None"

section \<open>Lemmas\<close>

lemma exec_session:
  assumes "(s, c) \<in> set (execs (fst (handle V hs r)))"
  shows "SID s = chain_session (request_chain hs r) (request_id r)"
proof (cases r)
  case (ReqAcross m)
  then show ?thesis using across_exec [of s c] assms by fastforce
next
  case (ReqEscrow m)
  then show ?thesis using escrow_exec [of s c] assms by fastforce
next
  case (ReqLighter m)
  then show ?thesis using lighter_exec [of s c] assms by fastforce
next
  case (ReqCredit m)
  then show ?thesis using sprinter_exec [of s c] assms by fastforce
next
  case (ReqUnlock m)
  then show ?thesis using unlock_exec [of s c] assms by fastforce
qed

lemma chain_session_inj: "chain_session a s = chain_session b t \<longleftrightarrow> a = b \<and> s = t"
  using dash_prefix_inj [OF dash_notin_show_nat(1) dash_notin_show_nat(1), of "unat a" s "unat b" t]
  by (auto simp: chain_session_def word_unat_eq_iff)

lemma show_nat_not_word: "x \<in> set w \<Longrightarrow> digit_val x = None \<Longrightarrow> show_nat n \<noteq> w"
  using all_digits_show_nat [of n] by (auto simp: all_digits_def)

lemma event_session_apart:
  "keygen_sessionID b \<noteq> chain_session a s" "resharing_sessionID b \<noteq> chain_session a s"
  "keygen_sessionID b \<noteq> resharing_sessionID b'"
proof -
  have dash: "''keygen-'' @ x = ''keygen'' @ CHR ''-'' # x" "''resharing-'' @ x = ''resharing'' @ CHR ''-'' # x" for x
    by simp_all
  have "''keygen'' \<noteq> show_nat n" "''resharing'' \<noteq> show_nat n" for n
    by (rule not_sym, rule show_nat_not_word [where x = "CHR ''e''"]; simp add: digit_val_def)+
  then show "keygen_sessionID b \<noteq> chain_session a s" "resharing_sessionID b \<noteq> chain_session a s"
    using dash_prefix_inj [OF _ dash_notin_show_nat(1), of "''keygen''" "show_nat (unat b)" "unat a" s]
      dash_prefix_inj [OF _ dash_notin_show_nat(1), of "''resharing''" "show_nat (unat b)" "unat a" s]
    by (auto simp: keygen_sessionID_def resharing_sessionID_def chain_session_def dash)
  show "keygen_sessionID b \<noteq> resharing_sessionID b'" by (simp add: keygen_sessionID_def resharing_sessionID_def)
qed

lemma same_request:
  assumes "makes_call V k" and "makes_call W k'" and "call_request k = Some q"
  shows "call_session k' = call_session k \<longleftrightarrow> call_request k' = Some q"
  using assms
  by (cases k; cases k') (auto simp: exec_session chain_session_inj event_session_apart(1,2))

lemma map_remove1_distinct:
  "distinct (map f xs) \<Longrightarrow> k \<in> set xs \<Longrightarrow> remove1 (f k) (map f xs) = map f (remove1 k xs)"
  by (induction xs) (auto, metis image_eqI)

definition sessions_inv :: "('k, 'g) sessions \<Rightarrow> bool" where
  "sessions_inv S \<longleftrightarrow> table_inv (table S) \<and> running (table S) = map call_session (active S)
     \<and> (\<forall>k \<in> set (active S). \<exists>V. makes_call V k)"

lemma sessions_inv_call:
  assumes "sessions_inv S" and "makes_call V k"
  shows "sessions_inv (fst (execute_call k S))"
  using assms table_inv_admit [of "table S" "call_session k"]
  by (auto simp: sessions_inv_def execute_call_def admit_def)

lemma sessions_inv_return:
  assumes "sessions_inv S" and "k \<in> set (active S)"
  shows "sessions_inv (return_call k S)"
proof -
  have "distinct (map call_session (active S))"
    using assms(1) unfolding sessions_inv_def table_inv_def by metis
  from map_remove1_distinct [OF this assms(2)] show ?thesis
    using assms(1) table_inv_release [of "table S" "call_session k"]
    set_remove1_subset [of k "active S"]
    by (auto simp: sessions_inv_def return_call_def release_def)
qed

lemma sessions_inv_reach: "sessions_reach S \<Longrightarrow> sessions_inv S"
proof (induction rule: sessions_reach.induct)
  case init
  then show ?case by (simp add: sessions_inv_def no_sessions_def table_inv_def NewCoordinator_def)
qed (auto intro: sessions_inv_call sessions_inv_return)

text \<open>What is being signed for, by chain and identifier.\<close>

definition in_progress :: "('k, 'g) sessions \<Rightarrow> (uint64 \<times> string) list" where
  "in_progress S = List.map_filter call_request (active S)"

lemma map_filter_iff: "y \<in> set (List.map_filter f xs) \<longleftrightarrow> (\<exists>x \<in> set xs. f x = Some y)"
  by (induction xs) (auto simp: map_filter_simps split: option.splits)

lemma distinct_requests:
  "\<forall>k \<in> set ks. \<exists>V. makes_call V k \<Longrightarrow> distinct (map call_session ks) \<Longrightarrow> distinct (List.map_filter call_request ks)"
proof (induction ks)
  case (Cons k ks)
  show ?case
  proof (cases "call_request k")
    case (Some q)
    have "call_request k' \<noteq> Some q" if k': "k' \<in> set ks" for k'
    proof
      assume q: "call_request k' = Some q"
      obtain V W where "makes_call V k" "makes_call W k'" using Cons.prems(1) k' by auto
      from same_request [OF this Some] q have "call_session k' = call_session k" by simp
      then have "call_session k \<in> call_session ` set ks" using k' by (metis image_eqI)
      with Cons.prems(2) show False by simp
    qed
    then show ?thesis using Cons Some by (auto simp: map_filter_simps map_filter_iff)
  qed (use Cons in \<open>auto simp: map_filter_simps\<close>)
qed (simp add: map_filter_simps)

lemma in_progress_distinct: "sessions_inv S \<Longrightarrow> distinct (in_progress S)"
  unfolding in_progress_def sessions_inv_def table_inv_def by (rule distinct_requests) metis+

lemma in_progress_iff:
  assumes "sessions_inv S" and "makes_call V k" and "call_request k = Some q"
  shows "q \<in> set (in_progress S) \<longleftrightarrow> pendingProcesses (table S) (call_session k) = Some True"
proof -
  have "q \<in> set (in_progress S) \<longleftrightarrow> (\<exists>k' \<in> set (active S). call_request k' = Some q)"
    by (auto simp: in_progress_def map_filter_iff)
  also have "\<dots> \<longleftrightarrow> (\<exists>k' \<in> set (active S). call_session k' = call_session k)"
  proof (intro bex_cong refl)
    fix k' assume "k' \<in> set (active S)"
    then obtain W where "makes_call W k'" using assms(1) by (auto simp: sessions_inv_def)
    from same_request [OF assms(2) this assms(3)] show "call_request k' = Some q \<longleftrightarrow> call_session k' = call_session k" by simp
  qed
  also have "\<dots> \<longleftrightarrow> pendingProcesses (table S) (call_session k) = Some True"
    using assms(1) by (force simp: sessions_inv_def table_inv_def)
  finally show ?thesis .
qed

section \<open>Properties\<close>

text \<open>C24: however requests, key generations and refreshes overlap on a relayer, it never signs twice at the same
  time for the same identifier on the same chain. A request whose handler has got as far as the
  coordinator is refused, without any effect, exactly while one with the same chain and identifier
  is being signed for, of whatever protocol, and is executed otherwise; key generations
  and refreshes are in nobody's way, and when the earlier request has returned it can be executed.\<close>

theorem requests_signed_once:
  assumes "sessions_reach S" and "(s, c) \<in> set (execs (fst (handle V hs r)))"
  shows "distinct (in_progress S)
    \<and> (if (request_chain hs r, request_id r) \<in> set (in_progress S)
       then execute_call (Signs hs r s c) S = (S, Fail (Errorf ''process already pending''))
       else snd (execute_call (Signs hs r s c) S) = Ok ()
         \<and> set (in_progress (fst (execute_call (Signs hs r s c) S))) = insert (request_chain hs r, request_id r) (set (in_progress S)))
    \<and> (\<forall>k \<in> set (active S). call_request k = Some (request_chain hs r, request_id r)
         \<longrightarrow> snd (execute_call (Signs hs r s c) (return_call k S)) = Ok ())"
proof -
  note inv = sessions_inv_reach [OF assms(1)]
  have m: "makes_call V (Signs hs r s c)" "call_request (Signs hs r s c) = Some (request_chain hs r, request_id r)"
    using assms(2) by simp_all
  note p = in_progress_iff [OF inv m]
  have "snd (execute_call (Signs hs r s c) (return_call k S)) = Ok ()"
    if k: "k \<in> set (active S)" "call_request k = Some (request_chain hs r, request_id r)" for k
  proof -
    obtain W where "makes_call W k" using inv k(1) by (auto simp: sessions_inv_def)
    from same_request [OF this m(1) k(2)] m(2) have "SID s = call_session k" by simp
    then show ?thesis by (simp add: execute_call_def return_call_def admit_def release_def)
  qed
  then show ?thesis
    using in_progress_distinct [OF inv] p
    by (auto simp: execute_call_def admit_def in_progress_def map_filter_simps)
qed

text \<open>A key generation and the unlocking of an order are under way when the same order is to be borrowed against.\<close>

theorem requests_signed_once_witness:
  "\<exists>s c s' c'. let k = Signs sample_handlers (ReqUnlock (NewLifiUnlockMessage 0 1 sample_unlock)) s c;
        k' = Signs sample_handlers (ReqEscrow (NewLifiEscrowMessage 1 1 sample_escrow_data)) s' c';
        S = fst (execute_call k (fst (execute_call (Generates 7) no_sessions)))
      in in_progress S = [(1, ''x'')] \<and> makes_call relay_env k \<and> makes_call sample_env k'
       \<and> execute_call k' S = (S, Fail (Errorf ''process already pending''))
       \<and> snd (execute_call k' (return_call k S)) = Ok ()"
proof -
  let ?r = "ReqUnlock (NewLifiUnlockMessage 0 1 sample_unlock)" and ?r' = "ReqEscrow (NewLifiEscrowMessage 1 1 sample_escrow_data)"
  have h: "eHost relay_env = sample_host" "host_ID sample_host = ''aaaaaaaa''" "relay_env\<lparr>eHost := sample_host\<rparr> = relay_env"
    by (simp_all add: relay_env_def sample_env_def sample_host_def)
  obtain s where s: "(s, ''aaaaaaaa'') \<in> set (execs (fst (handle relay_env sample_handlers ?r)))"
    using relay_unlocks [of sample_unlock sample_host] unfolding h by (auto simp: sample_unlock_def)
  obtain s' where s': "(s', ''a'') \<in> set (execs (fst (handle sample_env sample_handlers ?r')))"
    using sample_escrow_exec by (auto simp: sample_handlers_def)
  let ?k = "Signs sample_handlers ?r s ''aaaaaaaa''" and ?k' = "Signs sample_handlers ?r' s' ''a''"
  let ?S0 = "fst (execute_call (Generates 7) no_sessions)"
  let ?S = "fst (execute_call ?k ?S0)"
  have q: "call_request ?k = Some (1, ''x'')" "call_request ?k' = Some (1, ''x'')"
    by (simp_all add: sample_handlers_def NewLifiUnlockMessage_def NewLifiEscrowMessage_def sample_unlock_def sample_escrow_data_def
      sample_escrow_def)
  have sid: "SID s = chain_session 1 ''x''" using exec_session [OF s] q(1) by simp
  have S: "active ?S = [?k, Generates 7]"
    using event_session_apart(1) [of 7 1 "''x''"]
    by (simp add: execute_call_def admit_def no_sessions_def NewCoordinator_def sid)
  have "sessions_reach ?S"
    using s by (intro sessions_reach.call [where V = relay_env] sessions_reach.init) simp_all
  from requests_signed_once [OF this s'] q S s s' show ?thesis
    by (intro exI [of _ s] exI [of _ "''aaaaaaaa''"] exI [of _ s'] exI [of _ "''a''"])
      (simp add: Let_def in_progress_def map_filter_simps)
qed

end
