(* ===== verification/Round.thy ===== *)
theory Round
  imports Coordinator
begin

text \<open>
  A signing session across the network: one relayer coordinates, the others wait for its start
  message, and whoever is not honest sends whatever it likes, under its own identity only. The
  loops are those of \<open>tss/coordinator.go\<close> as \<open>Coordinator\<close> has them; what connects them is that a loop
  receives a message only after some relayer sent it. The states are all those that any order of
  deliveries, ticks, failures and ends leads to.
\<close>

section \<open>The network of a session\<close>

record 'k session_env =
  n_json :: json_text
  n_lib :: libp2p
  n_keccak :: keccak
  leader :: host
  participants :: "peer set"
  process_of :: "peer \<Rightarrow> 'k signing"

text \<open>\<open>lead\<close> is the loop of the coordinating relayer, \<open>part q\<close> that of another member.\<close>

record round_state =
  lead :: init_state
  part :: "peer \<Rightarrow> wait_state"

definition proc :: "'k session_env \<Rightarrow> peer \<Rightarrow> tss_process" where
  "proc E q = signing_process (n_json E) (n_lib E) (n_keccak E) (process_of E q)"

definition chief :: "'k session_env \<Rightarrow> peer" where
  "chief E = host_ID (leader E)"

definition round_begin :: "'k session_env \<Rightarrow> round_state" where
  "round_begin E = \<lparr>lead = initiate_begin (leader E) (proc E (chief E)), part = (\<lambda>_. wait_begin)\<rparr>"

definition actions_of :: "'k session_env \<Rightarrow> round_state \<Rightarrow> peer \<Rightarrow> coord_action list" where
  "actions_of E n q = (if q = chief E then acts (lead n) else wacts (part n q))"

text \<open>Who is not a member may have sent anything.\<close>

definition delivered :: "'k session_env \<Rightarrow> round_state \<Rightarrow> peer \<Rightarrow> peer \<Rightarrow> message_type \<Rightarrow> bytes \<Rightarrow> bool" where
  "delivered E n x q t b \<longleftrightarrow>
     (x \<in> participants E \<longrightarrow> (\<exists>m. Broadcast m \<in> set (actions_of E n x) \<and> q \<in> set (to m) \<and> kind m = t
        \<and> session m = tp_SessionID (proc E q) \<and> body m = b))"

fun lead_receives :: "'k session_env \<Rightarrow> round_state \<Rightarrow> init_event \<Rightarrow> bool" where
  "lead_receives E n (ReadyFrom x) = (\<exists>b. delivered E n x (chief E) TssReadyMsg b)"
| "lead_receives E n _ = True"

fun part_receives :: "'k session_env \<Rightarrow> round_state \<Rightarrow> peer \<Rightarrow> wait_event \<Rightarrow> bool" where
  "part_receives E n q (InitiateFrom x) = (\<exists>b. delivered E n x q TssInitiateMsg b)"
| "part_receives E n q (StartFrom x b) = delivered E n x q TssStartMsg b"
| "part_receives E n q _ = True"

definition lead_move :: "'k session_env \<Rightarrow> round_state \<Rightarrow> init_event \<Rightarrow> round_state" where
  "lead_move E n e = n\<lparr>lead := initiate_step (n_json E) (leader E) (proc E (chief E)) [] (lead n) e\<rparr>"

definition part_move :: "'k session_env \<Rightarrow> round_state \<Rightarrow> peer \<Rightarrow> wait_event \<Rightarrow> round_state" where
  "part_move E n q e = n\<lparr>part := (part n)(q := waitForStart_step (n_json E) (proc E q) (chief E) (part n q) e)\<rparr>"

inductive round_reach :: "'k session_env \<Rightarrow> round_state \<Rightarrow> bool" for E where
  opened: "round_reach E (round_begin E)"
| leading: "round_reach E n \<Longrightarrow> lead_receives E n e \<Longrightarrow> round_reach E (lead_move E n e)"
| taking_part: "round_reach E n \<Longrightarrow> q \<in> participants E \<Longrightarrow> q \<noteq> chief E \<Longrightarrow> part_receives E n q e \<Longrightarrow> round_reach E (part_move E n q e)"

section \<open>Actions are never taken back\<close>

lemma initiate_step_acts: "set (acts st) \<subseteq> set (acts (initiate_step J h p ex st e))"
  by (cases e) (auto simp: on_ready_def Let_def split: res.splits bool.splits)

lemma waitForStart_step_acts: "set (wacts st) \<subseteq> set (wacts (waitForStart_step J p c st e))"
  by (cases e) (auto split: res.splits)

lemma actions_move:
  "set (actions_of E n x) \<subseteq> set (actions_of E (lead_move E n e) x)"
  "set (actions_of E n x) \<subseteq> set (actions_of E (part_move E n q w) x)"
  using initiate_step_acts waitForStart_step_acts
  by (auto simp: actions_of_def lead_move_def part_move_def dest!: subsetD [OF initiate_step_acts] subsetD [OF waitForStart_step_acts])

lemma delivered_mono:
  "set (actions_of E n x) \<subseteq> set (actions_of E n' x) \<Longrightarrow> delivered E n x q t b \<Longrightarrow> delivered E n' x q t b"
  unfolding delivered_def by blast

lemmas delivered_move = delivered_mono [OF actions_move(1)] delivered_mono [OF actions_move(2)]

section \<open>The coordinating relayer decides once\<close>

text \<open>
  The share holders among the ready peers only grow at the end, so the first \<open>threshold + 1\<close> of them
  are fixed once there are that many; every start carries just those.
\<close>

definition holders :: "'k signing \<Rightarrow> init_state \<Rightarrow> peer list" where
  "holders s st = readyParticipants s (readyPeers st)"

definition quota :: "'k signing \<Rightarrow> nat" where
  "quota s = nat (Threshold (skey s) + 1)"

definition decision :: "json_text \<Rightarrow> libp2p \<Rightarrow> keccak \<Rightarrow> 'k signing \<Rightarrow> init_state \<Rightarrow> bytes" where
  "decision J L K s st = signing_StartParams J L K s (take (quota s) (holders s st))"

fun decided_action :: "json_text \<Rightarrow> nat \<Rightarrow> nat \<Rightarrow> bytes \<Rightarrow> coord_action \<Rightarrow> bool" where
  "decided_action J k n P (SpawnRun c params) = (n \<le> k \<and> params = P)"
| "decided_action J k n P (Broadcast m) = (kind m = TssStartMsg \<longrightarrow> n \<le> k \<and> body m = jrender J (start_json J P))"

definition decided :: "json_text \<Rightarrow> libp2p \<Rightarrow> keccak \<Rightarrow> 'k signing \<Rightarrow> init_state \<Rightarrow> bool" where
  "decided J L K s st \<longleftrightarrow>
     (\<forall>a \<in> set (acts st). decided_action J (length (holders s st)) (quota s) (decision J L K s st) a)"

lemma holders_joined:
  "\<exists>ys. readyParticipants s (joined ex rs q) = readyParticipants s rs @ ys"
  by (simp add: joined_def readyParticipants_def)

lemma decided_action_more:
  assumes "decided_action J k n P a" and "k \<le> k'" and "n \<le> k \<Longrightarrow> P' = P"
  shows "decided_action J k' n P' a"
  using assms by (cases a) auto

lemma decided_more:
  assumes "decided J L K s st" and "holders s st' = holders s st @ ys" and "acts st' = acts st"
  shows "decided J L K s st'"
  unfolding decided_def assms(3)
proof
  fix a assume "a \<in> set (acts st)"
  with assms(1) have "decided_action J (length (holders s st)) (quota s) (decision J L K s st) a"
    by (simp add: decided_def)
  then show "decided_action J (length (holders s st')) (quota s) (decision J L K s st') a"
    by (rule decided_action_more) (simp_all add: assms(2) decision_def)
qed

lemma StartParams_holders:
  "signing_StartParams J L K s (readyParticipants s rp) = signing_StartParams J L K s rp"
  by (simp add: signing_StartParams_def peerSubset_def readyParticipants_def)

lemma decided_on_ready:
  assumes "decided J L K s st"
  shows "decided J L K s (on_ready J h (signing_process J L K s) ex st q)"
proof -
  define rp where "rp = joined ex (readyPeers st) q"
  obtain ys where "readyParticipants s rp = holders s st @ ys"
    using holders_joined [of s ex "readyPeers st" q] by (auto simp: rp_def holders_def)
  then have d: "decided J L K s (st\<lparr>readyPeers := rp\<rparr>)"
    using decided_more [OF assms, of "st\<lparr>readyPeers := rp\<rparr>" ys] by (simp add: holders_def)
  show ?thesis
  proof (cases "int (length (readyParticipants s rp)) = Threshold (skey s) + 1")
    case True
    then have k: "length (readyParticipants s rp) = quota s" by (simp add: quota_def)
    then have "signing_StartParams J L K s (take (quota s) (readyParticipants s rp)) = signing_StartParams J L K s rp"
      by (simp add: StartParams_holders)
    then show ?thesis
      using d True k
      by (simp add: on_ready_signing Let_def rp_def [symmetric] decided_def decision_def holders_def start_actions_def
          ball_Un)
  next
    case False
    then show ?thesis using d by (simp add: on_ready_signing Let_def rp_def [symmetric])
  qed
qed

lemma decided_step:
  assumes "decided J L K s st"
  shows "decided J L K s (initiate_step J h (signing_process J L K s) ex st e)"
proof (cases e)
  case (ReadyFrom q)
  then show ?thesis using assms decided_on_ready [OF assms] by simp
qed (use assms in \<open>auto simp: decided_def decision_def holders_def broadcastInitiateMsg_def\<close>)

lemma decided_begin: "decided J L K s (initiate_begin h p)"
  by (simp add: decided_def initiate_begin_def broadcastInitiateMsg_def)

section \<open>The invariant of a round\<close>

definition said_ready :: "'k session_env \<Rightarrow> round_state \<Rightarrow> peer \<Rightarrow> bool" where
  "said_ready E n x \<longleftrightarrow> x = chief E \<or> (\<exists>b. delivered E n x (chief E) TssReadyMsg b)"

definition told_to_run :: "'k session_env \<Rightarrow> round_state \<Rightarrow> peer \<Rightarrow> bytes \<Rightarrow> bool" where
  "told_to_run E n q params \<longleftrightarrow>
     (\<exists>payload. delivered E n (chief E) q TssStartMsg payload
        \<and> UnmarshalStartMessage (n_json E) payload = Ok \<lparr>Params = params\<rparr>)"

definition round_inv :: "'k session_env \<Rightarrow> round_state \<Rightarrow> bool" where
  "round_inv E n \<longleftrightarrow>
     decided (n_json E) (n_lib E) (n_keccak E) (process_of E (chief E)) (lead n)
     \<and> distinct (readyPeers (lead n)) \<and> (\<forall>x \<in> set (readyPeers (lead n)). said_ready E n x)
     \<and> (\<forall>q \<in> participants E - {chief E}. \<forall>c params. SpawnRun c params \<in> set (wacts (part n q)) \<longrightarrow> told_to_run E n q params)"

lemma said_told_move:
  "said_ready E n x \<Longrightarrow> said_ready E (lead_move E n e) x"
  "said_ready E n x \<Longrightarrow> said_ready E (part_move E n y w) x"
  "told_to_run E n x params \<Longrightarrow> told_to_run E (lead_move E n e) x params"
  "told_to_run E n x params \<Longrightarrow> told_to_run E (part_move E n y w) x params"
  unfolding said_ready_def told_to_run_def using delivered_move by blast+

lemma readyPeers_on_ready:
  "readyPeers (on_ready J h p ex st q) = joined ex (readyPeers st) q"
  by (simp add: on_ready_def joined_def Let_def split: res.splits bool.splits)

lemma readyPeers_step:
  "readyPeers (initiate_step J h p ex st e) = readyPeers st
   \<or> (\<exists>q. e = ReadyFrom q \<and> readyPeers (initiate_step J h p ex st e) = joined ex (readyPeers st) q)"
  by (cases e) (simp_all add: readyPeers_on_ready)

lemma waitForStart_step_runs:
  assumes "SpawnRun c params \<in> set (wacts (waitForStart_step J p coord st e))" and "coord \<noteq> []"
  shows "SpawnRun c params \<in> set (wacts st)
    \<or> (\<exists>payload. e = StartFrom coord payload \<and> UnmarshalStartMessage J payload = Ok \<lparr>Params = params\<rparr>)"
proof (cases e)
  case (StartFrom q payload)
  have "Ok \<lparr>Params = Params m\<rparr> = Ok m" for m :: start_message by simp
  with StartFrom assms show ?thesis
    by (cases "UnmarshalStartMessage J payload") (auto split: if_splits)
qed (use assms in \<open>auto split: if_splits\<close>)

lemma round_inv_begin: "round_inv E (round_begin E)"
  by (simp add: round_inv_def round_begin_def decided_begin wait_begin_def)
    (simp add: initiate_begin_def said_ready_def chief_def)

lemma round_inv_lead:
  assumes "round_inv E n" and "lead_receives E n e"
  shows "round_inv E (lead_move E n e)"
proof -
  let ?n = "lead_move E n e"
  have l: "lead ?n = initiate_step (n_json E) (leader E) (proc E (chief E)) [] (lead n) e" "part ?n = part n"
    by (simp_all add: lead_move_def)
  have "said_ready E ?n x" if "x \<in> set (readyPeers (lead ?n))" for x
  proof -
    have "x \<in> set (readyPeers (lead n)) \<or> e = ReadyFrom x"
      using that readyPeers_step [of "n_json E" "leader E" "proc E (chief E)" "[]" "lead n" e]
      unfolding l by (auto simp: joined_def simp del: initiate_step.simps split: if_splits)
    moreover have "e = ReadyFrom x \<Longrightarrow> said_ready E n x" using assms(2) by (auto simp: said_ready_def)
    ultimately have "said_ready E n x" using assms(1) by (auto simp: round_inv_def)
    then show ?thesis by (rule said_told_move(1))
  qed
  moreover have "distinct (readyPeers (lead ?n))"
    unfolding l using assms(1) readyPeers_step [of "n_json E" "leader E" "proc E (chief E)" "[]" "lead n" e]
    by (auto simp: round_inv_def joined_def simp del: initiate_step.simps split: if_splits)
  moreover have "decided (n_json E) (n_lib E) (n_keccak E) (process_of E (chief E)) (lead ?n)"
    unfolding l proc_def by (rule decided_step) (use assms(1) in \<open>simp add: round_inv_def\<close>)
  moreover have "\<forall>q \<in> participants E - {chief E}. \<forall>c params. SpawnRun c params \<in> set (wacts (part ?n q)) \<longrightarrow> told_to_run E ?n q params"
    unfolding l(2) using assms(1) said_told_move(3) by (fastforce simp: round_inv_def)
  ultimately show ?thesis by (simp add: round_inv_def)
qed

lemma round_inv_part:
  assumes "round_inv E n" and "part_receives E n y e" and "chief E \<noteq> []"
  shows "round_inv E (part_move E n y e)"
proof -
  let ?n = "part_move E n y e"
  have l: "lead ?n = lead n" by (simp add: part_move_def)
  have told: "told_to_run E ?n q params"
    if q: "q \<in> participants E - {chief E}" and run: "SpawnRun c params \<in> set (wacts (part ?n q))" for q c params
  proof -
    have "SpawnRun c params \<in> set (wacts (part n q))
      \<or> q = y \<and> (\<exists>payload. e = StartFrom (chief E) payload \<and> UnmarshalStartMessage (n_json E) payload = Ok \<lparr>Params = params\<rparr>)"
      using run waitForStart_step_runs [OF _ assms(3), of c params "n_json E" "proc E y" "part n y" e]
      by (auto simp: part_move_def simp del: waitForStart_step.simps split: if_splits)
    then have "told_to_run E n q params"
      using assms(1,2) q by (auto simp: round_inv_def told_to_run_def)
    then show ?thesis by (rule said_told_move(4))
  qed
  have "\<forall>x \<in> set (readyPeers (lead n)). said_ready E ?n x"
    using assms(1) said_told_move(2) by (fastforce simp: round_inv_def)
  then show ?thesis using assms(1) told unfolding round_inv_def l by blast
qed

lemma round_inv_reach: "round_reach E n \<Longrightarrow> chief E \<noteq> [] \<Longrightarrow> round_inv E n"
  by (induction rule: round_reach.induct) (simp_all add: round_inv_begin round_inv_lead round_inv_part)

lemma leader_start:
  assumes "decided J L K s st" and "Broadcast m \<in> set (acts st)" and "kind m = TssStartMsg"
  shows "quota s \<le> length (holders s st)" and "body m = jrender J (start_json J (decision J L K s st))"
  using assms by (fastforce simp: decided_def)+

lemma leader_run:
  assumes "decided J L K s st" and "SpawnRun c params \<in> set (acts st)"
  shows "quota s \<le> length (holders s st)" and "params = decision J L K s st"
  using assms by (fastforce simp: decided_def)+

text \<open>The signers that are decided on.\<close>

definition signers :: "'k session_env \<Rightarrow> round_state \<Rightarrow> peer list" where
  "signers E n = (let s = process_of E (chief E) in
     peerSubset (n_lib E) (n_keccak E) s (take (quota s) (holders s (lead n))))"

lemma readyParticipants_holders [simp]:
  "readyParticipants s (take k (holders s st)) = take k (holders s st)"
proof -
  have "\<forall>x \<in> set (take k (holders s st)). x \<in> set (KeyPeers (skey s))"
    using set_take_subset [of k "holders s st"] by (auto simp: holders_def readyParticipants_def)
  then show ?thesis by (simp add: readyParticipants_def filter_id_conv)
qed

lemma signers_facts:
  assumes "round_inv E n" and "0 \<le> Threshold (skey (process_of E (chief E)))"
    and "quota (process_of E (chief E)) \<le> length (holders (process_of E (chief E)) (lead n))"
  shows "int (length (signers E n)) = Threshold (skey (process_of E (chief E))) + 1" and "distinct (signers E n)"
    and "set (signers E n) \<subseteq> set (KeyPeers (skey (process_of E (chief E))))"
    and "x \<in> set (signers E n) \<Longrightarrow> said_ready E n x"
    and "decision (n_json E) (n_lib E) (n_keccak E) (process_of E (chief E)) (lead n)
       = jrender (n_json E) (peers_json (n_lib E) (signers E n))"
proof -
  let ?s = "process_of E (chief E)"
  have d: "distinct (take (quota ?s) (holders ?s (lead n)))"
    using assms(1) by (simp add: round_inv_def holders_def readyParticipants_def)
  have sub: "set (signers E n) \<subseteq> set (take (quota ?s) (holders ?s (lead n)))"
    using set_peerSubset [OF assms(2), of "n_lib E" "n_keccak E" "take (quota ?s) (holders ?s (lead n))"]
    by (simp add: signers_def Let_def)
  also have "\<dots> \<subseteq> set (holders ?s (lead n))" by (rule set_take_subset)
  finally have h: "set (signers E n) \<subseteq> set (holders ?s (lead n))" .
  show "int (length (signers E n)) = Threshold (skey ?s) + 1"
    using assms(2,3) by (simp add: signers_def Let_def peerSubset_take quota_def)
  show "distinct (signers E n)"
    using distinct_peerSubset [OF assms(2) d] by (simp add: signers_def Let_def)
  show "set (signers E n) \<subseteq> set (KeyPeers (skey ?s))"
    using h by (auto simp: holders_def readyParticipants_def)
  show "x \<in> set (signers E n) \<Longrightarrow> said_ready E n x"
    using h assms(1) by (auto simp: holders_def readyParticipants_def round_inv_def)
  show "decision (n_json E) (n_lib E) (n_keccak E) ?s (lead n) = jrender (n_json E) (peers_json (n_lib E) (signers E n))"
    by (simp add: decision_def signing_StartParams_def signers_def Let_def)
qed

lemma told_to_run_decision:
  assumes "round_inv E n" and "chief E \<in> participants E" and "told_to_run E n q params"
    and "text_ok (n_json E) (start_json (n_json E) P)" and "b64_ok (n_json E) P"
    and "P = decision (n_json E) (n_lib E) (n_keccak E) (process_of E (chief E)) (lead n)"
  shows "quota (process_of E (chief E)) \<le> length (holders (process_of E (chief E)) (lead n))" and "params = P"
proof -
  obtain m where m: "Broadcast m \<in> set (acts (lead n))" "kind m = TssStartMsg"
    "UnmarshalStartMessage (n_json E) (body m) = Ok \<lparr>Params = params\<rparr>"
    using assms(2,3) by (auto simp: told_to_run_def delivered_def actions_of_def)
  have d: "decided (n_json E) (n_lib E) (n_keccak E) (process_of E (chief E)) (lead n)"
    using assms(1) by (simp add: round_inv_def)
  show "quota (process_of E (chief E)) \<le> length (holders (process_of E (chief E)) (lead n))"
    by (rule leader_start(1) [OF d m(1,2)])
  have "body m = jrender (n_json E) (start_json (n_json E) P)"
    unfolding assms(6) by (rule leader_start(2) [OF d m(1,2)])
  then show "params = P"
    using m(3) UnmarshalStartMessage_render [OF assms(4,5)] by simp
qed

lemma round_run_params:
  assumes "round_reach E n" and "chief E \<noteq> []" and "chief E \<in> participants E"
    and "text_ok (n_json E) (start_json (n_json E) (jrender (n_json E) (peers_json (n_lib E) (signers E n))))"
    and "b64_ok (n_json E) (jrender (n_json E) (peers_json (n_lib E) (signers E n)))"
    and "q \<in> participants E" and "SpawnRun c params \<in> set (actions_of E n q)"
  shows "quota (process_of E (chief E)) \<le> length (holders (process_of E (chief E)) (lead n))"
    and "params = jrender (n_json E) (peers_json (n_lib E) (signers E n))"
proof -
  let ?s = "process_of E (chief E)"
  let ?P = "jrender (n_json E) (peers_json (n_lib E) (signers E n))"
  have inv: "round_inv E n" by (rule round_inv_reach [OF assms(1,2)])
  have P: "?P = decision (n_json E) (n_lib E) (n_keccak E) ?s (lead n)"
    by (simp add: decision_def signing_StartParams_def signers_def Let_def)
  have "quota ?s \<le> length (holders ?s (lead n)) \<and> params = ?P"
  proof (cases "q = chief E")
    case True
    then have run: "SpawnRun c params \<in> set (acts (lead n))" using assms(7) by (simp add: actions_of_def)
    have "decided (n_json E) (n_lib E) (n_keccak E) ?s (lead n)" using inv by (simp add: round_inv_def)
    from leader_run [OF this run] show ?thesis by (simp add: P)
  next
    case False
    then have "told_to_run E n q params"
      using inv assms(6,7) by (auto simp: round_inv_def actions_of_def)
    from told_to_run_decision [OF inv assms(3) this assms(4,5) P] show ?thesis by simp
  qed
  then show "quota ?s \<le> length (holders ?s (lead n))" and "params = ?P" by simp_all
qed

text \<open>C1: the relayers of a signing session agree: in whatever order messages are delivered, repeated or
  lost, and whatever peers outside the session send, every party that runs, on the coordinating
  relayer and on every other, runs with start parameters that decode to one and the same list of
  threshold + 1 distinct holders of a key share, each of which is the coordinator or has reported
  ready to it.\<close>

theorem round_agreement:
  assumes "round_reach E n" and "chief E \<noteq> []" and "chief E \<in> participants E"
    and "0 \<le> Threshold (skey (process_of E (chief E)))"
    and "text_ok (n_json E) (peers_json (n_lib E) (signers E n))" and "ids_ok (n_lib E) (signers E n)"
    and "text_ok (n_json E) (start_json (n_json E) (jrender (n_json E) (peers_json (n_lib E) (signers E n))))"
    and "b64_ok (n_json E) (jrender (n_json E) (peers_json (n_lib E) (signers E n)))"
    and "q \<in> participants E" and "SpawnRun c params \<in> set (actions_of E n q)"
  shows "signing_unmarshallStartParams (n_json E) (n_lib E) params = Ok (signers E n)
    \<and> int (length (signers E n)) = Threshold (skey (process_of E (chief E))) + 1 \<and> distinct (signers E n)
    \<and> set (signers E n) \<subseteq> set (KeyPeers (skey (process_of E (chief E))))
    \<and> (\<forall>x \<in> set (signers E n). x = chief E \<or> (\<exists>b. delivered E n x (chief E) TssReadyMsg b))"
proof -
  have inv: "round_inv E n" by (rule round_inv_reach [OF assms(1,2)])
  show ?thesis
    using round_run_params [OF assms(1-3,7-10)] signers_facts [OF inv assms(4)]
      signing_unmarshallStartParams_render [OF assms(5,6)]
    unfolding said_ready_def by blast
qed


text \<open>Two relayers of the committee of three: one takes part, reports ready and is started.\<close>

definition sample_subset :: "peer list" where
  "sample_subset = peerSubset raw_ids id sample_signing [''aaaaaaaa'', ''cccccccc'']"

definition sample_text :: json_text where
  "sample_text = \<lparr>jrender = (\<lambda>j. case j of JObj _ \<Rightarrow> [1] | _ \<Rightarrow> [0]),
     jparse = (\<lambda>b. if b = [1] then Some (JObj [(''params'', JStr [])]) else Some (peers_json raw_ids sample_subset)),
     b64enc = (\<lambda>_. []), b64dec = (\<lambda>_. Some [0])\<rparr>"

definition sample_round :: "unit session_env" where
  "sample_round = \<lparr>n_json = sample_text, n_lib = raw_ids, n_keccak = id, leader = sample_host,
     participants = {''aaaaaaaa'', ''cccccccc''}, process_of = (\<lambda>_. sample_signing)\<rparr>"

definition sample_states :: "round_state list" where
  "sample_states = (let
     n1 = part_move sample_round (round_begin sample_round) ''cccccccc'' (InitiateFrom ''aaaaaaaa'');
     n2 = lead_move sample_round n1 (ReadyFrom ''cccccccc'')
   in [n1, n2, part_move sample_round n2 ''cccccccc'' (StartFrom ''aaaaaaaa'' [1])])"

lemma sample_text_sel [simp]:
  "jrender sample_text (start_json sample_text b) = [1]" "jrender sample_text (peers_json L ps) = [0]"
  "text_ok sample_text (start_json sample_text b)" "text_ok sample_text (peers_json raw_ids sample_subset)"
  "b64_ok sample_text [0]" "UnmarshalStartMessage sample_text [1] = Ok \<lparr>Params = [0]\<rparr>"
  by (simp_all add: sample_text_def start_json_def peers_json_def text_ok_def b64_ok_def UnmarshalStartMessage_def
      json_unmarshal_tree_def field_eval)

lemma signing_session [simp]: "tp_SessionID (signing_process J L K s) = SID s"
  by (simp add: signing_process_def)

lemmas round_eval = sample_states_def sample_round_def part_move_def lead_move_def round_begin_def initiate_begin_def
  proc_def chief_def sample_host_def wait_begin_def broadcastInitiateMsg_def

lemma sample_actions:
  "actions_of sample_round (sample_states ! 0) ''cccccccc''
     = [Broadcast \<lparr>to = [''aaaaaaaa''], body = [], kind = TssReadyMsg, session = ''1-5''\<rparr>]"
  "readyPeers (lead (sample_states ! 1)) = [''aaaaaaaa'', ''cccccccc'']"
  "actions_of sample_round (sample_states ! 1) ''aaaaaaaa''
     = broadcastInitiateMsg sample_host ''1-5'' # start_actions sample_host (proc sample_round ''aaaaaaaa'') [1] [0]"
  "SpawnRun False [0] \<in> set (actions_of sample_round (sample_states ! 2) ''cccccccc'')"
  by (simp_all add: actions_of_def round_eval on_ready_signing joined_def readyParticipants_def sample_defs
      signing_StartParams_def Let_def start_actions_def numeral_2_eq_2)

lemma delivered_by:
  "Broadcast m \<in> set (actions_of E n x) \<Longrightarrow> q \<in> set (to m) \<Longrightarrow> session m = tp_SessionID (proc E q)
   \<Longrightarrow> delivered E n x q (kind m) (body m)"
  unfolding delivered_def by blast

lemma sample_delivered:
  "delivered sample_round (round_begin sample_round) ''aaaaaaaa'' ''cccccccc'' TssInitiateMsg []"
  "delivered sample_round (sample_states ! 0) ''cccccccc'' ''aaaaaaaa'' TssReadyMsg []"
  "delivered sample_round (sample_states ! 1) ''aaaaaaaa'' ''cccccccc'' TssStartMsg [1]"
proof -
  show "delivered sample_round (round_begin sample_round) ''aaaaaaaa'' ''cccccccc'' TssInitiateMsg []"
    by (simp add: delivered_def actions_of_def round_eval sample_defs)
  show "delivered sample_round (sample_states ! 0) ''cccccccc'' ''aaaaaaaa'' TssReadyMsg []"
    unfolding delivered_def sample_actions by (simp add: round_eval sample_defs)
  have "Broadcast \<lparr>to = committee, body = [1], kind = TssStartMsg, session = ''1-5''\<rparr>
      \<in> set (actions_of sample_round (sample_states ! 1) ''aaaaaaaa'')"
    unfolding sample_actions by (simp add: start_actions_def round_eval sample_signing_def)
  from delivered_by [OF this, of "''cccccccc''"]
  show "delivered sample_round (sample_states ! 1) ''aaaaaaaa'' ''cccccccc'' TssStartMsg [1]"
    by (simp add: sample_round_def proc_def sample_defs)
qed

lemma sample_reach: "round_reach sample_round (sample_states ! 2)"
proof -
  have 0: "round_reach sample_round (sample_states ! 0)"
    using round_reach.taking_part [OF round_reach.opened [of sample_round], of "''cccccccc''" "InitiateFrom ''aaaaaaaa''"]
      sample_delivered(1) by (auto simp: sample_states_def Let_def sample_round_def chief_def sample_host_def)
  have 1: "round_reach sample_round (sample_states ! 1)"
    using round_reach.leading [OF 0, of "ReadyFrom ''cccccccc''"] sample_delivered(2)
    by (auto simp: sample_states_def Let_def sample_round_def chief_def sample_host_def)
  show ?thesis
    using round_reach.taking_part [OF 1, of "''cccccccc''" "StartFrom ''aaaaaaaa'' [1]"] sample_delivered(3)
    by (auto simp: sample_states_def Let_def sample_round_def chief_def sample_host_def)
qed

lemma sample_signers: "signers sample_round (sample_states ! 2) = sample_subset"
proof -
  have "readyPeers (lead (sample_states ! 2)) = readyPeers (lead (sample_states ! 1))"
    by (simp add: sample_states_def Let_def part_move_def)
  then have "readyPeers (lead (sample_states ! 2)) = [''aaaaaaaa'', ''cccccccc'']"
    unfolding sample_actions .
  then show ?thesis
    by (simp add: signers_def sample_subset_def holders_def readyParticipants_def quota_def
        sample_round_def sample_defs numeral_2_eq_2 del: readyParticipants_holders)
qed

theorem round_agreement_witness:
  "let E = sample_round; n = sample_states ! 2 in
   signing_unmarshallStartParams (n_json E) (n_lib E) [0] = Ok (signers E n)
    \<and> int (length (signers E n)) = Threshold (skey (process_of E (chief E))) + 1 \<and> distinct (signers E n)
    \<and> set (signers E n) \<subseteq> set (KeyPeers (skey (process_of E (chief E))))
    \<and> (\<forall>x \<in> set (signers E n). x = chief E \<or> (\<exists>b. delivered E n x (chief E) TssReadyMsg b))"
  unfolding Let_def
  by (rule round_agreement [OF sample_reach _ _ _ _ _ _ _ _ sample_actions(4)])
    (simp_all add: sample_signers, simp_all add: sample_round_def chief_def sample_host_def sample_signing_def)


end
