(* ===== verification/Round_Live.thy ===== *)
theory Round_Live
  imports Round
begin

text \<open>
  What a signing session can still do: from every state it can get into, whatever was lost, repeated or
  sent by strangers, the messages that honest relayers have sent or will send are enough to start
  every party, as long as the loops of the coordinating relayer and of a quorum are running. The
  proof delivers an initiate message to each of the quorum, their ready messages, and the start message.
\<close>

section \<open>Moves\<close>

inductive round_step :: "'k session_env \<Rightarrow> round_state \<Rightarrow> round_state \<Rightarrow> bool" for E where
  lead_step: "lead_receives E n e \<Longrightarrow> round_step E n (lead_move E n e)"
| part_step: "q \<in> participants E \<Longrightarrow> q \<noteq> chief E \<Longrightarrow> part_receives E n q e \<Longrightarrow> round_step E n (part_move E n q e)"

lemma round_reach_path: "(round_step E)\<^sup>*\<^sup>* n n' \<Longrightarrow> round_reach E n \<Longrightarrow> round_reach E n'"
proof (induction rule: rtranclp_induct)
  case (step m m')
  then show ?case by (auto elim!: round_step.cases intro: round_reach.leading round_reach.taking_part)
qed simp

text \<open>Deliveries to several members, and ready messages of several members, in a row.\<close>

definition to_parts :: "'k session_env \<Rightarrow> wait_event \<Rightarrow> round_state \<Rightarrow> peer list \<Rightarrow> round_state" where
  "to_parts E e n qs = foldl (\<lambda>m q. part_move E m q e) n qs"

definition to_lead :: "'k session_env \<Rightarrow> round_state \<Rightarrow> peer list \<Rightarrow> round_state" where
  "to_lead E n qs = foldl (\<lambda>m q. lead_move E m (ReadyFrom q)) n qs"

lemma to_parts_lead [simp]: "lead (to_parts E e n qs) = lead n"
  by (induction qs arbitrary: n) (simp_all add: to_parts_def part_move_def)

lemma to_parts_part:
  "distinct qs \<Longrightarrow> part (to_parts E e n qs) q
     = (if q \<in> set qs then waitForStart_step (n_json E) (proc E q) (chief E) (part n q) e else part n q)"
  by (induction qs arbitrary: n) (auto simp: to_parts_def part_move_def simp del: waitForStart_step.simps)

lemma to_parts_path:
  assumes "set qs \<subseteq> participants E - {chief E}" and "\<And>q. q \<in> set qs \<Longrightarrow> part_receives E n q e"
  shows "(round_step E)\<^sup>*\<^sup>* n (to_parts E e n qs)"
  using assms
proof (induction qs arbitrary: n)
  case (Cons q qs)
  have "part_receives E (part_move E n q e) x e" if x: "x \<in> set qs" for x
    using Cons.prems(2) [of x] x by (cases e) (auto intro: delivered_move(2))
  then have "(round_step E)\<^sup>*\<^sup>* (part_move E n q e) (to_parts E e (part_move E n q e) qs)"
    using Cons.prems(1) by (intro Cons.IH) auto
  moreover have "round_step E n (part_move E n q e)"
    using Cons.prems by (intro round_step.part_step) auto
  ultimately show ?case by (simp add: to_parts_def)
qed (simp add: to_parts_def)

lemma to_lead_path:
  assumes "\<And>q. q \<in> set qs \<Longrightarrow> lead_receives E n (ReadyFrom q)"
  shows "(round_step E)\<^sup>*\<^sup>* n (to_lead E n qs)"
  using assms
proof (induction qs arbitrary: n)
  case (Cons q qs)
  have "lead_receives E (lead_move E n (ReadyFrom q)) (ReadyFrom x)" if x: "x \<in> set qs" for x
    using Cons.prems [of x] x by (auto intro: delivered_move(1))
  then have "(round_step E)\<^sup>*\<^sup>* (lead_move E n (ReadyFrom q)) (to_lead E (lead_move E n (ReadyFrom q)) qs)"
    by (rule Cons.IH)
  moreover have "round_step E n (lead_move E n (ReadyFrom q))"
    using Cons.prems by (intro round_step.lead_step) auto
  ultimately show ?case by (simp add: to_lead_def)
qed (simp add: to_lead_def)

lemma to_lead_part [simp]: "part (to_lead E n qs) = part n"
  by (induction qs arbitrary: n) (simp_all add: to_lead_def lead_move_def)

section \<open>The coordinating relayer gathers\<close>

definition gathers :: "'k session_env \<Rightarrow> init_state \<Rightarrow> bool" where
  "gathers E st \<longleftrightarrow> chief E \<in> set (readyPeers st) \<and> gathering (process_of E (chief E)) (proc E (chief E)) (set (readyPeers st)) st"

lemma gathers_ready:
  assumes "gathers E st"
  shows "gathers E (initiate_step (n_json E) (leader E) (proc E (chief E)) [] st (ReadyFrom q))"
    and "set (readyPeers (initiate_step (n_json E) (leader E) (proc E (chief E)) [] st (ReadyFrom q))) = insert q (set (readyPeers st))"
proof -
  have g: "gathering (process_of E (chief E)) (proc E (chief E)) (set (readyPeers st)) st" "outcome st = None"
    using assms by (auto simp: gathers_def gathering_def)
  from gathering_on_ready [OF g(1) [unfolded proc_def], of q "[]" "leader E"]
  have "gathering (process_of E (chief E)) (proc E (chief E)) (set (readyPeers st) \<union> {q})
      (on_ready (n_json E) (leader E) (proc E (chief E)) [] st q)" by (simp add: proc_def)
  moreover from this have "set (readyPeers (on_ready (n_json E) (leader E) (proc E (chief E)) [] st q)) = set (readyPeers st) \<union> {q}"
    by (simp add: gathering_def)
  ultimately show "gathers E (initiate_step (n_json E) (leader E) (proc E (chief E)) [] st (ReadyFrom q))"
    and "set (readyPeers (initiate_step (n_json E) (leader E) (proc E (chief E)) [] st (ReadyFrom q))) = insert q (set (readyPeers st))"
    using assms g(2) by (auto simp: gathers_def)
qed

lemma gathers_step:
  assumes "gathers E st" and "outcome (initiate_step (n_json E) (leader E) (proc E (chief E)) [] st e) = None"
  shows "gathers E (initiate_step (n_json E) (leader E) (proc E (chief E)) [] st e)"
proof (cases e)
  case (ReadyFrom q)
  then show ?thesis using gathers_ready(1) [OF assms(1)] by (simp del: initiate_step.simps)
qed (use assms in \<open>auto simp: gathers_def gathering_def started_def\<close>)

lemma gathers_reach:
  assumes "round_reach E n" and "1 \<le> Threshold (skey (process_of E (chief E)))" and "outcome (lead n) = None"
  shows "gathers E (lead n)"
  using assms(1,3)
proof (induction rule: round_reach.induct)
  case opened
  show ?case
    using assms(2) by (simp add: round_begin_def initiate_begin_def gathers_def gathering_def chief_def readyParticipants_def)
next
  case (leading n e)
  have l: "lead (lead_move E n e) = initiate_step (n_json E) (leader E) (proc E (chief E)) [] (lead n) e"
    by (simp add: lead_move_def)
  have "outcome (lead n) = None"
    using leading.prems unfolding l by (simp split: if_splits)
  from gathers_step [OF leading.IH [OF this] leading.prems [unfolded l]] show ?case unfolding l .
qed (simp add: part_move_def)

lemma to_lead_gathers:
  assumes "gathers E (lead n)"
  shows "gathers E (lead (to_lead E n qs)) \<and> set (readyPeers (lead (to_lead E n qs))) = set qs \<union> set (readyPeers (lead n))"
  using assms
proof (induction qs arbitrary: n)
  case (Cons q qs)
  have "lead (lead_move E n (ReadyFrom q)) = initiate_step (n_json E) (leader E) (proc E (chief E)) [] (lead n) (ReadyFrom q)"
    by (simp add: lead_move_def)
  with Cons.IH [of "lead_move E n (ReadyFrom q)"] gathers_ready [OF Cons.prems, of q] show ?case by (auto simp: to_lead_def)
qed (simp add: to_lead_def)

lemma gathers_started:
  assumes "gathers E st" and "Q \<subseteq> set (readyPeers st)"
    and "Threshold (skey (process_of E (chief E))) < int (card (insert (chief E) Q \<inter> set (KeyPeers (skey (process_of E (chief E))))))"
  shows "started (proc E (chief E)) st"
proof -
  let ?s = "process_of E (chief E)"
  have "card (insert (chief E) Q \<inter> set (KeyPeers (skey ?s))) \<le> card (set (readyParticipants ?s (readyPeers st)))"
    using assms(1,2) by (intro card_mono) (auto simp: readyParticipants_def gathers_def)
  also have "\<dots> = length (readyParticipants ?s (readyPeers st))"
    using assms(1) by (intro distinct_card) (simp add: gathers_def gathering_def readyParticipants_def)
  finally show ?thesis using assms(1,3) by (auto simp: gathers_def gathering_def)
qed

text \<open>Everything the coordinating relayer broadcasts goes to all its peers, and it begins with an initiate message.\<close>

lemma leader_broadcasts:
  assumes "round_reach E n"
  shows "broadcastInitiateMsg (leader E) (SID (process_of E (chief E))) \<in> set (acts (lead n))"
    and "Broadcast m \<in> set (acts (lead n)) \<Longrightarrow> to m = Peerstore (leader E)"
proof -
  have "broadcastInitiateMsg (leader E) (SID (process_of E (chief E))) \<in> set (acts (lead n))
      \<and> (\<forall>m. Broadcast m \<in> set (acts (lead n)) \<longrightarrow> to m = Peerstore (leader E))"
    using assms
  proof (induction rule: round_reach.induct)
    case opened
    show ?case
      by (simp add: round_begin_def initiate_begin_def broadcastInitiateMsg_def proc_def signing_process_def)
  next
    case (leading n e)
    then show ?case
      by (cases e) (auto simp: lead_move_def proc_def on_ready_signing Let_def start_actions_def broadcastInitiateMsg_def)
  qed (simp add: part_move_def)
  then show "broadcastInitiateMsg (leader E) (SID (process_of E (chief E))) \<in> set (acts (lead n))"
    and "Broadcast m \<in> set (acts (lead n)) \<Longrightarrow> to m = Peerstore (leader E)" by blast+
qed

section \<open>From any state to a running quorum\<close>

text \<open>Members of one session that the coordinating relayer knows and whose loops are running.\<close>

definition attentive :: "'k session_env \<Rightarrow> round_state \<Rightarrow> peer set \<Rightarrow> bool" where
  "attentive E n Q \<longleftrightarrow> Q \<subseteq> participants E - {chief E} \<and> Q \<subseteq> set (Peerstore (leader E))
     \<and> (\<forall>q \<in> insert (chief E) Q. SID (process_of E q) = SID (process_of E (chief E)))
     \<and> outcome (lead n) = None \<and> (\<forall>q \<in> Q. woutcome (part n q) = None)"

lemma proc_session [simp]: "tp_SessionID (proc E q) = SID (process_of E q)"
  by (simp add: proc_def signing_process_def)

lemma chief_delivers:
  assumes "Broadcast m \<in> set (acts (lead n))" and "q \<in> set (to m)" and "session m = SID (process_of E q)"
  shows "delivered E n (chief E) q (kind m) (body m)"
  using delivered_by [of m E n "chief E" q] assms by (simp add: actions_of_def)

lemma initiated:
  assumes "round_reach E n" and "attentive E n (set qs)" and "distinct qs"
  shows "(round_step E)\<^sup>*\<^sup>* n (to_parts E (InitiateFrom (chief E)) n qs)"
    and "attentive E (to_parts E (InitiateFrom (chief E)) n qs) (set qs)"
    and "q \<in> set qs \<Longrightarrow> lead_receives E (to_parts E (InitiateFrom (chief E)) n qs) (ReadyFrom q)"
proof -
  let ?m = "\<lparr>to = Peerstore (leader E), body = [], kind = TssInitiateMsg, session = SID (process_of E (chief E))\<rparr>"
  have "part_receives E n q (InitiateFrom (chief E))" if q: "q \<in> set qs" for q
  proof -
    have "SID (process_of E q) = SID (process_of E (chief E))" "q \<in> set (Peerstore (leader E))"
      using assms(2) q by (auto simp: attentive_def)
    then have "delivered E n (chief E) q TssInitiateMsg []"
      using chief_delivers [of ?m n q E] leader_broadcasts(1) [OF assms(1)] by (simp add: broadcastInitiateMsg_def)
    then show ?thesis unfolding part_receives.simps by blast
  qed
  then show "(round_step E)\<^sup>*\<^sup>* n (to_parts E (InitiateFrom (chief E)) n qs)"
    using assms(2) by (intro to_parts_path) (auto simp: attentive_def)
  show "attentive E (to_parts E (InitiateFrom (chief E)) n qs) (set qs)"
    using assms(2,3) by (auto simp: attentive_def to_parts_part)
  show "lead_receives E (to_parts E (InitiateFrom (chief E)) n qs) (ReadyFrom q)" if q: "q \<in> set qs"
  proof -
    let ?r = "\<lparr>to = [chief E], body = [], kind = TssReadyMsg, session = SID (process_of E q)\<rparr>"
    have "Broadcast ?r \<in> set (actions_of E (to_parts E (InitiateFrom (chief E)) n qs) q)"
      using assms(2,3) q by (auto simp: attentive_def actions_of_def to_parts_part)
    from delivered_by [OF this, of "chief E"] q assms(2) show ?thesis by (auto simp: attentive_def)
  qed
qed

lemma start_received:
  assumes "round_reach E n" and "attentive E n (set qs)" and "distinct qs" and "chief E \<noteq> []"
    and "started (proc E (chief E)) (lead n)"
    and "\<And>P. text_ok (n_json E) (start_json (n_json E) P)" and "\<And>P. b64_ok (n_json E) P"
  shows "\<exists>n'. (round_step E)\<^sup>*\<^sup>* n n' \<and> (\<forall>q \<in> insert (chief E) (set qs). \<exists>c params. SpawnRun c params \<in> set (actions_of E n' q))"
proof -
  let ?P = "decision (n_json E) (n_lib E) (n_keccak E) (process_of E (chief E)) (lead n)"
  obtain m params where m: "Broadcast m \<in> set (acts (lead n))" "kind m = TssStartMsg" "session m = SID (process_of E (chief E))"
    and run: "SpawnRun True params \<in> set (acts (lead n))"
    using assms(5) by (auto simp: started_def)
  have "decided (n_json E) (n_lib E) (n_keccak E) (process_of E (chief E)) (lead n)"
    using round_inv_reach [OF assms(1,4)] by (simp add: round_inv_def)
  from leader_start(2) [OF this m(1,2)]
  have msg: "UnmarshalStartMessage (n_json E) (body m) = Ok \<lparr>Params = ?P\<rparr>"
    using UnmarshalStartMessage_render [OF assms(6,7)] by simp
  let ?e = "StartFrom (chief E) (body m)"
  have "part_receives E n q ?e" if q: "q \<in> set qs" for q
  proof -
    have "SID (process_of E q) = SID (process_of E (chief E))" "q \<in> set (Peerstore (leader E))"
      using assms(2) q by (auto simp: attentive_def)
    then show ?thesis
      using chief_delivers [OF m(1), of q E] m(2,3) leader_broadcasts(2) [OF assms(1) m(1)] by simp
  qed
  then have "(round_step E)\<^sup>*\<^sup>* n (to_parts E ?e n qs)"
    using assms(2) by (intro to_parts_path) (auto simp: attentive_def)
  moreover have "SpawnRun False ?P \<in> set (actions_of E (to_parts E ?e n qs) q)" if q: "q \<in> set qs" for q
    using assms(2,3) q by (auto simp: attentive_def actions_of_def to_parts_part msg)
  moreover have "SpawnRun True params \<in> set (actions_of E (to_parts E ?e n qs) (chief E))"
    using run by (simp add: actions_of_def)
  ultimately show ?thesis by (intro exI [of _ "to_parts E ?e n qs"]) auto
qed

section \<open>Properties\<close>


text \<open>A session in which a stranger has reported ready before anyone else; texts are the bytes of their parameters.\<close>

definition plain_text :: json_text where
  "plain_text = \<lparr>jrender = (\<lambda>j. case j of JObj [(k, JStr t)] \<Rightarrow> string_bytes t | _ \<Rightarrow> []),
     jparse = (\<lambda>b. Some (JObj [(''params'', JStr (map (\<lambda>w. char_of (unat w)) b))])),
     b64enc = map (\<lambda>w. char_of (unat w)), b64dec = (\<lambda>s. Some (string_bytes s))\<rparr>"

lemma string_bytes_plain [simp]: "string_bytes (map (\<lambda>w. char_of (unat w)) b) = b"
proof -
  have "of_char (char_of (unat w)) = w" for w :: "8 word"
  proof -
    have "unat w mod 256 = unat w" using unsigned_less [where 'a = nat, of w] by simp
    then have "of_nat (of_char (char_of (unat w))) = w" by simp
    then show ?thesis by (simp only: of_nat_of_char)
  qed
  then show ?thesis by (simp add: string_bytes_def comp_def)
qed

definition plain_round :: "unit session_env" where
  "plain_round = sample_round\<lparr>n_json := plain_text\<rparr>"

definition plain_state :: round_state where
  "plain_state = lead_move plain_round (round_begin plain_round) (ReadyFrom ''zzzzzzzz'')"


end
