(* ===== verification/Round_Spec.thy ===== *)
theory Round_Spec
  imports Round_Live
begin

text \<open>
  What a signing session promises, as a machine of its own: a list of signers is chosen once, and a
  member that runs its party runs it with that list. The session of \<open>Round\<close>, with all its loops and
  messages, refines this machine: every step of it is a step of the machine or changes nothing there.
\<close>

section \<open>The agreement machine\<close>

text \<open>The list that was chosen, and who runs with which list.\<close>

type_synonym agreement = "peer list option \<times> (peer \<times> peer list) set"

text \<open>\<open>valid\<close> says which lists may be chosen, \<open>c\<close> is who chooses, and \<open>M\<close> who may run.\<close>

inductive agree_step :: "(peer list \<Rightarrow> bool) \<Rightarrow> peer \<Rightarrow> peer set \<Rightarrow> agreement \<Rightarrow> agreement \<Rightarrow> bool" for valid c M where
  choose: "valid S \<Longrightarrow> agree_step valid c M (None, {}) (Some S, {(c, S)})"
| run: "q \<in> M \<Longrightarrow> agree_step valid c M (Some S, R) (Some S, insert (q, S) R)"
| idle: "agree_step valid c M a a"

inductive_cases agree_stepE: "agree_step valid c M a b"

text \<open>Whatever the machine does, those who run agree, on a list that was allowed to be chosen.\<close>

lemma agreement_kept:
  assumes "(agree_step valid c M)\<^sup>*\<^sup>* (None, {}) a" and "(q, ps) \<in> snd a"
  shows "fst a = Some ps \<and> valid ps"
proof -
  have "(\<forall>S. fst a = Some S \<longrightarrow> valid S) \<and> (\<forall>q ps. (q, ps) \<in> snd a \<longrightarrow> fst a = Some ps)"
    using assms(1) by (induction rule: rtranclp_induct) (auto elim!: agree_stepE)
  with assms(2) show ?thesis by blast
qed

section \<open>The abstraction\<close>

definition chosen :: "'k session_env \<Rightarrow> round_state \<Rightarrow> bool" where
  "chosen E n \<longleftrightarrow> quota (process_of E (chief E)) \<le> length (holders (process_of E (chief E)) (lead n))"

definition running_with :: "'k session_env \<Rightarrow> round_state \<Rightarrow> (peer \<times> peer list) set" where
  "running_with E n = {(q, ps). q \<in> participants E \<and> (\<exists>c params. SpawnRun c params \<in> set (actions_of E n q)
     \<and> signing_unmarshallStartParams (n_json E) (n_lib E) params = Ok ps)}"

definition agreement_of :: "'k session_env \<Rightarrow> round_state \<Rightarrow> agreement" where
  "agreement_of E n = (if chosen E n then Some (signers E n) else None, running_with E n)"

definition quorum :: "'k session_env \<Rightarrow> peer list \<Rightarrow> bool" where
  "quorum E ps \<longleftrightarrow> int (length ps) = Threshold (skey (process_of E (chief E))) + 1 \<and> distinct ps
     \<and> set ps \<subseteq> set (KeyPeers (skey (process_of E (chief E))))"

text \<open>The texts of the start message of a state can be read back.\<close>

definition readable :: "'k session_env \<Rightarrow> round_state \<Rightarrow> bool" where
  "readable E n \<longleftrightarrow> text_ok (n_json E) (peers_json (n_lib E) (signers E n)) \<and> ids_ok (n_lib E) (signers E n)
     \<and> text_ok (n_json E) (start_json (n_json E) (jrender (n_json E) (peers_json (n_lib E) (signers E n))))
     \<and> b64_ok (n_json E) (jrender (n_json E) (peers_json (n_lib E) (signers E n)))"

section \<open>Lemmas\<close>

definition runs :: "'k session_env \<Rightarrow> round_state \<Rightarrow> peer set" where
  "runs E n = {q \<in> participants E. \<exists>c params. SpawnRun c params \<in> set (actions_of E n q)}"

lemma running_chosen:
  assumes "round_reach E n" and "chief E \<noteq> []" and "chief E \<in> participants E" and "q \<in> runs E n"
  shows "chosen E n"
proof -
  obtain c params where q: "q \<in> participants E" "SpawnRun c params \<in> set (actions_of E n q)"
    using assms(4) by (auto simp: runs_def)
  have inv: "round_inv E n" by (rule round_inv_reach [OF assms(1,2)])
  then have d: "decided (n_json E) (n_lib E) (n_keccak E) (process_of E (chief E)) (lead n)"
    by (simp add: round_inv_def)
  show ?thesis
  proof (cases "q = chief E")
    case True
    then show ?thesis using leader_run(1) [OF d] q(2) by (simp add: actions_of_def chosen_def)
  next
    case False
    then have "told_to_run E n q params" using inv q by (auto simp: round_inv_def actions_of_def)
    then obtain m where "Broadcast m \<in> set (acts (lead n))" "kind m = TssStartMsg"
      using assms(3) by (auto simp: told_to_run_def delivered_def actions_of_def)
    then show ?thesis using leader_start(1) [OF d] by (simp add: chosen_def)
  qed
qed

lemma running_with_runs:
  assumes "round_reach E n" and "chief E \<noteq> []" and "chief E \<in> participants E" and "readable E n"
  shows "running_with E n = (\<lambda>q. (q, signers E n)) ` runs E n"
proof -
  have dec: "signing_unmarshallStartParams (n_json E) (n_lib E) params = Ok (signers E n)"
    if "q \<in> participants E" "SpawnRun c params \<in> set (actions_of E n q)" for q c params
    using round_run_params(2) [OF assms(1-3) _ _ that] assms(4)
      signing_unmarshallStartParams_render [of "n_json E" "n_lib E" "signers E n"] by (simp add: readable_def)
  have "(q, ps) \<in> running_with E n \<longleftrightarrow> q \<in> runs E n \<and> ps = signers E n" for q ps
  proof
    assume "(q, ps) \<in> running_with E n"
    then obtain c params where run: "q \<in> participants E" "SpawnRun c params \<in> set (actions_of E n q)"
      and "signing_unmarshallStartParams (n_json E) (n_lib E) params = Ok ps" by (auto simp: running_with_def)
    then show "q \<in> runs E n \<and> ps = signers E n" using dec [OF run] by (auto simp: runs_def)
  next
    assume q: "q \<in> runs E n \<and> ps = signers E n"
    then obtain c params where run: "q \<in> participants E" "SpawnRun c params \<in> set (actions_of E n q)" by (auto simp: runs_def)
    from dec [OF run] run q show "(q, ps) \<in> running_with E n" unfolding running_with_def by blast
  qed
  then show ?thesis by (auto simp del: split_paired_All)
qed

lemma undecided_agreement:
  assumes "round_reach E n" and "chief E \<noteq> []" and "chief E \<in> participants E" and "\<not> chosen E n"
  shows "agreement_of E n = (None, {})"
proof -
  have "runs E n = {}" using running_chosen [OF assms(1-3)] assms(4) by blast
  with assms(4) show ?thesis by (fastforce simp: agreement_of_def running_with_def runs_def)
qed

lemma signers_kept:
  assumes "chosen E n" and "holders (process_of E (chief E)) (lead n') = holders (process_of E (chief E)) (lead n) @ ys"
  shows "signers E n' = signers E n" and "chosen E n'"
  using assms by (simp_all add: chosen_def signers_def)

lemma step_holders:
  assumes "round_step E n n'"
  shows "\<exists>ys. holders s (lead n') = holders s (lead n) @ ys"
  using assms
proof cases
  case (lead_step e)
  then show ?thesis
    using readyPeers_step [of "n_json E" "leader E" "proc E (chief E)" "[]" "lead n" e] holders_joined [of s "[]" "readyPeers (lead n)"]
    by (auto simp: holders_def lead_move_def simp del: initiate_step.simps)
next
  case (part_step q e)
  then show ?thesis by (simp add: part_move_def)
qed

text \<open>One relayer moves, and what the others have done is as before.\<close>

lemma step_runs:
  assumes "round_step E n n'"
  shows "\<exists>x. runs E n' = runs E n \<or> (x \<in> participants E \<and> runs E n' = insert x (runs E n))"
proof -
  obtain x where x: "\<forall>y. y \<noteq> x \<longrightarrow> actions_of E n' y = actions_of E n y"
    using assms
  proof cases
    case (lead_step e)
    then have "\<forall>y. y \<noteq> chief E \<longrightarrow> actions_of E n' y = actions_of E n y"
      by (simp add: lead_move_def actions_of_def del: initiate_step.simps)
    then show thesis by (rule that)
  next
    case (part_step q e)
    then have "\<forall>y. y \<noteq> q \<longrightarrow> actions_of E n' y = actions_of E n y"
      by (simp add: part_move_def actions_of_def del: waitForStart_step.simps)
    then show thesis by (rule that)
  qed
  have "set (actions_of E n x) \<subseteq> set (actions_of E n' x)"
    using assms actions_move by cases blast+
  then have mono: "set (actions_of E n y) \<subseteq> set (actions_of E n' y)" for y using x by (cases "y = x") auto
  then have "runs E n \<subseteq> runs E n'" unfolding runs_def by blast
  moreover have "runs E n' \<subseteq> insert x (runs E n)"
  proof
    fix y assume "y \<in> runs E n'"
    with x show "y \<in> insert x (runs E n)" by (cases "y = x") (auto simp: runs_def)
  qed
  moreover have "x \<in> runs E n' \<Longrightarrow> x \<in> participants E" by (simp add: runs_def)
  ultimately show ?thesis by blast
qed

lemma first_choice:
  assumes "round_reach E n" and "1 \<le> Threshold (skey (process_of E (chief E)))"
    and "round_step E n n'" and "\<not> chosen E n" and "chosen E n'"
  shows "started (proc E (chief E)) (lead n')" and "part n' = part n"
proof -
  let ?s = "process_of E (chief E)"
  have neq: "readyPeers (lead n') \<noteq> readyPeers (lead n)"
    using assms(4,5) by (auto simp: chosen_def holders_def)
  obtain e where e: "n' = lead_move E n e"
    using assms(3) neq by cases (auto simp: part_move_def)
  have l: "lead n' = initiate_step (n_json E) (leader E) (proc E (chief E)) [] (lead n) e" by (simp add: e lead_move_def)
  have none: "outcome (lead n) = None" using neq unfolding l by (auto split: if_splits)
  obtain q where q: "e = ReadyFrom q"
    using neq readyPeers_step [of "n_json E" "leader E" "proc E (chief E)" "[]" "lead n" e] unfolding l by auto
  have "gathers E (lead n')"
    unfolding l q by (rule gathers_ready(1) [OF gathers_reach [OF assms(1,2) none]])
  moreover have "Threshold (skey ?s) < int (length (readyParticipants ?s (readyPeers (lead n'))))"
    using assms(5) by (simp add: chosen_def holders_def quota_def)
  ultimately show "started (proc E (chief E)) (lead n')" by (auto simp: gathers_def gathering_def)
  show "part n' = part n" by (simp add: e lead_move_def)
qed

lemma chosen_quorum:
  assumes "round_reach E n" and "chief E \<noteq> []" and "0 \<le> Threshold (skey (process_of E (chief E)))" and "chosen E n"
  shows "quorum E (signers E n)"
  using signers_facts(1-3) [OF round_inv_reach [OF assms(1,2)] assms(3)] assms(4) by (simp add: chosen_def quorum_def)

section \<open>Properties\<close>

text \<open>C6: a signing session refines the agreement machine: it begins in the machine's initial state, and
  whatever a relayer of the session receives, its step is one of the machine's. The list of
  signers is chosen once, by the coordinating relayer as it starts its own party, and is a quorum
  of holders of a key share; from then on a member may start to run, with that list; and no
  message, tick, failure or end of any loop does anything else.\<close>

theorem round_refines_agreement:
  assumes "round_reach E n" and "round_step E n n'" and "chief E \<noteq> []" and "chief E \<in> participants E"
    and "1 \<le> Threshold (skey (process_of E (chief E)))" and "readable E n'"
  shows "agreement_of E (round_begin E) = (None, {})
    \<and> agree_step (quorum E) (chief E) (participants E) (agreement_of E n) (agreement_of E n')"
proof
  have quota: "\<not> quota (process_of E (chief E)) \<le> Suc 0"
    using assms(5) unfolding quota_def by arith
  have "\<not> chosen E (round_begin E)"
    using quota by (simp add: chosen_def round_begin_def initiate_begin_def holders_def readyParticipants_def)
  from undecided_agreement [OF round_reach.opened assms(3,4) this] show "agreement_of E (round_begin E) = (None, {})" .
next
  have r': "round_reach E n'" by (rule round_reach_path [OF r_into_rtranclp [of "round_step E"], OF assms(2,1)])
  obtain ys where ys: "holders (process_of E (chief E)) (lead n') = holders (process_of E (chief E)) (lead n) @ ys"
    using step_holders [OF assms(2)] by blast
  note run' = running_with_runs [OF r' assms(3,4,6)]
  show "agree_step (quorum E) (chief E) (participants E) (agreement_of E n) (agreement_of E n')"
  proof (cases "chosen E n")
    case True
    note same = signers_kept [OF True ys]
    have "readable E n" using assms(6) by (simp add: readable_def same(1))
    note run = running_with_runs [OF assms(1,3,4) this]
    obtain x where "runs E n' = runs E n \<or> (x \<in> participants E \<and> runs E n' = insert x (runs E n))"
      using step_runs [OF assms(2)] by blast
    then show ?thesis
      by (auto simp: agreement_of_def True same run run' intro: agree_step.intros)
  next
    case False
    note n = undecided_agreement [OF assms(1,3,4) False]
    show ?thesis
    proof (cases "chosen E n'")
      case True
      note first = first_choice [OF assms(1,5,2) False True]
      have "runs E n = {}" using running_chosen [OF assms(1,3,4)] False by blast
      then have "runs E n' = {chief E}"
        using first assms(4) by (auto simp: runs_def actions_of_def started_def split: if_splits)
      then have "agreement_of E n' = (Some (signers E n'), {(chief E, signers E n')})"
        by (simp add: agreement_of_def True run')
      moreover have "quorum E (signers E n')"
        using chosen_quorum [OF r' assms(3) _ True] assms(5) by simp
      ultimately show ?thesis by (simp add: n agree_step.choose)
    next
      case False
      then show ?thesis by (simp add: n undecided_agreement [OF r' assms(3,4)] agree_step.idle)
    qed
  qed
qed

text \<open>The step in which the signers of the sample session are chosen.\<close>

theorem round_refines_agreement_witness:
  "agreement_of sample_round (round_begin sample_round) = (None, {})
   \<and> agree_step (quorum sample_round) (chief sample_round) (participants sample_round)
       (agreement_of sample_round (sample_states ! 0)) (agreement_of sample_round (sample_states ! 1))
   \<and> fst (agreement_of sample_round (sample_states ! 1)) = Some sample_subset"
proof -
  have E: "chief sample_round = ''aaaaaaaa''" "process_of sample_round = (\<lambda>_. sample_signing)"
    "participants sample_round = {''aaaaaaaa'', ''cccccccc''}" "n_json sample_round = sample_text" "n_lib sample_round = raw_ids"
    by (simp_all add: sample_round_def chief_def sample_host_def)
  have reach: "round_reach sample_round (sample_states ! 0)"
    using round_reach.taking_part [OF round_reach.opened [of sample_round], of "''cccccccc''" "InitiateFrom ''aaaaaaaa''"]
      sample_delivered(1) by (auto simp: sample_states_def Let_def E)
  have "round_step sample_round (sample_states ! 0) (lead_move sample_round (sample_states ! 0) (ReadyFrom ''cccccccc''))"
    using sample_delivered(2) by (intro round_step.lead_step) (auto simp: E)
  then have step: "round_step sample_round (sample_states ! 0) (sample_states ! 1)"
    by (simp add: sample_states_def Let_def)
  have "lead (sample_states ! 2) = lead (sample_states ! 1)"
    by (simp add: sample_states_def Let_def part_move_def)
  then have signers: "signers sample_round (sample_states ! 1) = sample_subset"
    using sample_signers by (simp add: signers_def)
  have "readable sample_round (sample_states ! 1)"
    unfolding readable_def signers by (simp add: E)
  from round_refines_agreement [OF reach step _ _ _ this]
  have "agreement_of sample_round (round_begin sample_round) = (None, {})"
    "agree_step (quorum sample_round) (chief sample_round) (participants sample_round)
       (agreement_of sample_round (sample_states ! 0)) (agreement_of sample_round (sample_states ! 1))"
    by (simp_all add: E sample_signing_def)
  moreover have "chosen sample_round (sample_states ! 1)"
    unfolding chosen_def holders_def sample_actions(2) by (simp add: readyParticipants_def quota_def E sample_defs)
  then have "fst (agreement_of sample_round (sample_states ! 1)) = Some sample_subset"
    unfolding agreement_of_def signers by simp
  ultimately show ?thesis by blast
qed

end
