(* ===== verification/Served.thy ===== *)
theory Served
  imports Sessions
begin

text \<open>
  From a request to the signature the API serves for it: the handlers hand a signing process to the
  tss layer, the process runs, its signature goes to the relayer's own cache or, from a relayer that
  does not coordinate, to the caches of the others, and the status stream reads the cache.
\<close>

section \<open>Where signatures come from\<close>

text \<open>A process that a handler made for a request, after its \<open>Run\<close>. The process does not hold the local party
  itself, so its type is left at \<open>unit\<close>.\<close>

definition runs_for :: "'k env \<Rightarrow> 'g chain_handlers \<Rightarrow> request \<Rightarrow> 'k signing \<Rightarrow> bool" where
  "runs_for V hs r p \<longleftrightarrow>
     (\<exists>s c T (R :: ('k, unit) sign_lib) now wait isCoordinator params. (s, c) \<in> set (execs (fst (handle V hs r)))
        \<and> p = fst (signing_Run (eJ V) (eL V) T R (eHost V) now wait isCoordinator params s))"

text \<open>
  What the cache of a relayer receives when all relayers run this program: results of the relayer's own
  processes and the signatures others distribute. \<open>emits p sig\<close> is that the local party of \<open>p\<close>, which
  is tss-lib's, may end with \<open>sig\<close>. A distributed signature was encoded so that it can be read back.
\<close>

inductive honest ::
  "(bytes \<Rightarrow> nat \<Rightarrow> bytes) \<Rightarrow> json_text \<Rightarrow> ('k signing \<Rightarrow> signature_data \<Rightarrow> bool) \<Rightarrow> ('k env \<times> 'g chain_handlers) set
   \<Rightarrow> cache_event \<Rightarrow> bool" for pad J emits relayers where
  own: "(V, hs) \<in> relayers \<Longrightarrow> runs_for V hs r p \<Longrightarrow> signing_processEndMessage pad J (eHost V) p evs = Some (Ok (Some sig, sends))
    \<Longrightarrow> (\<And>d. EndSig d \<in> set evs \<Longrightarrow> emits p d) \<Longrightarrow> honest pad J emits relayers (LocalResult (Some sig))"
| distributed: "(V, hs) \<in> relayers \<Longrightarrow> runs_for V hs r p \<Longrightarrow> signing_processEndMessage pad J (eHost V) p evs = Some (Ok (out, sends))
    \<Longrightarrow> (\<And>d. EndSig d \<in> set evs \<Longrightarrow> emits p d) \<Longrightarrow> m \<in> set sends \<Longrightarrow> Payload w = body m
    \<Longrightarrow> (\<And>b. text_ok J (signature_json J (SID p) b) \<and> b64_ok J b) \<Longrightarrow> honest pad J emits relayers (SigMessage w)"
| time_passes: "honest pad J emits relayers (Elapsed n)"
| stopped: "honest pad J emits relayers CacheCtxDone"

section \<open>Lemmas\<close>

lemma signing_Run_keeps:
  "SID (fst (signing_Run J L T R h now wait c params s)) = SID s"
  "smsg (fst (signing_Run J L T R h now wait c params s)) = smsg s"
  by (simp_all add: signing_Run_def Let_def PopulatePartyStore_def split: res.splits)

lemma runs_for_request:
  assumes "runs_for V hs r p"
  shows "SID p = chain_session (request_chain hs r) (request_id r)"
    and "\<exists>u. smsg p = be_nat u \<and> typed_for (eE V) (verifier_of r) (fst (domain_of r)) (snd (domain_of r)) u"
  using assms exec_session exec_typed by (fastforce simp: runs_for_def signing_Run_keeps)+

text \<open>The signature a process ends with, and the messages it distributes it in.\<close>

lemma processEndMessage_result:
  assumes "signing_processEndMessage pad J h p evs = Some (Ok (out, sends))"
  shows "(out = None \<and> sends = []) \<or> (\<exists>d b. EndSig d \<in> set evs \<and> encode_signature pad d = Ok b
    \<and> out = Some \<lparr>es_Signature = b, es_ID = SID p\<rparr> \<and> sends = distributeSignature J h p b)"
proof (cases evs)
  case (Cons e es)
  with assms show ?thesis by (cases e) (auto simp: res_simps)
qed (use assms in simp)

lemma honest_brings:
  assumes "honest pad J emits relayers e" and "brings J e = Some (sid, v)"
  shows "\<exists>V hs r p d. (V, hs) \<in> relayers \<and> runs_for V hs r p \<and> emits p d \<and> encode_signature pad d = Ok v \<and> sid = SID p"
  using assms
proof cases
  case (own V hs r p evs sig sends)
  with assms(2) have "sig = \<lparr>es_Signature = v, es_ID = sid\<rparr>" by (cases sig) simp
  with processEndMessage_result [OF own(4)] obtain d where "EndSig d \<in> set evs" "encode_signature pad d = Ok v" "sid = SID p"
    by auto
  with own(2,3,5) show ?thesis by blast
next
  case (distributed V hs r p evs out sends m w)
  then obtain d b where d: "EndSig d \<in> set evs" "encode_signature pad d = Ok b" "sends = distributeSignature J (eHost V) p b"
    using processEndMessage_result [OF distributed(4)] by auto
  then have "Payload w = jrender J (signature_json J (SID p) b)"
    using distributed(6,7) by (auto simp: distributeSignature_def MarshalSignatureMessage_def split: if_splits)
  with distributed(1,8) assms(2) have "v = b" "sid = SID p"
    by (simp_all add: UnmarshalSignatureMessage_render)
  with d distributed(2,3,5) show ?thesis by blast
qed (use assms(2) in simp_all)

section \<open>Properties\<close>

text \<open>C4: a signature the API serves is one for the request it is asked about: as long as every relayer runs
  this program, whatever the status stream for a chain and an identifier sends was computed by the
  local party of a signing process, of this relayer or of another, that a handler made for a request
  of that chain and identifier, and the message of that process is the digest of typed data for
  the contract the request names. What is sent is its R, S and V in hexadecimal.\<close>

theorem served_signature_backed:
  assumes "cache_ok view C" and "cache_Watch J C (NewSignatureCache C) es = Ok s"
    and "\<And>e. e \<in> set es \<Longrightarrow> honest pad J emits relayers e"
    and "vars ''chainId'' = Some (show_nat (unat (c :: uint64)))" and "vars ''depositId'' = Some i"
    and "rep = HandleStatus A chns vars (\<lambda>sid. case snd (cache_Signature C s sid) of Ok v \<Rightarrow> Some v | _ \<Rightarrow> None)"
    and "rep_status rep = 200" and "rep_body rep \<noteq> []"
  shows "\<exists>v V hs r p d u. rep_body rep = string_bytes (''data: '' @ hex_encode v @ [CHR 0x0A, CHR 0x0A])
    \<and> (V, hs) \<in> relayers \<and> runs_for V hs r p \<and> request_chain hs r = c \<and> request_id r = i
    \<and> emits p d \<and> encode_signature pad d = Ok v
    \<and> smsg p = be_nat u \<and> typed_for (eE V) (verifier_of r) (fst (domain_of r)) (snd (domain_of r)) u"
proof -
  have sub: "status_subscription chns vars = (if c \<in> chns then Inr (chain_session c i)
      else Inl (404, Errorf (''chain '' @ show_int (sint (word_of_int (int (unat c)) :: 64 word)) @ '' not supported'')))"
    using assms(4,5) by (simp add: status_subscription_def var_text_def set_string0_show_nat chain_session_def show_int_nonneg big_uint64_def)
  have c: "c \<in> chns"
    using assms(6,7) sub by (auto simp: HandleStatus_def JSONError_def split: if_splits)
  then obtain v where v: "snd (cache_Signature C s (chain_session c i)) = Ok v"
    "rep_body rep = string_bytes (''data: '' @ hex_encode v @ [CHR 0x0A, CHR 0x0A])"
    using assms(6,8) sub by (auto simp: HandleStatus_def split: res.splits)
  obtain e where "e \<in> set es" "brings J e = Some (chain_session c i, v)"
    using signature_cache_sound [OF assms(1,2) v(1)] by blast
  then obtain V hs r p d where p: "(V, hs) \<in> relayers" "runs_for V hs r p" "emits p d" "encode_signature pad d = Ok v"
    "chain_session c i = SID p"
    using honest_brings [OF assms(3)] by blast
  with runs_for_request [OF p(2)] v(2) show ?thesis by (metis chain_session_inj)
qed

text \<open>A relayer serves the signature of its own process for the unlocking of an order.\<close>

definition sample_sig :: signature_data where
  "sample_sig = \<lparr>sigR = [1], sigS = [2], SignatureRecovery = [0]\<rparr>"

definition sample_vars :: path_vars where
  "sample_vars = [''chainId'' \<mapsto> show_nat (unat (1 :: uint64)), ''depositId'' \<mapsto> ''x'']"

definition sample_cached :: "(string \<rightharpoonup> bytes) sig_cache" where
  "sample_cached = \<lparr>sigCache = [chain_session 1 ''x'' \<mapsto> [1, 2, 27]], ended = [chain_session 1 ''x''], watching_sigs = True\<rparr>"

lemma sample_result:
  "signing_processEndMessage (\<lambda>b n. b) J h p [EndSig sample_sig]
   = Some (Ok (Some \<lparr>es_Signature = [1, 2, 27], es_ID = SID p\<rparr>, distributeSignature J h p [1, 2, 27]))"
  by (simp add: sample_sig_def encode_signature_def Let_def)

lemma sample_runs: "\<exists>p. runs_for relay_env sample_handlers (ReqUnlock (NewLifiUnlockMessage 0 1 sample_unlock)) p"
proof -
  have h: "relay_env\<lparr>eHost := sample_host\<rparr> = relay_env" by (simp add: relay_env_def sample_env_def)
  obtain s where s: "(s, host_ID sample_host)
      \<in> set (execs (fst (handle relay_env sample_handlers (ReqUnlock (NewLifiUnlockMessage 0 1 sample_unlock)))))"
    using relay_unlocks [of sample_unlock sample_host] unfolding h by (auto simp: sample_unlock_def)
  define p where "p = fst (signing_Run (eJ relay_env) (eL relay_env) sample_tss (undefined :: (int, unit) sign_lib) (eHost relay_env) 0 (Ok ()) True [] s)"
  show ?thesis
    unfolding runs_for_def p_def using s by blast
qed

theorem served_signature_backed_witness:
  "\<exists>v hs r p u. rep_body (HandleStatus sample_api {1} sample_vars
        (\<lambda>sid. case snd (cache_Signature map_cache sample_cached sid) of Ok v \<Rightarrow> Some v | _ \<Rightarrow> None))
      = string_bytes (''data: '' @ hex_encode v @ [CHR 0x0A, CHR 0x0A])
    \<and> runs_for relay_env (hs :: unit chain_handlers) r p \<and> request_chain hs r = 1 \<and> request_id r = ''x''
    \<and> encode_signature (\<lambda>b n. b) sample_sig = Ok v
    \<and> smsg p = be_nat u \<and> typed_for (eE relay_env) (verifier_of r) (fst (domain_of r)) (snd (domain_of r)) u"
proof -
  let ?r = "ReqUnlock (NewLifiUnlockMessage 0 1 sample_unlock)"
  let ?reply = "HandleStatus sample_api {1} sample_vars (\<lambda>sid. case snd (cache_Signature map_cache sample_cached sid) of Ok v \<Rightarrow> Some v | _ \<Rightarrow> None)"
  obtain p where run: "runs_for relay_env sample_handlers ?r p" using sample_runs by blast
  have "request_chain sample_handlers ?r = 1" "request_id ?r = ''x''"
    by (simp_all add: sample_handlers_def NewLifiUnlockMessage_def sample_unlock_def)
  with runs_for_request(1) [OF run] have sid: "SID p = chain_session 1 ''x''" by simp
  have es: "honest (\<lambda>b n. b) relay_json (\<lambda>_ d. d = sample_sig) {(relay_env, sample_handlers)} e"
    if "e \<in> set [LocalResult (Some \<lparr>es_Signature = [1, 2, 27], es_ID = SID p\<rparr>)]" for e
    using that honest.own [OF _ run sample_result, of "{(relay_env, sample_handlers)}" "\<lambda>_ d. d = sample_sig"] by simp
  have watch: "cache_Watch relay_json map_cache (NewSignatureCache map_cache)
      [LocalResult (Some \<lparr>es_Signature = [1, 2, 27], es_ID = SID p\<rparr>)] = Ok sample_cached"
    by (simp add: NewSignatureCache_def put_signature_def map_cache_def sample_cached_def sid)
  have sub: "status_subscription {1} sample_vars = Inr (chain_session 1 ''x'')"
    by (simp add: status_subscription_def sample_vars_def var_text_def set_string0_show_nat chain_session_def show_int_nonneg big_uint64_def)
  have reply: "rep_status ?reply = 200" "rep_body ?reply \<noteq> []"
    by (simp_all add: HandleStatus_def sub cache_Signature_def sample_cached_def map_cache_def string_bytes_def)
  have vars: "sample_vars ''chainId'' = Some (show_nat (unat (1 :: uint64)))" "sample_vars ''depositId'' = Some ''x''"
    by (simp_all add: sample_vars_def)
  show ?thesis
    using served_signature_backed [OF map_cache_ok watch es vars refl reply, unfolded singleton_iff prod.inject] by blast
qed

text \<open>The condition that every relayer runs this program is needed. The cache does not look at who sent a
  signature nor check it, so what any peer sends under an identifier is served in place of the
  signature that was computed, whatever it is.\<close>

theorem planted_signature_served:
  assumes "cache_ok view C" and "watching_sigs s" and "cache_Watch J C s [SigMessage w] = Ok s'"
    and "text_ok J (signature_json J sid v)" and "b64_ok J v" and "Payload w = jrender J (signature_json J sid v)"
  shows "snd (cache_Signature C s' sid) = Ok v"
  by (rule signature_cache_latest [OF assms(1,2) _ _ _ assms(3)])
    (simp_all add: assms(6) UnmarshalSignatureMessage_render [OF assms(4,5)])

text \<open>C5: a signature that was made reaches the clients: when a process that a handler made for a request ends
  with a signature, each relayer whose cache receives it, as the result of its own process or in the
  message that a relayer which does not coordinate sends to all its peers, sends exactly it to whoever asks
  for the status under the chain and identifier of the request, until another signature for that
  identifier arrives or time passes.\<close>

theorem signature_reaches_clients:
  assumes "cache_ok view C" and "watching_sigs s" and "cache_Watch J C s (e # later) = Ok s'"
    and "runs_for V hs r p" and "signing_processEndMessage pad J (eHost V) p evs = Some (Ok (Some sig, sends))"
    and "e = LocalResult (Some sig) \<or> (\<exists>m w. m \<in> set sends \<and> Payload w = body m \<and> e = SigMessage w)"
    and "text_ok J (signature_json J (SID p) (es_Signature sig))" and "b64_ok J (es_Signature sig)"
    and "list_all (keeps J (SID p)) later"
    and "vars ''chainId'' = Some (show_nat (unat (request_chain hs r)))" and "vars ''depositId'' = Some (request_id r)"
    and "request_chain hs r \<in> chns"
  shows "(\<exists>d. EndSig d \<in> set evs \<and> encode_signature pad d = Ok (es_Signature sig))
    \<and> HandleStatus A chns vars (\<lambda>sid. case snd (cache_Signature C s' sid) of Ok v \<Rightarrow> Some v | _ \<Rightarrow> None)
      = \<lparr>rep_status = 200, rep_headers = setheaders,
         rep_body = string_bytes (''data: '' @ hex_encode (es_Signature sig) @ [CHR 0x0A, CHR 0x0A])\<rparr>
    \<and> (if coordinator p then sends = []
       else \<exists>m. sends = [m] \<and> to m = Peerstore (eHost V) \<and> kind m = SignatureMsg \<and> session m = SignatureSessionID)"
proof -
  obtain d b where d: "EndSig d \<in> set evs" "encode_signature pad d = Ok b" "sig = \<lparr>es_Signature = b, es_ID = SID p\<rparr>"
    "sends = distributeSignature J (eHost V) p b"
    using processEndMessage_result [OF assms(5)] by auto
  have "brings J e = Some (SID p, b)"
    using assms(6)
  proof (elim disjE exE conjE)
    fix m w
    assume "m \<in> set sends" "Payload w = body m" "e = SigMessage w"
    then have w: "Payload w = jrender J (signature_json J (SID p) b)" "e = SigMessage w"
      by (auto simp: d(4) distributeSignature_def MarshalSignatureMessage_def split: if_splits)
    have "UnmarshalSignatureMessage J (Payload w) = Ok \<lparr>Signature = b, SigID = SID p\<rparr>"
      unfolding w(1) using assms(7,8) by (intro UnmarshalSignatureMessage_render) (simp_all add: d(3))
    then show ?thesis by (simp add: w(2))
  qed (simp add: d(3))
  moreover have "e \<noteq> CacheCtxDone" using assms(6) by auto
  ultimately have v: "snd (cache_Signature C s' (SID p)) = Ok b"
    using signature_cache_latest [OF assms(1,2) _ _ assms(9,3)] by simp
  have "status_subscription chns vars = Inr (SID p)"
    using assms(10-12) runs_for_request(1) [OF assms(4)]
    by (simp add: status_subscription_def var_text_def set_string0_show_nat chain_session_def show_int_nonneg big_uint64_def)
  with v d show ?thesis
    by (auto simp: HandleStatus_def distributeSignature_def MarshalSignatureMessage_def)
qed

theorem signature_reaches_clients_witness:
  "HandleStatus sample_api {1} sample_vars
      (\<lambda>sid. case snd (cache_Signature map_cache sample_cached sid) of Ok v \<Rightarrow> Some v | _ \<Rightarrow> None)
    = \<lparr>rep_status = 200, rep_headers = setheaders,
       rep_body = string_bytes (''data: '' @ hex_encode [1, 2, 27] @ [CHR 0x0A, CHR 0x0A])\<rparr>"
proof -
  obtain p where run: "runs_for relay_env sample_handlers (ReqUnlock (NewLifiUnlockMessage 0 1 sample_unlock)) p"
    using sample_runs by blast
  have "request_chain sample_handlers (ReqUnlock (NewLifiUnlockMessage 0 1 sample_unlock)) = 1"
    "request_id (ReqUnlock (NewLifiUnlockMessage 0 1 sample_unlock)) = ''x''"
    by (simp_all add: sample_handlers_def NewLifiUnlockMessage_def sample_unlock_def)
  note r = this
  with runs_for_request(1) [OF run] have sid: "SID p = chain_session 1 ''x''" by simp
  have J: "signature_json (one_doc j b) i v = JObj [(''signature'', JStr []), (''id'', JStr i)]" for j b i v
    by (simp add: signature_json_def one_doc_def)
  define J where "J = one_doc (JObj [(''signature'', JStr []), (''id'', JStr (SID p))]) [1, 2, 27]"
  have ok: "text_ok J (signature_json J (SID p) [1, 2, 27])" "b64_ok J [1, 2, 27]"
    unfolding J_def J by (rule one_doc_ok)+
  have watch: "cache_Watch J map_cache (NewSignatureCache map_cache)
      (LocalResult (Some \<lparr>es_Signature = [1, 2, 27], es_ID = SID p\<rparr>) # []) = Ok sample_cached"
    by (simp add: NewSignatureCache_def put_signature_def map_cache_def sample_cached_def sid)
  show ?thesis
    using signature_reaches_clients [where vars = sample_vars and chns = "{1}" and A = sample_api,
        OF map_cache_ok _ watch run sample_result] r ok
    by (simp add: NewSignatureCache_def sample_vars_def)
qed

end
