(* ===== verification/Tooling.thy ===== *)
theory Tooling
  imports Topology
begin

text \<open>
  The command line tools an operator prepares a network with, \<open>cli/\<close>: encrypting a topology and testing
  the published one (\<open>cli/topology\<close>), and the keys of relayers (\<open>cli/peer\<close>, \<open>cli/keygen\<close>, \<open>cli/utils\<close>). A
  command returns what it prints; the key libraries are arguments.
\<close>

section \<open>Topologies\<close>

text \<open>
  The file of \<open>--path\<close>: the error of opening it, what reading it gives and the error of closing it. A file
  that was not opened is a nil pointer, whose \<open>Close\<close> returns an error.
\<close>

record input_file =
  in_open :: "go_error option"
  in_read :: "bytes res"
  in_close :: "go_error option"

text \<open>The deferred function panics when closing fails.\<close>

definition deferred_close :: "input_file \<Rightarrow> 'a res \<Rightarrow> 'a res" where
  "deferred_close f r = (if in_open f \<noteq> None \<or> in_close f \<noteq> None then Panic ''invalid argument'' else r)"

definition read_file :: "input_file \<Rightarrow> bytes res" where
  "read_file f = (case in_open f of Some e \<Rightarrow> Fail e | None \<Rightarrow> in_read f)"

text \<open>\<open>Encrypt\<close> on the pointer that \<open>NewAESEncryption\<close> returned, whose error is dropped.\<close>

definition encrypt_with :: "cipher res \<Rightarrow> bytes res \<Rightarrow> bytes \<Rightarrow> bytes res" where
  "encrypt_with enc iv msg =
     (case enc of
        Ok E \<Rightarrow> Encrypt E iv msg
      | _ \<Rightarrow> res_bind iv (\<lambda>_. Panic ''nil pointer dereference''))"

text \<open>The hexadecimal text of the encrypted topology and its hash.\<close>

definition encryptTopology ::
  "json_text \<Rightarrow> (bytes \<Rightarrow> cipher) \<Rightarrow> (bytes \<Rightarrow> bytes) \<Rightarrow> bytes res \<Rightarrow> string \<Rightarrow> input_file \<Rightarrow> (string \<times> string) res" where
  "encryptTopology J aes sha iv encryptionKey f =
     deferred_close f
       (res_bind (read_file f) (\<lambda>byteValue.
        res_bind (case unmarshal_raw J byteValue of
                    Fail e \<Rightarrow> Fail (Wrapf ''topology was wrong formed'' e) | r \<Rightarrow> r) (\<lambda>_.
        res_bind (encrypt_with (NewAESEncryption aes (string_bytes encryptionKey)) iv byteValue) (\<lambda>ct.
        Ok (hex_encode ct, hex_encode (sha ct))))))"

definition testTopology ::
  "json_text \<Rightarrow> addr_lib \<Rightarrow> (bytes \<Rightarrow> cipher) \<Rightarrow> (bytes \<Rightarrow> bytes) \<Rightarrow> (string \<Rightarrow> string res) \<Rightarrow> string \<Rightarrow> string \<Rightarrow> string
   \<Rightarrow> network_topology res" where
  "testTopology J A aes sha get decryptionKey url hash =
     res_bind (NewNetworkTopologyProvider aes decryptionKey) (\<lambda>E. NetworkTopology J A sha E (get url) hash)"

section \<open>Keys\<close>

text \<open>libp2p's keys, and \<open>b64\<close> for \<open>base64.StdEncoding.EncodeToString\<close>.\<close>

record ('priv, 'pub) key_lib =
  GenerateKeyPair :: "('priv \<times> 'pub) res"
  IDFromPublicKey :: "'pub \<Rightarrow> peer res"
  IDFromPrivateKey :: "'priv \<Rightarrow> peer res"
  MarshalPrivateKey :: "'priv \<Rightarrow> bytes res"
  UnmarshalPrivateKey :: "bytes \<Rightarrow> 'priv res"
  ConfigDecodeKey :: "string \<Rightarrow> bytes res"

text \<open>The identity and the encoded private key.\<close>

definition peer_generateKey :: "libp2p \<Rightarrow> ('priv, 'pub) key_lib \<Rightarrow> (bytes \<Rightarrow> string) \<Rightarrow> (string \<times> string) res" where
  "peer_generateKey L K b64 =
     res_bind (GenerateKeyPair K) (\<lambda>(priv, pub).
     res_bind (IDFromPublicKey K pub) (\<lambda>peerID.
     res_bind (MarshalPrivateKey K priv) (\<lambda>marshPriv.
     Ok (id_String L peerID, b64 marshPriv))))"

definition peerInfo :: "libp2p \<Rightarrow> ('priv, 'pub) key_lib \<Rightarrow> string \<Rightarrow> string res" where
  "peerInfo L K privateKey =
     res_bind (ConfigDecodeKey K privateKey) (\<lambda>privBytes.
     res_bind (UnmarshalPrivateKey K privBytes) (\<lambda>priv.
     res_bind (IDFromPrivateKey K priv) (\<lambda>peerID. Ok (id_String L peerID))))"

text \<open>\<open>generate\<close> is secp256k1's \<open>GenerateKeypair\<close>, as the printed public key and the encoded private one.\<close>

definition keygen_generateKey :: "(string \<times> bytes) res \<Rightarrow> (string \<times> string) res" where
  "keygen_generateKey generate = res_bind generate (\<lambda>(public, private). Ok (public, ''0x'' @ hex_encode private))"

definition derivateSS58 :: "(string \<Rightarrow> 16 word \<Rightarrow> string res) \<Rightarrow> string \<Rightarrow> 16 word \<Rightarrow> string res" where
  "derivateSS58 KeyringPairFromSecret privateKey networkID = KeyringPairFromSecret privateKey networkID"

section \<open>Lemmas\<close>

lemma deferred_close_Ok: "deferred_close f r = Ok x \<longleftrightarrow> in_open f = None \<and> in_close f = None \<and> r = Ok x"
  by (auto simp: deferred_close_def)

lemma encryptTopology_Ok:
  assumes "encryptTopology J aes sha iv key f = Ok (out, h)"
  shows "\<exists>plain raw E v. in_read f = Ok plain \<and> unmarshal_raw J plain = Ok raw
    \<and> NewAESEncryption aes (string_bytes key) = Ok E \<and> iv = Ok v
    \<and> out = hex_encode (v @ XORKeyStream E v plain) \<and> h = hex_encode (sha (v @ XORKeyStream E v plain))"
proof -
  obtain plain where p: "read_file f = Ok plain" "in_open f = None"
    and r: "res_bind (case unmarshal_raw J plain of
                    Fail e \<Rightarrow> Fail (Wrapf ''topology was wrong formed'' e) | r \<Rightarrow> r) (\<lambda>_.
        res_bind (encrypt_with (NewAESEncryption aes (string_bytes key)) iv plain) (\<lambda>ct.
        Ok (hex_encode ct, hex_encode (sha ct)))) = Ok (out, h)"
    using assms unfolding encryptTopology_def deferred_close_Ok res_bind_Ok_iff by blast
  obtain raw ct where c: "unmarshal_raw J plain = Ok raw" "encrypt_with (NewAESEncryption aes (string_bytes key)) iv plain = Ok ct"
    "out = hex_encode ct" "h = hex_encode (sha ct)"
    using r by (cases "unmarshal_raw J plain") (auto simp: res_simps)
  from c(2) obtain E v where "NewAESEncryption aes (string_bytes key) = Ok E" "iv = Ok v" "ct = v @ XORKeyStream E v plain"
    by (cases "NewAESEncryption aes (string_bytes key)") (auto simp: encrypt_with_def Encrypt_def res_simps)
  with p c show ?thesis by (auto simp: read_file_def)
qed

lemma hex_encode_no_newline: "CHR 0x0A \<notin> set (hex_encode b)"
proof -
  have d: "hex_digit d \<noteq> CHR 0x0A" if "d < 16" for d
    using of_char_hex_digit [OF that] by (auto split: if_splits dest!: arg_cong [where f = "of_char :: char \<Rightarrow> nat"])
  have "hex_digit (unat x div 16) \<noteq> CHR 0x0A" "hex_digit (unat x mod 16) \<noteq> CHR 0x0A" for x :: byte
    using byte_less [of x] by (simp_all add: d)
  from this [symmetric] show ?thesis by (simp add: hex_encode_def)
qed

lemma trim_newline_hex: "nl \<in> {[], [CHR 0x0A]} \<Longrightarrow> trim_newline (hex_encode b @ nl) = hex_encode b"
  using hex_encode_no_newline [of b] by (auto simp: trim_newline_def dest: last_in_set)

section \<open>Properties\<close>


text \<open>A document, a cipher and a file, with a key of sixteen characters.\<close>

definition sample_file :: input_file where
  "sample_file = \<lparr>in_open = None, in_read = Ok [1], in_close = None\<rparr>"

definition sample_iv :: bytes where
  "sample_iv = replicate 16 7"

definition sample_key :: string where
  "sample_key = ''0123456789abcdef''"


text \<open>The tool dies instead of reporting an error when the file is missing, and when the key has the wrong
  length: closing a file that was not opened fails, and the error of the key is dropped.\<close>

theorem encrypt_tool_panics:
  "in_open f = Some e \<Longrightarrow> encryptTopology J aes sha iv key f = Panic ''invalid argument''"
  "length key \<notin> {16, 24, 32} \<Longrightarrow> in_open f = None \<Longrightarrow> in_close f = None \<Longrightarrow> in_read f = Ok plain
    \<Longrightarrow> unmarshal_raw J plain = Ok raw \<Longrightarrow> iv = Ok v
    \<Longrightarrow> encryptTopology J aes sha iv key f = Panic ''nil pointer dereference''"
  by (simp_all add: encryptTopology_def deferred_close_def read_file_def encrypt_with_def NewAESEncryption_def
      string_bytes_def)

text \<open>libp2p reads back a private key it wrote, base64 a text it wrote, and a key pair has one identity.\<close>

definition keys_ok :: "('priv, 'pub) key_lib \<Rightarrow> (bytes \<Rightarrow> string) \<Rightarrow> bool" where
  "keys_ok K b64 \<longleftrightarrow>
     (\<forall>priv b. MarshalPrivateKey K priv = Ok b \<longrightarrow> UnmarshalPrivateKey K b = Ok priv \<and> ConfigDecodeKey K (b64 b) = Ok b)
     \<and> (\<forall>priv pub. GenerateKeyPair K = Ok (priv, pub) \<longrightarrow> IDFromPrivateKey K priv = IDFromPublicKey K pub)"

lemma peer_generateKey_Ok:
  assumes "keys_ok K b64" and "peer_generateKey L K b64 = Ok (ident, key)"
  shows "\<exists>b priv p. ConfigDecodeKey K key = Ok b \<and> UnmarshalPrivateKey K b = Ok priv \<and> IDFromPrivateKey K priv = Ok p
    \<and> ident = id_String L p"
  using assms by (auto simp: peer_generateKey_def keys_ok_def res_simps)

lemma peerInfo_generated:
  assumes "keys_ok K b64" and "peer_generateKey L K b64 = Ok (ident, key)"
  shows "peerInfo L K key = Ok ident"
  using peer_generateKey_Ok [OF assms] by (auto simp: peerInfo_def)

end
