(* ===== verification/Startup.thy ===== *)
theory Startup
  imports App Tooling
begin

text \<open>
  The start of a relayer, \<open>Run\<close> of \<open>app/app.go\<close>, as one function of what the program finds: its configuration,
  the files on disk and what the libraries and servers answer (the record \<open>run_env\<close>). It returns the
  topology file as it is left behind and the relayer that is running; the goroutines it starts are
  the loops of the other theories, on the parts of that relayer.
\<close>

record ('lvl, 'priv, 'pub, 'k) run_env =
  re_json :: json_text
  re_libp2p :: libp2p
  re_addrs :: addr_lib
  re_eth :: eth
  re_keys :: "('priv, 'pub) key_lib"
  re_codec :: "'k key_codec"
  re_configFlag :: string
  re_blockstoreFlag :: string
  re_environ :: "string list"
  re_viper :: "string \<Rightarrow> raw_config res"
  re_ParseLevel :: "string \<Rightarrow> 'lvl res"
  re_set_defaults :: "raw_config \<Rightarrow> raw_config res"
  re_merge :: "chain_map \<Rightarrow> chain_map \<Rightarrow> chain_map res"
  re_aes :: "bytes \<Rightarrow> cipher"
  re_sha256 :: "bytes \<Rightarrow> bytes"
  re_get :: "string \<Rightarrow> string res"
  re_files :: file_ops
  re_libp2p_New :: "'priv \<Rightarrow> 16 word \<Rightarrow> (peer \<times> peerstore) res"
  re_metrics :: "unit res"
  re_lvldb :: "string \<Rightarrow> unit res"
  re_FetchSolverConfig :: "solver_config res"
  re_marshalSolver :: "solver_config \<Rightarrow> bytes res"
  re_pubkeyAddress :: "'k \<Rightarrow> address option"
  re_decodeChain :: "chain_map \<Rightarrow> raw_evm_config res"
  re_chainDefaults :: "raw_evm_config \<Rightarrow> raw_evm_config res"
  re_dial :: "string \<Rightarrow> unit res"
  re_LatestBlock :: "string \<Rightarrow> int res"
  re_lifi :: "solver_config \<Rightarrow> unit res"

section \<open>The steps\<close>

definition load_config :: "('lvl, 'priv, 'pub, 'k) run_env \<Rightarrow> 'lvl config res" where
  "load_config X = panicOnError
     (if map lower_ascii (re_configFlag X) = ''env''
      then GetConfigFromENV (re_json X) (re_ParseLevel X) (re_set_defaults X) (re_merge X) (re_environ X) None
      else GetConfigFromFile (re_ParseLevel X) (re_set_defaults X) (re_merge X) (re_viper X) (re_configFlag X) None)"

definition boot_topology ::
  "('lvl, 'priv, 'pub, 'k) run_env \<Rightarrow> topology_configuration \<Rightarrow> topology_file \<Rightarrow> topology_file \<times> network_topology option res" where
  "boot_topology X c f =
     (case panicOnError (NewNetworkTopologyProvider (re_aes X) (EncryptionKey c)) of
        Ok E \<Rightarrow> load_topology (re_json X) (re_addrs X) (re_files X)
                  (NetworkTopology (re_json X) (re_addrs X) (re_sha256 X) E (re_get X (Url c))) f
      | Fail e \<Rightarrow> (f, Fail e)
      | Panic m \<Rightarrow> (f, Panic m))"

text \<open>\<open>NewHost\<close>, with the peers of the topology loaded into the peer store of libp2p's new host.\<close>

definition NewHost ::
  "('lvl, 'priv, 'pub, 'k) run_env \<Rightarrow> 'priv option \<Rightarrow> network_topology option \<Rightarrow> 16 word
   \<Rightarrow> (network_topology \<times> peer \<times> peerstore) res" where
  "NewHost X privKey nt port =
     (case privKey of
        None \<Rightarrow> Fail (Errorf ''unable to create libp2p host: private key not defined'')
      | Some k \<Rightarrow>
          res_bind (res_wrap ''unable to create libp2p host'' (re_libp2p_New X k port)) (\<lambda>(self, known).
          res_bind (deref nt) (\<lambda>t.
          res_bind (LoadPeers known (TPeers t)) (\<lambda>ps. Ok (t, self, ps)))))"

definition boot_host ::
  "('lvl, 'priv, 'pub, 'k) run_env \<Rightarrow> mpc_config \<Rightarrow> network_topology option \<Rightarrow> (network_topology \<times> peer \<times> peerstore) res" where
  "boot_host X c nt =
     res_bind (panicOnError (ConfigDecodeKey (re_keys X) (mpc_Key c))) (\<lambda>privBytes.
     res_bind (panicOnError (UnmarshalPrivateKey (re_keys X) privBytes)) (\<lambda>priv.
     panicOnError (NewHost X (Some priv) nt (mpc_Port c))))"

text \<open>The address of the network's key: that of the relayer's share, or the configured one without a share.\<close>

definition mpc_address :: "('lvl, 'priv, 'pub, 'k) run_env \<Rightarrow> solver_config \<Rightarrow> ks_store \<Rightarrow> address res" where
  "mpc_address X S ks =
     (case GetKeyshare (re_json X) (re_libp2p X) (re_codec X) ks of
        Ok share \<Rightarrow> deref (re_pubkeyAddress X (Key share))
      | Fail e \<Rightarrow> Ok (HexToAddress (re_eth X) (Sprinter_MpcAddress S))
      | Panic m \<Rightarrow> Panic m)"

definition app_of :: "('lvl, 'priv, 'pub, 'k) run_env \<Rightarrow> solver_config \<Rightarrow> app_env" where
  "app_of X S =
     \<lparr>ae_eth = re_eth X,
      ae_config = NewEVMConfig (re_eth X) (re_blockstoreFlag X) (re_decodeChain X) (re_chainDefaults X) S,
      ae_dial = re_dial X, ae_lifi_deps = re_lifi X S, ae_head = re_LatestBlock X\<rparr>"

section \<open>The relayer\<close>

record 'lvl relayer =
  rl_config :: "'lvl config"
  rl_topology :: network_topology
  rl_gate :: connection_gate
  rl_self :: peer
  rl_book :: peerstore
  rl_solver :: solver_config
  rl_mpcAddress :: address
  rl_wiring :: wiring

definition start_relayer ::
  "('lvl, 'priv, 'pub, 'k) run_env \<Rightarrow> 'lvl config \<Rightarrow> ks_store \<Rightarrow> network_topology option \<Rightarrow> 'lvl relayer res" where
  "start_relayer X c ks nt =
     res_bind (boot_host X (MpcConfig (RelayerConfig c)) nt) (\<lambda>(t, self, peers).
     res_bind (panicOnError (re_metrics X)) (\<lambda>_.
     res_bind (panicOnError (re_lvldb X (re_blockstoreFlag X))) (\<lambda>_.
     res_bind (panicOnError (re_FetchSolverConfig X)) (\<lambda>S.
     res_bind (panicOnError (calculateConfigHash (re_marshalSolver X) (re_sha256 X) S)) (\<lambda>_.
     res_bind (mpc_address X S ks) (\<lambda>mpc.
     res_bind (wire (app_of X S) S (ChainConfigs c)) (\<lambda>w.
     Ok \<lparr>rl_config = c, rl_topology = t, rl_gate = NewConnectionGate t, rl_self = self, rl_book = peers, rl_solver = S,
         rl_mpcAddress = mpc, rl_wiring = w\<rparr>)))))))"

definition Run ::
  "('lvl, 'priv, 'pub, 'k) run_env \<Rightarrow> topology_file \<Rightarrow> bytes option \<Rightarrow> topology_file \<times> 'lvl relayer res" where
  "Run X f share =
     (case load_config X of
        Fail e \<Rightarrow> (f, Fail e)
      | Panic m \<Rightarrow> (f, Panic m)
      | Ok c \<Rightarrow>
          (case boot_topology X (mpc_Topology (MpcConfig (RelayerConfig c))) f of
             (f', r) \<Rightarrow> (f', res_bind r (start_relayer X c (NewECDSAKeyshareStore share)))))"

text \<open>The loop the program ends in: the first signal, or the first change of the solver's configuration, ends
  it without an error, and whoever supervises the process starts it again.\<close>

datatype run_event = SysSignal | ConfigChanged

fun run_loop :: "run_event list \<Rightarrow> unit res option" where
  "run_loop [] = None"
| "run_loop (SysSignal # es) = Some (Ok ())"
| "run_loop (ConfigChanged # es) = Some (Ok ())"

section \<open>Lemmas\<close>

lemma panicOnError_iff [res_simps]:
  "panicOnError r = Ok x \<longleftrightarrow> r = Ok x" "panicOnError r \<noteq> Fail e"
  by (cases r; simp add: panicOnError_def)+

lemma wire_never_fails: "wire A S cs \<noteq> Fail e"
proof -
  have "for_chains f cs w \<noteq> Fail e" if "\<And>c w e. f c w \<noteq> Fail e" for f w
    using that by (induction cs arbitrary: w) (auto simp: res_simps)
  moreover have "collect_chain A c w \<noteq> Fail e" "register_chain A c w \<noteq> Fail e" for c w e
    by (auto simp: collect_chain_def register_chain_def res_simps split: res.splits if_splits)
  ultimately show ?thesis by (auto simp: wire_def register_lighter_def res_simps)
qed

lemma start_relayer_never_fails: "start_relayer X c ks nt \<noteq> Fail e"
  by (auto simp: start_relayer_def boot_host_def mpc_address_def wire_never_fails res_simps split: res.splits)

lemma boot_topology_never_fails: "snd (boot_topology X c f) \<noteq> Fail e"
  by (auto simp: boot_topology_def load_topology_def res_simps split: res.splits prod.splits)

lemma Run_never_fails: "snd (Run X f share) \<noteq> Fail e"
proof (cases "load_config X")
  case (Ok c)
  obtain f' r where b: "boot_topology X (mpc_Topology (MpcConfig (RelayerConfig c))) f = (f', r)" by fastforce
  have "r \<noteq> Fail e" using boot_topology_never_fails [of X "mpc_Topology (MpcConfig (RelayerConfig c))" f e] b by simp
  with Ok b show ?thesis by (auto simp: Run_def res_simps start_relayer_never_fails)
qed (simp_all add: Run_def load_config_def res_simps)

lemma Run_Ok:
  assumes "Run X f share = (f', Ok s)"
  shows "\<exists>c nt. load_config X = Ok c \<and> boot_topology X (mpc_Topology (MpcConfig (RelayerConfig c))) f = (f', Ok nt)
    \<and> start_relayer X c (NewECDSAKeyshareStore share) nt = Ok s"
  using assms by (auto simp: Run_def res_simps split: res.splits prod.splits)

lemma boot_host_Ok:
  assumes "boot_host X c nt = Ok (t, self, ps)"
  shows "nt = Some t" and "\<exists>known. LoadPeers known (TPeers t) = Ok ps"
    and "\<exists>b priv known. ConfigDecodeKey (re_keys X) (mpc_Key c) = Ok b \<and> UnmarshalPrivateKey (re_keys X) b = Ok priv
      \<and> re_libp2p_New X priv (mpc_Port c) = Ok (self, known)"
  using assms by (auto simp: boot_host_def NewHost_def res_simps)

lemma boot_topology_kept:
  assumes "boot_topology X c f = (f', Ok (Some t))" and "storable (re_json X) (re_addrs X) t"
  shows "Topology_read (re_json X) (re_addrs X) f' = Ok (Some t)" and "f' = f \<or> 1 \<le> TThreshold t"
proof -
  obtain E where l: "load_topology (re_json X) (re_addrs X) (re_files X)
      (NetworkTopology (re_json X) (re_addrs X) (re_sha256 X) E (re_get X (Url c))) f = (f', Ok (Some t))"
    using assms(1) by (auto simp: boot_topology_def res_simps split: res.splits)
  have "Topology_read (re_json X) (re_addrs X) f' = Ok (Some t) \<and> (f' = f \<or> 1 \<le> TThreshold t)"
  proof (cases "Topology_read (re_json X) (re_addrs X) f")
    case (Ok x)
    with l show ?thesis by (simp add: load_topology_def)
  next
    case (Fail e)
    then have "NetworkTopology (re_json X) (re_addrs X) (re_sha256 X) E (re_get X (Url c)) [] = Ok t"
      "f' = Some (jrender (re_json X) (topology_json (re_addrs X) t))"
      using l StoreTopology_result by (fastforce simp: load_topology_def split: res.splits prod.splits)+
    then show ?thesis
      using storable_read [OF assms(2)] ProcessRawTopology_threshold
      by (auto simp: NetworkTopology_def Let_def res_bind_Ok_iff split: if_splits)
  qed (use l in \<open>simp add: load_topology_def\<close>)
  then show "Topology_read (re_json X) (re_addrs X) f' = Ok (Some t)" and "f' = f \<or> 1 \<le> TThreshold t" by simp_all
qed

section \<open>Properties\<close>


text \<open>A relayer without a share, started on a stored topology with the default configuration.\<close>

definition sample_topology_config :: topology_configuration where
  "sample_topology_config = \<lparr>EncryptionKey = sample_key, Url = ''u'', Path = ''p''\<rparr>"

definition sample_keys :: "(unit, unit) key_lib" where
  "sample_keys = \<lparr>GenerateKeyPair = Ok ((), ()), IDFromPublicKey = (\<lambda>_. Ok ''p''), IDFromPrivateKey = (\<lambda>_. Ok ''p''),
     MarshalPrivateKey = (\<lambda>_. Ok []), UnmarshalPrivateKey = (\<lambda>_. Ok ()), ConfigDecodeKey = (\<lambda>_. Ok [])\<rparr>"

definition sample_run :: "(unit, unit, unit, int) run_env" where
  "sample_run =
     \<lparr>re_json = one_doc (topology_json sample_addr sample_topology) [], re_libp2p = raw_ids, re_addrs = sample_addr,
      re_eth = sample_eth, re_keys = sample_keys, re_codec = int_codec, re_configFlag = ''c.json'', re_blockstoreFlag = [],
      re_environ = [],
      re_viper = (\<lambda>_. Ok \<lparr>raw_RelayerConfig = bare_config sample_topology_config, raw_ChainConfigs = []\<rparr>),
      re_ParseLevel = (\<lambda>_. Ok ()),
      re_set_defaults = (\<lambda>r. Ok (r\<lparr>raw_RelayerConfig := tagged_defaults (raw_RelayerConfig r)\<rparr>)),
      re_merge = (\<lambda>c _. Ok c), re_aes = (\<lambda>_. sample_cipher), re_sha256 = id, re_get = (\<lambda>_. Fail (Errorf ''timeout'')),
      re_files = \<lparr>open_err = None, write_err = None\<rparr>, re_libp2p_New = (\<lambda>_ _. Ok (''p'', [])), re_metrics = Ok (),
      re_lvldb = (\<lambda>_. Ok ()), re_FetchSolverConfig = Ok sample_solver, re_marshalSolver = (\<lambda>_. Ok []),
      re_pubkeyAddress = (\<lambda>_. Some [1]), re_decodeChain = (\<lambda>_. Fail (Errorf [])), re_chainDefaults = Ok,
      re_dial = (\<lambda>_. Ok ()), re_LatestBlock = (\<lambda>_. Ok 0), re_lifi = (\<lambda>_. Ok ())\<rparr>"

lemma sample_load:
  "\<exists>rc. load_config sample_run = Ok \<lparr>RelayerConfig = rc, ChainConfigs = []\<rparr>
     \<and> mpc_Topology (MpcConfig rc) = sample_topology_config \<and> mpc_Key (MpcConfig rc) = []"
proof -
  have v: "raw_Validate (tagged_defaults (bare_config sample_topology_config)) = Ok ()"
    by (simp add: raw_Validate_def tagged_defaults_def bare_config_def res_guard_def sample_topology_config_def sample_key_def)
  obtain rc where rc: "NewRelayerConfig (\<lambda>_. Ok ()) (tagged_defaults (bare_config sample_topology_config)) = Ok rc"
    "mpc_Topology (MpcConfig rc) = sample_topology_config" "mpc_Key (MpcConfig rc) = []"
    unfolding NewRelayerConfig_def
    by (simp add: v) (simp add: tagged_defaults_def bare_config_def or_default_def parseMpcConfig_def parseBullyConfig_def
      default_durations default_ports)
  have "load_config sample_run = Ok \<lparr>RelayerConfig = rc, ChainConfigs = []\<rparr>"
    by (simp add: load_config_def sample_run_def GetConfigFromFile_def processRawConfig_def rc(1) panicOnError_def)
  with rc show ?thesis by blast
qed

lemma sample_started: "\<exists>s. Run sample_run (Some [0]) None = (Some [0], Ok s) \<and> rl_topology s = sample_topology \<and> rl_solver s = sample_solver"
proof -
  obtain rc where c: "load_config sample_run = Ok \<lparr>RelayerConfig = rc, ChainConfigs = []\<rparr>" "mpc_Topology (MpcConfig rc) = sample_topology_config"
    using sample_load by blast
  have "Topology_read (re_json sample_run) (re_addrs sample_run) (Some [0]) = Ok (Some sample_topology)"
    by (rule topology_store_roundtrip [where os = "\<lparr>open_err = None, write_err = None\<rparr>" and f = None])
      (simp_all add: sample_run_def StoreTopology_def sample_addr_def sample_topology_def)
  then have t: "boot_topology sample_run sample_topology_config (Some [0]) = (Some [0], Ok (Some sample_topology))"
    by (simp add: boot_topology_def load_topology_def NewNetworkTopologyProvider_def NewAESEncryption_def panicOnError_def
        sample_topology_config_def sample_key_def string_bytes_def)
  have h: "boot_host sample_run (MpcConfig rc) (Some sample_topology) = Ok (sample_topology, ''p'', [(''p'', [''p''])])"
    by (simp add: boot_host_def NewHost_def sample_run_def sample_keys_def panicOnError_def sample_topology_def LoadPeers_def
        AddAddr_def at_index_def)
  have w: "\<exists>w. wire (app_of sample_run sample_solver) sample_solver [] = Ok w"
    by (simp add: wire_def register_lighter_def panicOnError_def NewLighterConfig_def sample_solver_def Let_def)
  have "\<exists>s. start_relayer sample_run \<lparr>RelayerConfig = rc, ChainConfigs = []\<rparr> (NewECDSAKeyshareStore None) (Some sample_topology) = Ok s
      \<and> rl_topology s = sample_topology \<and> rl_solver s = sample_solver"
    using w by (auto simp: start_relayer_def h mpc_address_def GetKeyshare_def NewECDSAKeyshareStore_def)
      (auto simp: sample_run_def panicOnError_def calculateConfigHash_def)
  with c t show ?thesis by (auto simp: Run_def)
qed


text \<open>A relayer is who its operator was told: a relayer that starts with a key the tool generated has the
  identity the tool printed with it, which is also what the tool prints for the key alone; so a
  topology that lists the printed identity lists this relayer.\<close>

theorem generated_identity:
  assumes "peer_generateKey L (re_keys X) b64 = Ok (ident, key)" and "keys_ok (re_keys X) b64"
    and "\<And>priv port self known. re_libp2p_New X priv port = Ok (self, known) \<Longrightarrow> IDFromPrivateKey (re_keys X) priv = Ok self"
    and "Run X f share = (f', Ok s)" and "mpc_Key (MpcConfig (RelayerConfig (rl_config s))) = key"
  shows "id_String L (rl_self s) = ident \<and> peerInfo L (re_keys X) key = Ok ident"
proof -
  obtain nt t self ps where h: "boot_host X (MpcConfig (RelayerConfig (rl_config s))) nt = Ok (t, self, ps)" and self: "rl_self s = self"
    using Run_Ok [OF assms(4)] by (auto simp: start_relayer_def res_simps)
  obtain b priv known where k: "ConfigDecodeKey (re_keys X) key = Ok b" "UnmarshalPrivateKey (re_keys X) b = Ok priv"
    "re_libp2p_New X priv (mpc_Port (MpcConfig (RelayerConfig (rl_config s)))) = Ok (self, known)"
    using boot_host_Ok(3) [OF h] by (auto simp: assms(5))
  then have "IDFromPrivateKey (re_keys X) priv = Ok self" by (blast intro: assms(3))
  then have "peerInfo L (re_keys X) key = Ok (id_String L self)" using k by (simp add: peerInfo_def)
  with peerInfo_generated [OF assms(2,1)] show ?thesis by (simp add: self)
qed

theorem generated_identity_witness:
  "\<exists>s. Run sample_run (Some [0]) None = (Some [0], Ok s) \<and> id_String raw_ids (rl_self s) = ''p''
     \<and> peerInfo raw_ids (re_keys sample_run) [] = Ok ''p''"
proof -
  obtain s where s: "Run sample_run (Some [0]) None = (Some [0], Ok s)" using sample_started by blast
  obtain rc where c: "load_config sample_run = Ok \<lparr>RelayerConfig = rc, ChainConfigs = []\<rparr>" "mpc_Key (MpcConfig rc) = []"
    using sample_load by blast
  have "rl_config s = \<lparr>RelayerConfig = rc, ChainConfigs = []\<rparr>"
    using Run_Ok [OF s] c(1) by (auto simp: start_relayer_def res_simps)
  then have "id_String raw_ids (rl_self s) = ''p'' \<and> peerInfo raw_ids (re_keys sample_run) [] = Ok ''p''"
    using generated_identity [of raw_ids sample_run "\<lambda>_. []" "''p''" "[]", OF _ _ _ s]
    by (auto simp: sample_run_def sample_keys_def peer_generateKey_def keys_ok_def c(2))
  with s show ?thesis by blast
qed

end
