(* ===== verification/Serving.thy ===== *)
theory Serving
  imports Startup Relay
begin

text \<open>
  The server of the API (\<open>api/server.go\<close>) and the life of the process around it (the end of \<open>Run\<close>,
  \<open>app/app.go\<close>): what the wiring hands to the server, which handler a request reaches and with what
  result, and how server and process end. The router of gorilla/mux is an argument.
\<close>

section \<open>What Run hands over\<close>

text \<open>The address of the server and the maps that its handlers are made with.\<close>

record services =
  sv_addr :: string
  sv_supported :: "uint64 set"
  sv_confirmations :: "uint64 \<rightharpoonup> (uint64 \<times> uint64) list"

definition services_of :: "'lvl relayer \<Rightarrow> services" where
  "services_of s =
     \<lparr>sv_addr = ApiAddr (RelayerConfig (rl_config s)), sv_supported = supportedChains (rl_wiring s),
      sv_confirmations = confirmationsPerChain (rl_wiring s)\<rparr>"

section \<open>Requests\<close>

text \<open>
  \<open>mux\<close> picks the handler and the variables of the path, or replies itself when no route fits. The body
  is the first JSON value that the decoder finds. What the other sides of the channels answer and what
  the subscription to the cache sends are arguments.
\<close>

record http_request =
  hr_method :: string
  hr_path :: string
  hr_body :: "json res"

type_synonym router = "(string \<times> string \<times> endpoint) list \<Rightarrow> string \<Rightarrow> string \<Rightarrow> (endpoint \<times> path_vars) + http_reply"

record responses =
  rs_signing :: "request \<Rightarrow> go_error option option"
  rs_unlock :: "request \<Rightarrow> unlock_answer"
  rs_status :: "string \<Rightarrow> bytes option"

fun endpoint_handler ::
  "api_env \<Rightarrow> services \<Rightarrow> responses \<Rightarrow> json res \<Rightarrow> path_vars \<Rightarrow> endpoint \<Rightarrow> (request list \<times> http_reply option) res" where
  "endpoint_handler A sv B rq vars Unlocks =
     res_bind (HandleUnlock A (sv_supported sv) rq vars (rs_unlock B)) (\<lambda>(ms, rep). Ok (ms, Some rep))"
| "endpoint_handler A sv B rq vars Signatures = HandleSigning A (sv_supported sv) rq vars (rs_signing B)"
| "endpoint_handler A sv B rq vars Status = Ok ([], Some (HandleStatus A (sv_supported sv) vars (rs_status B)))"
| "endpoint_handler A sv B rq vars ConfirmationsOf = Ok ([], Some (HandleConfirmations A (sv_confirmations sv) vars))"
| "endpoint_handler A sv B rq vars Health = Ok ([], Some HealthHandler)"

text \<open>The messages a request puts on the relayer's channel and its reply. \<open>net/http\<close> recovers the panic of a
  handler and closes the connection; no handler panics after it has sent a message.\<close>

definition serve_request :: "router \<Rightarrow> api_env \<Rightarrow> services \<Rightarrow> responses \<Rightarrow> http_request \<Rightarrow> request list \<times> http_reply option" where
  "serve_request mux A sv B q =
     (case mux routes (hr_method q) (hr_path q) of
        Inr rep \<Rightarrow> ([], Some rep)
      | Inl (e, vars) \<Rightarrow>
          (case endpoint_handler A sv B (hr_body q) vars e of
             Ok x \<Rightarrow> x
           | _ \<Rightarrow> ([], None)))"

text \<open>What the type and the destination of a message say.\<close>

fun request_type :: "request \<Rightarrow> message_type" where
  "request_type (ReqAcross m) = AcrossMsg"
| "request_type (ReqEscrow m) = LifiEscrowMsg"
| "request_type (ReqLighter m) = LighterMsg"
| "request_type (ReqCredit m) = SprinterCreditMsg"
| "request_type (ReqUnlock m) = LifiUnlockMsg"

fun request_destination :: "request \<Rightarrow> uint64" where
  "request_destination (ReqAcross m) = m_Destination m"
| "request_destination (ReqEscrow m) = m_Destination m"
| "request_destination (ReqLighter m) = m_Destination m"
| "request_destination (ReqCredit m) = m_Destination m"
| "request_destination (ReqUnlock m) = m_Destination m"

text \<open>mux sends a request to a route of its method whose pattern it fits, and \<open>{chainId:[0-9]+}\<close> fits digits
  only.\<close>

definition mux_ok :: "router \<Rightarrow> bool" where
  "mux_ok mux \<longleftrightarrow>
     (\<forall>m p e vars. mux routes m p = Inl (e, vars) \<longrightarrow>
        (\<exists>pat. (m, pat, e) \<in> set routes) \<and> (e \<noteq> Health \<longrightarrow> (\<exists>c. vars ''chainId'' = Some c \<and> c \<noteq> [] \<and> all_digits c)))"

section \<open>The process\<close>

text \<open>
  \<open>Serve\<close> listens in a goroutine, which panics on any error but that of a closed server, waits for its
  context, and then shuts the server down within three seconds. \<open>Run\<close> loops until a signal or a
  change of the configuration; returning cancels the context, and the process exits when \<open>main\<close>
  returns, whatever the other goroutines do. A panic outside the server's handlers, such as one of a
  message handler, ends the process too.
\<close>

datatype server_state = Listening | ShuttingDown | ShutDown "go_error option" | NotListening

record process =
  pr_server :: server_state
  pr_cancelled :: bool
  pr_exit :: "unit res option"

datatype process_event =
    ListenReturns "go_error option"
  | LoopEvent run_event
  | ContextSeen
  | ShutdownReturns "go_error option"
  | MainReturns
  | GoroutinePanics string

text \<open>\<open>http.ErrServerClosed\<close> is the error of \<open>ListenAndServe\<close> after a shutdown.\<close>

definition ErrServerClosed :: go_error where
  "ErrServerClosed = Errorf ''http: Server closed''"

definition listen_result :: "go_error option \<Rightarrow> unit res" where
  "listen_result r = (case r of None \<Rightarrow> Ok () | Some e \<Rightarrow> if e = ErrServerClosed then Ok () else Panic ''ListenAndServe'')"

fun process_step :: "process \<Rightarrow> process_event \<Rightarrow> process" where
  "process_step p (ListenReturns r) =
     (if pr_exit p \<noteq> None then p
      else case listen_result r of
             Ok u \<Rightarrow> (if pr_server p = Listening then p\<lparr>pr_server := NotListening\<rparr> else p)
           | x \<Rightarrow> p\<lparr>pr_server := NotListening, pr_exit := Some x\<rparr>)"
| "process_step p (LoopEvent e) =
     (if pr_exit p \<noteq> None \<or> run_loop [e] = None then p else p\<lparr>pr_cancelled := True\<rparr>)"
| "process_step p ContextSeen =
     (if pr_exit p \<noteq> None \<or> \<not> pr_cancelled p \<or> pr_server p \<notin> {Listening, NotListening} then p else p\<lparr>pr_server := ShuttingDown\<rparr>)"
| "process_step p (ShutdownReturns r) =
     (if pr_exit p \<noteq> None \<or> pr_server p \<noteq> ShuttingDown then p else p\<lparr>pr_server := ShutDown r\<rparr>)"
| "process_step p MainReturns =
     (if pr_exit p \<noteq> None \<or> \<not> pr_cancelled p then p else p\<lparr>pr_exit := Some (Ok ())\<rparr>)"
| "process_step p (GoroutinePanics m) = (if pr_exit p \<noteq> None then p else p\<lparr>pr_exit := Some (Panic m)\<rparr>)"

definition process_started :: process where
  "process_started = \<lparr>pr_server = Listening, pr_cancelled = False, pr_exit = None\<rparr>"

definition process_run :: "process_event list \<Rightarrow> process" where
  "process_run es = fold (\<lambda>e p. process_step p e) es process_started"

section \<open>Lemmas\<close>

lemma supported_registered:
  "c \<in> supportedChains (fold register_config xs w) \<Longrightarrow>
     c \<in> supportedChains w \<or> (\<exists>x \<in> set xs. config_id x = c \<and> (AcrossPool x \<noteq> [] \<or> LifiOutputSettler x \<noteq> []))"
proof (induction xs arbitrary: w)
  case (Cons x xs)
  then have "c \<in> supportedChains (register_config x w)
      \<or> (\<exists>x \<in> set xs. config_id x = c \<and> (AcrossPool x \<noteq> [] \<or> LifiOutputSettler x \<noteq> []))" by simp
  then show ?case by (auto simp: register_config_def Let_def split: if_splits)
qed simp

lemma wire_supported:
  assumes "wire A S cs = Ok w" and "c \<in> supportedChains w"
  shows "c = LIGHTER_DOMAIN_ID \<or> (\<exists>x \<in> set (accepted A cs). config_id x = c \<and> (AcrossPool x \<noteq> [] \<or> LifiOutputSettler x \<noteq> []))"
proof (cases "c = LIGHTER_DOMAIN_ID")
  case False
  with assms have "c \<in> supportedChains (fold register_config (accepted A cs)
      (fold (collect_config (ae_eth A)) (accepted A cs) empty_wiring))"
    by (subst (asm) wire_Ok [OF assms(1)]) simp
  from supported_registered [OF this] show ?thesis by (auto simp: fold_collect_keeps empty_wiring_def)
qed simp

lemma prepared_chain:
  assumes "prepare_signing E chns rq vars = Ok r \<or> prepare_unlock E chns rq vars = Ok r"
  shows "path_chain vars = Ok (request_destination r)" and "request_destination r \<in> chns" and "request_destination r \<noteq> 0"
proof -
  have "path_chain vars = Ok (request_destination r) \<and> request_destination r \<in> chns \<and> request_destination r \<noteq> 0"
    using assms
  proof
    assume "prepare_signing E chns rq vars = Ok r"
    from prepare_signing_Ok [OF this] obtain b c where
      b: "path_chain vars = Ok c" "c \<in> chns" "c \<noteq> 0" "signing_message E (b\<lparr>sb_ChainId := c\<rparr>) = Ok r"
      by auto
    from b(4) have "request_destination r = c"
      by (auto simp: signing_message_def Let_def res_simps NewAcrossMessage_def NewLifiEscrowMessage_def NewLighterMessage_def
          NewSprinterCreditMessage_def split: if_splits)
    with b show ?thesis by simp
  next
    assume "prepare_unlock E chns rq vars = Ok r"
    then show ?thesis
      by (auto simp: prepare_unlock_def unlock_validate_def res_simps NewLifiUnlockMessage_def split: if_splits)
  qed
  then show "path_chain vars = Ok (request_destination r)" "request_destination r \<in> chns" "request_destination r \<noteq> 0" by simp_all
qed

text \<open>What puts a message on the relayer's channel.\<close>

lemma serve_request_sends:
  assumes "serve_request mux A sv B q = (ms, rep)" and "r \<in> set ms"
  shows "\<exists>e vars. mux routes (hr_method q) (hr_path q) = Inl (e, vars) \<and> ms = [r] \<and>
    (e = Signatures \<and> prepare_signing (api_eth A) (sv_supported sv) (hr_body q) vars = Ok r
     \<or> e = Unlocks \<and> prepare_unlock (api_eth A) (sv_supported sv) (hr_body q) vars = Ok r)"
proof (cases "mux routes (hr_method q) (hr_path q)")
  case (Inl x)
  obtain e vars where x: "x = (e, vars)" by (cases x)
  from assms Inl x obtain y where y: "endpoint_handler A sv B (hr_body q) vars e = Ok (ms, y)"
    by (auto simp: serve_request_def split: res.splits)
  show ?thesis
  proof (cases e)
    case Unlocks
    with y assms(2) show ?thesis
      by (auto simp: Inl x HandleUnlock_def res_simps split: res.splits)
  next
    case Signatures
    with y assms(2) show ?thesis
      by (auto simp: Inl x HandleSigning_def split: res.splits)
  qed (use y assms(2) in auto)
qed (use assms in \<open>simp add: serve_request_def\<close>)

lemma signing_routes:
  "(m, pat, Signatures) \<in> set routes \<Longrightarrow> m = ''POST''" "(m, pat, Unlocks) \<in> set routes \<Longrightarrow> m = ''POST''"
  by (auto simp: routes_def)

lemma Run_wires:
  assumes "Run X f share = (f', Ok s)"
  shows "wire (app_of X (rl_solver s)) (rl_solver s) (ChainConfigs (rl_config s)) = Ok (rl_wiring s)"
  using Run_Ok [OF assms] by (auto simp: start_relayer_def res_simps)

section \<open>Properties\<close>

text \<open>C10: nothing but a POST request to the signatures or unlocks of a chain makes a relayer do anything, and
  at most one message comes of it: it names no coordinator, so that the relayer leads it, and it is for
  the chain of the path, which is not zero and, when the relayer came up from its configuration, is
  the Lighter domain or a configured chain with an Across pool or a Lifi settler.\<close>

theorem api_surface:
  assumes "Run X f share = (f', Ok s)" and "mux_ok mux" and "serve_request mux A (services_of s) B q = (ms, rep)" and "r \<in> set ms"
  shows "ms = [r] \<and> hr_method q = ''POST'' \<and> unled r \<and> request_destination r \<noteq> 0
    \<and> (\<exists>e vars c i. mux routes (hr_method q) (hr_path q) = Inl (e, vars) \<and> e \<in> {Signatures, Unlocks}
         \<and> vars ''chainId'' = Some c \<and> all_digits c \<and> set_string10 c = Some i \<and> request_destination r = big_uint64 i)
    \<and> (request_destination r = LIGHTER_DOMAIN_ID
       \<or> (\<exists>x \<in> set (accepted (app_of X (rl_solver s)) (ChainConfigs (rl_config s))).
            config_id x = request_destination r \<and> (AcrossPool x \<noteq> [] \<or> LifiOutputSettler x \<noteq> [])))"
proof -
  obtain e vars where e: "mux routes (hr_method q) (hr_path q) = Inl (e, vars)" "ms = [r]" "e = Signatures \<or> e = Unlocks"
    and p: "prepare_signing (api_eth A) (sv_supported (services_of s)) (hr_body q) vars = Ok r
      \<or> prepare_unlock (api_eth A) (sv_supported (services_of s)) (hr_body q) vars = Ok r"
    using serve_request_sends [OF assms(3,4)] by blast
  obtain pat c where c: "(hr_method q, pat, e) \<in> set routes" "vars ''chainId'' = Some c" "all_digits c"
    using assms(2) e(1,3) unfolding mux_ok_def by blast
  from prepared_chain(1) [OF p] c(2) obtain i where i: "set_string10 c = Some i" "request_destination r = big_uint64 i"
    by (auto simp: path_chain_def var_text_def res_simps)
  have "request_destination r \<in> supportedChains (rl_wiring s)"
    using prepared_chain(2) [OF p] by (simp add: services_of_def)
  from wire_supported [OF Run_wires [OF assms(1)] this] show ?thesis
    using e c i prepared_chain(3) [OF p] prepared_unled [OF p] signing_routes by blast
qed

text \<open>A relayer without EVM chains, and a router that knows one path.\<close>

definition sample_mux :: router where
  "sample_mux rs m p =
     (if rs = routes \<and> m = ''POST'' \<and> p = ''/v1/chains/1701984817/signatures''
      then Inl (Signatures, [''chainId'' \<mapsto> ''1701984817'']) else Inr \<lparr>rep_status = 404, rep_headers = [], rep_body = []\<rparr>)"

definition lighter_body :: json where
  "lighter_body = JObj [(''depositId'', JStr ''d''), (''nonce'', JNum 1), (''protocol'', JStr ''lighter''),
     (''liquidityPool'', JStr ''p''), (''caller'', JStr ''c''), (''deadline'', JNum 9)]"

definition sample_request :: http_request where
  "sample_request = \<lparr>hr_method = ''POST'', hr_path = ''/v1/chains/1701984817/signatures'', hr_body = Ok lighter_body\<rparr>"

definition sample_responses :: responses where
  "sample_responses = \<lparr>rs_signing = (\<lambda>_. Some None), rs_unlock = (\<lambda>_. UnlockTimeout), rs_status = (\<lambda>_. None)\<rparr>"

lemma sample_mux_ok: "mux_ok sample_mux"
  by (simp add: mux_ok_def sample_mux_def routes_def all_digits_def digit_val_def)

lemma lighter_prepared:
  assumes "LIGHTER_DOMAIN_ID \<in> chns"
  shows "\<exists>d. prepare_signing E chns (Ok lighter_body) [''chainId'' \<mapsto> ''1701984817'']
    = Ok (ReqLighter (NewLighterMessage 0 LIGHTER_DOMAIN_ID d))"
  using assms
  by (simp add: prepare_signing_def lighter_body_def decode_body_def field_eval set_string10_def parse_dec_def digit_val_def
      signing_validate_def path_chain_def var_text_def big_uint64_def res_guard_def signing_message_def Let_def
      LIGHTER_DOMAIN_ID_def)
    (rule exI, rule refl)

theorem api_surface_witness:
  "\<exists>s ms rep r. Run sample_run (Some [0]) None = (Some [0], Ok s)
     \<and> serve_request sample_mux sample_api (services_of s) sample_responses sample_request = (ms, rep)
     \<and> ms = [r] \<and> hr_method sample_request = ''POST'' \<and> map_option rep_status rep = Some 202 \<and> unled r
     \<and> request_destination r = LIGHTER_DOMAIN_ID"
proof -
  obtain s where s: "Run sample_run (Some [0]) None = (Some [0], Ok s)" using sample_started by blast
  have in_w: "LIGHTER_DOMAIN_ID \<in> supportedChains (rl_wiring s)" by (subst wire_Ok [OF Run_wires [OF s]]) simp
  obtain d where d: "prepare_signing (api_eth sample_api) (sv_supported (services_of s)) (Ok lighter_body) [''chainId'' \<mapsto> ''1701984817'']
      = Ok (ReqLighter (NewLighterMessage 0 LIGHTER_DOMAIN_ID d))"
    using lighter_prepared in_w by (fastforce simp: services_of_def)
  let ?r = "ReqLighter (NewLighterMessage 0 LIGHTER_DOMAIN_ID d)"
  let ?rep = "Some \<lparr>rep_status = 202, rep_headers = [], rep_body = []\<rparr>"
  have q: "serve_request sample_mux sample_api (services_of s) sample_responses sample_request = ([?r], ?rep)"
    by (simp add: serve_request_def sample_mux_def sample_request_def HandleSigning_def d sample_responses_def)
  have "request_destination ?r = LIGHTER_DOMAIN_ID" by (simp add: NewLighterMessage_def)
  with api_surface [OF s sample_mux_ok q, of ?r] s q show ?thesis by auto
qed

section \<open>How the process ends\<close>

text \<open>It ends without an error only after a signal or a change of the configuration, and otherwise only by the
  panic of a goroutine, the server's when it cannot listen among them; the context is cancelled first
  in the one case, never waited for in either.\<close>

lemma process_run_snoc: "process_run (es @ [e]) = process_step (process_run es) e"
  by (simp add: process_run_def)

lemma process_cancelled: "pr_cancelled (process_run es) \<Longrightarrow> \<exists>e. LoopEvent e \<in> set es"
proof (induction es rule: rev_induct)
  case (snoc e es)
  then show ?case by (cases e) (auto simp: process_run_snoc split: if_splits res.splits)
qed (simp add: process_run_def process_started_def)

lemma process_exit:
  "pr_exit (process_run es) = Some r \<Longrightarrow>
     (case r of
        Ok _ \<Rightarrow> pr_cancelled (process_run es)
      | Panic m \<Rightarrow> GoroutinePanics m \<in> set es \<or> (\<exists>e. ListenReturns (Some e) \<in> set es \<and> e \<noteq> ErrServerClosed)
      | Fail e \<Rightarrow> False)"
proof (induction es rule: rev_induct)
  case (snoc e es)
  show ?case
  proof (cases "pr_exit (process_run es) = None")
    case True
    with snoc.prems show ?thesis
      by (cases e) (auto simp: process_run_snoc listen_result_def split: if_splits res.splits option.splits)
  next
    case False
    then have "process_step (process_run es) e = process_run es" by (cases e) auto
    with snoc show ?thesis by (auto simp: process_run_snoc split: res.splits)
  qed
qed (simp add: process_run_def process_started_def)

text \<open>Nothing waits for the shutdown: after a signal the process can be gone while the server still listens.\<close>

theorem exit_before_shutdown:
  "pr_exit (process_run [LoopEvent SysSignal, MainReturns]) = Some (Ok ())
     \<and> pr_server (process_run [LoopEvent SysSignal, MainReturns]) = Listening"
  by (simp add: process_run_def process_started_def)

text \<open>A request for a protocol the chain has no handler for is put on the channel all the same: the chain of
  the sample has the handlers of Lifi only.\<close>

theorem unregistered_protocol_accepted:
  "\<exists>w r. wire sample_app sample_solver [[(''type'', CStr ''evm'')]] = Ok w
     \<and> prepare_signing sample_eth (supportedChains w) (Ok sample_body) [''chainId'' \<mapsto> ''10''] = Ok r
     \<and> request_type r = SprinterCreditMsg \<and> request_destination r = 10 \<and> registered w 10 = Some [LifiEscrowMsg, LifiUnlockMsg]"
proof -
  have s: "ae_config sample_app = (\<lambda>_. Ok sample_evm)" "ae_dial sample_app = (\<lambda>_. Ok ())" "ae_lifi_deps sample_app = Ok ()"
    "ae_head sample_app = (\<lambda>_. Ok 0)"
    by (simp_all add: sample_app_def)
  obtain w where w: "wire sample_app sample_solver [[(''type'', CStr ''evm'')]] = Ok w"
    by (cases "LifiOutputSettler sample_evm = []"; cases "Admin sample_evm = []")
      (simp_all add: wire_def register_lighter_def s collect_chain_def register_chain_def cfg_at_def panicOnError_def
        NewLighterConfig_def sample_solver_def)
  have a: "accepted sample_app [[(''type'', CStr ''evm'')]] = [sample_evm]"
    by (simp add: accepted_def sample_app_def)
  have e: "config_id sample_evm = 10" "handlers_of sample_evm = [LifiEscrowMsg, LifiUnlockMsg]" "LifiOutputSettler sample_evm \<noteq> []"
    by (simp_all add: config_id_def handlers_of_def sample_evm_def sample_general_def)
  have r: "registered w 10 = Some [LifiEscrowMsg, LifiUnlockMsg]" "10 \<in> supportedChains w"
    by (subst wire_Ok [OF w], simp add: a e register_config_def collect_config_def Let_def LIGHTER_DOMAIN_ID_def)+
  have "\<exists>d. prepare_signing sample_eth (supportedChains w) (Ok sample_body) [''chainId'' \<mapsto> ''10'']
      = Ok (ReqCredit (NewSprinterCreditMessage 0 10 d))"
    using r(2)
    by (simp add: prepare_signing_def sample_body_def decode_body_def field_eval set_string10_def parse_dec_def digit_val_def
        signing_validate_def path_chain_def var_text_def big_uint64_def res_guard_def signing_message_def Let_def)
      (rule exI, rule refl)
  with w r show ?thesis by (fastforce simp: NewSprinterCreditMessage_def)
qed

end
