(* ===== verification/Command_Line.thy ===== *)
theory Command_Line
  imports Startup
begin

text \<open>
  The command line of the program (\<open>main.go\<close>, \<open>cli/\<close>, the flags of \<open>config/config.go\<close>): the tree of commands
  with their flags as data, and what running one of them prints and returns. cobra, which reads the
  arguments, is not modelled: an invocation is what it makes of them, the path of a command and the
  flags that were given. A line break is character 10.
\<close>

section \<open>Flags and commands\<close>

datatype flag_value = FString string | FBool bool | FUint16 "16 word"

record flag =
  fl_name :: string
  fl_default :: flag_value
  fl_usage :: string

datatype runner = RunApp | PeerInfo | PeerGenerateKey | KeygenGenerateKey | EncryptTopology | TestTopology | DerivateSS58

text \<open>A command: its name and the two texts of its help, its persistent flags, the names given to
  \<open>MarkFlagRequired\<close>, what it runs, and its subcommands.\<close>

datatype command =
  Command (cmd_Use: string) (cmd_Short: string) (cmd_Long: string) (cmd_flags: "flag list") (cmd_required: "string list") (cmd_runner: "runner option")
    (cmd_children: "command list")

definition StringVar :: "string \<Rightarrow> string \<Rightarrow> string \<Rightarrow> flag" where
  "StringVar n d u = \<lparr>fl_name = n, fl_default = FString d, fl_usage = u\<rparr>"

definition BoolVar :: "string \<Rightarrow> bool \<Rightarrow> string \<Rightarrow> flag" where
  "BoolVar n d u = \<lparr>fl_name = n, fl_default = FBool d, fl_usage = u\<rparr>"

definition BindFlags :: "flag list" where
  "BindFlags =
     [StringVar ''config'' ''.'' ''Path to JSON configuration file'',
      StringVar ''blockstore'' ''./lvldbdata'' ''Specify path for blockstore'',
      BoolVar ''fresh'' False
        ''Disables loading from blockstore at start. Opts will still be used if specified. (default: false)'',
      BoolVar ''latest'' False ''Overrides blockstore and start block, starts from latest block (default: false)'',
      StringVar ''keystore'' ''./keys'' ''Path to keystore directory'',
      BoolVar ''staging'' False ''Run the singer with staging configuration'']"

definition runCMD :: command where
  "runCMD = Command ''run'' ''Run app'' ''Run app'' [] [] (Some RunApp) []"

definition peerInfoCMD :: command where
  "peerInfoCMD =
     Command ''info'' ''Calculate peer ID from private key'' ''Calculate peer ID from private key''
       [StringVar ''private-key'' [] ''Base64 encoded libp2p private key''] [''private-key''] (Some PeerInfo) []"

definition peer_generateKeyCMD :: command where
  "peer_generateKeyCMD =
     Command ''gen-key'' ''Generate libp2p identity key'' ''Generate libp2p identity key'' [] [] (Some PeerGenerateKey) []"

definition PeerCLI :: command where
  "PeerCLI = Command ''peer'' ''libp2p peer related commands'' [] [] [] None [peerInfoCMD, peer_generateKeyCMD]"

definition encryptTopologyCMD :: command where
  "encryptTopologyCMD =
     Command ''encrypt'' ''encrypt provided topology with AES'' ''Algorithm used is AES CTR. IV and CT returned are in hex.''
       [StringVar ''path'' [] ''path to json file with network topology'',
        StringVar ''encryption-key'' [] ''password to encrypt topology'']
       [''path'', ''encryption-key''] (Some EncryptTopology) []"

definition testTopologyCMD :: command where
  "testTopologyCMD =
     Command ''test'' ''Test topology url''
       (''CLI tests does provided url contain topology that could be well ''
         @ ''decrypted with provided password and then parsed accordingly'')
       [StringVar ''decryption-key'' [] ''password to decrypt topology'', StringVar ''url'' [] ''url to fetch topology'',
        StringVar ''hash'' [] ''hash of topology'']
       [''decryption-key'', ''url''] (Some TestTopology) []"

definition TopologyCLI :: command where
  "TopologyCLI =
     Command ''topology'' ''utility commands that helps to encrypt and test p2p TopologyMap'' [] [] [] None
       [encryptTopologyCMD, testTopologyCMD]"

definition derivateSS58CMD :: command where
  "derivateSS58CMD =
     Command ''derivateSS58'' ''will print SS58 formatted address (Polkadot) for given PrivateKey in hex''
       ''Will print SS58 formatted address (Polkadot) for given PrivateKey in hex''
       [StringVar ''privateKey'' [] ''hex encoded private key'',
        \<lparr>fl_name = ''networkID'', fl_default = FUint16 0,
         fl_usage = ''network id for a checksum. Registry https://github.com/paritytech/ss58-registry/blob/main/ss58-registry.json''\<rparr>]
       [''privateKey'', ''networkID''] (Some DerivateSS58) []"

definition UtilsCLI :: command where
  "UtilsCLI = Command ''utils'' ''set of utility CLI commands'' [] [] [] None [derivateSS58CMD]"

definition keygen_generateKeyCMD :: command where
  "keygen_generateKeyCMD =
     Command ''gen-key'' ''Generate keys for signing transactions'' ''Generate keys for signing transactions'' [] []
       (Some KeygenGenerateKey) []"

definition KeygenCLI :: command where
  "KeygenCLI = Command ''keygen'' ''Key generation'' [] [] [] None [keygen_generateKeyCMD]"

definition rootCMD :: command where
  "rootCMD =
     Command [] [] [] (BindFlags @ [StringVar ''name'' [] ''relayer name'']) [] None
       [runCMD, PeerCLI, TopologyCLI, UtilsCLI, KeygenCLI]"

text \<open>The command at a path of names below another, and the flags it accepts: those of its ancestors too.\<close>

fun command_at :: "command \<Rightarrow> string list \<Rightarrow> (flag list \<times> command) option" where
  "command_at c [] = Some (cmd_flags c, c)"
| "command_at c (n # ns) =
     (case find (\<lambda>d. cmd_Use d = n) (cmd_children c) of
        None \<Rightarrow> None
      | Some d \<Rightarrow> map_option (\<lambda>(fs, x). (cmd_flags c @ fs, x)) (command_at d ns))"

section \<open>Running a command\<close>

text \<open>What the commands use: the files and libraries of the tools, and the relayer's \<open>Run\<close> as it ends.
  \<open>te_show\<close> is \<open>%+v\<close> of a topology.\<close>

record ('priv, 'pub) tool_env =
  te_json :: json_text
  te_addrs :: addr_lib
  te_aes :: "bytes \<Rightarrow> cipher"
  te_sha256 :: "bytes \<Rightarrow> bytes"
  te_iv :: "bytes res"
  te_open :: "string \<Rightarrow> input_file"
  te_get :: "string \<Rightarrow> string res"
  te_show :: "network_topology \<Rightarrow> string"
  te_libp2p :: libp2p
  te_keys :: "('priv, 'pub) key_lib"
  te_b64 :: "bytes \<Rightarrow> string"
  te_keypair :: "(string \<times> bytes) res"
  te_ss58 :: "string \<Rightarrow> 16 word \<Rightarrow> string res"
  te_Run :: "unit res"

definition line_break :: string where
  "line_break = [CHR 0x0A]"

text \<open>The value of a flag, as the variable it is bound to holds it.\<close>

definition value_of_flag :: "flag list \<Rightarrow> (string \<rightharpoonup> flag_value) \<Rightarrow> string \<Rightarrow> flag_value option" where
  "value_of_flag fs given n =
     (case find (\<lambda>f. fl_name f = n) fs of
        None \<Rightarrow> None
      | Some f \<Rightarrow> Some (case given n of Some v \<Rightarrow> v | None \<Rightarrow> fl_default f))"

definition string_flag :: "flag list \<Rightarrow> (string \<rightharpoonup> flag_value) \<Rightarrow> string \<Rightarrow> string" where
  "string_flag fs given n = (case value_of_flag fs given n of Some (FString s) \<Rightarrow> s | _ \<Rightarrow> [])"

definition uint16_flag :: "flag list \<Rightarrow> (string \<rightharpoonup> flag_value) \<Rightarrow> string \<Rightarrow> 16 word" where
  "uint16_flag fs given n = (case value_of_flag fs given n of Some (FUint16 w) \<Rightarrow> w | _ \<Rightarrow> 0)"

text \<open>What a command prints. The text of \<open>gen-key\<close> is a raw string, so its backslash is printed.\<close>

fun run_command :: "('priv, 'pub) tool_env \<Rightarrow> flag list \<Rightarrow> (string \<rightharpoonup> flag_value) \<Rightarrow> runner \<Rightarrow> string res" where
  "run_command T fs given RunApp = res_bind (te_Run T) (\<lambda>_. Ok [])"
| "run_command T fs given PeerInfo =
     res_bind (peerInfo (te_libp2p T) (te_keys T) (string_flag fs given ''private-key'')) (\<lambda>ident.
     Ok (line_break @ ''LibP2P peer identity: '' @ ident @ line_break))"
| "run_command T fs given PeerGenerateKey =
     res_bind (peer_generateKey (te_libp2p T) (te_keys T) (te_b64 T)) (\<lambda>(ident, key).
     Ok (line_break @ ''LibP2P peer identity: '' @ ident @ '' '' @ [CHR 0x5C, CHR ''n''] @ line_break
       @ ''LibP2P private key: '' @ key @ line_break))"
| "run_command T fs given KeygenGenerateKey =
     res_bind (keygen_generateKey (te_keypair T)) (\<lambda>(public, private).
     Ok (''Public key: '' @ public @ line_break @ ''Private key: '' @ private @ line_break))"
| "run_command T fs given EncryptTopology =
     res_bind (encryptTopology (te_json T) (te_aes T) (te_sha256 T) (te_iv T) (string_flag fs given ''encryption-key'')
         (te_open T (string_flag fs given ''path''))) (\<lambda>(ct, h).
     Ok (''Encrypted topology is: '' @ ct @ '' '' @ line_break @ ''Hash of the topology '' @ h))"
| "run_command T fs given TestTopology =
     res_bind (testTopology (te_json T) (te_addrs T) (te_aes T) (te_sha256 T) (te_get T)
         (string_flag fs given ''decryption-key'') (string_flag fs given ''url'') (string_flag fs given ''hash'')) (\<lambda>t.
     Ok (''Everything is fine your topology is '' @ line_break @ te_show T t))"
| "run_command T fs given DerivateSS58 =
     res_bind (derivateSS58 (te_ss58 T) (string_flag fs given ''privateKey'') (uint16_flag fs given ''networkID'')) (\<lambda>address.
     Ok (address @ line_break))"

text \<open>\<open>Execute\<close> on the command and the flags that cobra found, or its error: what is printed and the exit
  status. \<open>log.Fatal\<close> exits with 1 and a panic with 2; a group of commands has nothing to run and shows
  its help, which is cobra's (\<open>help\<close>).\<close>

definition cli_Execute ::
  "('priv, 'pub) tool_env \<Rightarrow> (command \<Rightarrow> string) \<Rightarrow> (string list \<times> (string \<rightharpoonup> flag_value)) res \<Rightarrow> string \<times> nat" where
  "cli_Execute T help invocation =
     (case invocation of
        Ok (path, given) \<Rightarrow>
          (case command_at rootCMD path of
             None \<Rightarrow> ([], 1)
           | Some (fs, c) \<Rightarrow>
               (case cmd_runner c of
                  None \<Rightarrow> (help c, 0)
                | Some r \<Rightarrow>
                    (case run_command T fs given r of Ok out \<Rightarrow> (out, 0) | Fail e \<Rightarrow> ([], 1) | Panic m \<Rightarrow> ([], 2))))
      | Fail e \<Rightarrow> ([], 1)
      | Panic m \<Rightarrow> ([], 2))"

text \<open>\<open>app.Run\<close> as the command \<open>run\<close> sees it: the relayer starts, and the loop it ends in.\<close>

definition app_Run ::
  "('lvl, 'priv, 'pub, 'k) run_env \<Rightarrow> topology_file \<Rightarrow> bytes option \<Rightarrow> run_event list \<Rightarrow> topology_file \<times> unit res option" where
  "app_Run X f share es =
     (case Run X f share of
        (f', Ok s) \<Rightarrow> (f', run_loop es)
      | (f', Fail e) \<Rightarrow> (f', Some (Fail e))
      | (f', Panic m) \<Rightarrow> (f', Some (Panic m)))"

section \<open>Lemmas\<close>

lemmas command_defs = rootCMD_def runCMD_def PeerCLI_def peerInfoCMD_def peer_generateKeyCMD_def TopologyCLI_def
  encryptTopologyCMD_def testTopologyCMD_def UtilsCLI_def derivateSS58CMD_def KeygenCLI_def keygen_generateKeyCMD_def
  BindFlags_def StringVar_def BoolVar_def

text \<open>The commands that run something, by their paths.\<close>

lemma cli_commands:
  "map_option (cmd_runner \<circ> snd) (command_at rootCMD [''run'']) = Some (Some RunApp)"
  "map_option (cmd_runner \<circ> snd) (command_at rootCMD [''peer'', ''info'']) = Some (Some PeerInfo)"
  "map_option (cmd_runner \<circ> snd) (command_at rootCMD [''peer'', ''gen-key'']) = Some (Some PeerGenerateKey)"
  "map_option (cmd_runner \<circ> snd) (command_at rootCMD [''keygen'', ''gen-key'']) = Some (Some KeygenGenerateKey)"
  "map_option (cmd_runner \<circ> snd) (command_at rootCMD [''topology'', ''encrypt'']) = Some (Some EncryptTopology)"
  "map_option (cmd_runner \<circ> snd) (command_at rootCMD [''topology'', ''test'']) = Some (Some TestTopology)"
  "map_option (cmd_runner \<circ> snd) (command_at rootCMD [''utils'', ''derivateSS58'']) = Some (Some DerivateSS58)"
  by (simp_all add: command_defs)

text \<open>No flag of a command hides one of an ancestor, and sibling commands have different names: neither
  cobra nor the lookup has a choice.\<close>

fun unambiguous :: "string list \<Rightarrow> command \<Rightarrow> bool" where
  "unambiguous outer (Command u sh lo fs rs r cs) \<longleftrightarrow>
     distinct (outer @ map fl_name fs) \<and> distinct (map cmd_Use cs) \<and> set rs \<subseteq> set (map fl_name fs)
     \<and> list_all (unambiguous (outer @ map fl_name fs)) cs"

lemma cli_unambiguous: "unambiguous [] rootCMD"
  by (simp add: command_defs)

text \<open>What the relayer returns to the command line: it stops without an error, or dies.\<close>

lemma app_Run_result:
  assumes "app_Run X f share es = (f', Some r)"
  shows "r = Ok () \<or> panics r"
proof -
  have "snd (Run X f share) \<noteq> Fail e" for e by (rule Run_never_fails)
  moreover have "run_loop es = Some r \<Longrightarrow> r = Ok ()"
    by (cases es; cases "hd es") simp_all
  ultimately show ?thesis
    using assms by (cases "snd (Run X f share)") (auto simp: app_Run_def split: prod.splits)
qed

text \<open>The two key tools agree on the command line as well: with the key that \<open>peer gen-key\<close> printed, \<open>peer
  info\<close> prints the same identity.\<close>

lemma cli_info_of_generated:
  assumes "keys_ok (te_keys T) (te_b64 T)" and "peer_generateKey (te_libp2p T) (te_keys T) (te_b64 T) = Ok (ident, key)"
  shows "cli_Execute T help (Ok ([''peer'', ''info''], [''private-key'' \<mapsto> FString key]))
    = (line_break @ ''LibP2P peer identity: '' @ ident @ line_break, 0)"
  using peerInfo_generated [OF assms]
  by (simp add: cli_Execute_def command_defs string_flag_def value_of_flag_def)

text \<open>Without \<open>--path\<close> the encryption tool opens the empty path and dies of it, unless cobra has refused to
  run it.\<close>

theorem encrypt_without_path_panics:
  assumes "in_open (te_open T []) \<noteq> None" and "given ''path'' = None"
  shows "cli_Execute T help (Ok ([''topology'', ''encrypt''], given)) = ([], 2)"
  using assms
  by (simp add: cli_Execute_def command_defs string_flag_def value_of_flag_def encryptTopology_def deferred_close_def)

end
