(* ===== verification/Lighter_Client.thy ===== *)
theory Lighter_Client
  imports Lighter
begin

text \<open>
  The retries of the Lighter client, \<open>NewLighterAPI\<close> of \<open>protocol/lighter/api.go\<close>: how the client of
  go-retryablehttp is configured, what such a client promises, and what \<open>GetTx\<close> makes of it. A
  transaction that Lighter has not indexed yet is asked for three times.
\<close>

section \<open>The configuration\<close>

definition TX_NOT_FOUND_RETRIES :: nat where
  "TX_NOT_FOUND_RETRIES = 3"

text \<open>Pauses in milliseconds.\<close>

definition TX_NOT_FOUND_RETRY_WAIT :: nat where
  "TX_NOT_FOUND_RETRY_WAIT = 500"

record retry_client =
  RetryMax :: nat
  RetryWaitMin :: nat
  RetryWaitMax :: nat
  CheckRetry :: "go_error option \<Rightarrow> http_response res \<Rightarrow> bool res"

definition NewLighterAPI :: "json_text \<Rightarrow> retry_client" where
  "NewLighterAPI J =
     \<lparr>RetryMax = TX_NOT_FOUND_RETRIES - 1, RetryWaitMin = TX_NOT_FOUND_RETRY_WAIT, RetryWaitMax = TX_NOT_FOUND_RETRY_WAIT,
      CheckRetry = LighterCheckRetry J\<rparr>"

text \<open>
  What go-retryablehttp documents: \<open>tries k\<close> is the outcome of the attempt after \<open>k\<close> retries. The client
  asks \<open>CheckRetry\<close> after each attempt, ends with its error, if there is one, or with the outcome when it
  does not ask for another attempt, and gives up after \<open>RetryMax\<close> retries.
\<close>

definition retried :: "retry_client \<Rightarrow> nat \<Rightarrow> (nat \<Rightarrow> http_response res) \<Rightarrow> bool" where
  "retried R n tries \<longleftrightarrow> n \<le> RetryMax R \<and> (\<forall>k < n. CheckRetry R None (tries k) = Ok True)"

definition retry_client_ok :: "retry_client \<Rightarrow> (nat \<Rightarrow> http_response res) \<Rightarrow> http_response res \<Rightarrow> bool" where
  "retry_client_ok R tries got \<longleftrightarrow>
     (\<exists>n. retried R n tries \<and>
       (case CheckRetry R None (tries n) of
          Ok False \<Rightarrow> got = tries n
        | Ok True \<Rightarrow> n = RetryMax R \<and> (\<exists>e. got = Fail e)
        | Fail e \<Rightarrow> (\<exists>e'. got = Fail e')
        | Panic m \<Rightarrow> got = Panic m))"

section \<open>Lemmas\<close>

lemma retried_same:
  assumes "retried R n tries" and "retried R k tries" and "CheckRetry R None (tries n) \<noteq> Ok True" and "CheckRetry R None (tries k) \<noteq> Ok True"
  shows "n = k"
  using assms by (metis retried_def linorder_neqE_nat)

text \<open>The outcome is decided by the first attempt that is not to be repeated.\<close>

lemma retry_outcome:
  assumes "retry_client_ok R tries got" and "retried R n tries" and "CheckRetry R None (tries n) = Ok False"
  shows "got = tries n"
proof -
  obtain k where k: "retried R k tries" "case CheckRetry R None (tries k) of
          Ok False \<Rightarrow> got = tries k
        | Ok True \<Rightarrow> k = RetryMax R \<and> (\<exists>e. got = Fail e)
        | Fail e \<Rightarrow> (\<exists>e'. got = Fail e')
        | Panic m \<Rightarrow> got = Panic m"
    using assms(1) by (auto simp: retry_client_ok_def)
  show ?thesis
  proof (cases "CheckRetry R None (tries k) = Ok True")
    case True
    with k(2) have "k = RetryMax R" by simp
    with assms(2,3) k(1) True show ?thesis by (metis retried_def le_neq_implies_less res.inject(1))
  next
    case False
    from retried_same [OF assms(2) k(1) _ False] assms(3) have "n = k" by simp
    with k(2) assms(3) show ?thesis by simp
  qed
qed

text \<open>The attempts of the Lighter client.\<close>

lemma lighter_attempts:
  assumes "retry_client_ok (NewLighterAPI J) tries got"
  shows "\<exists>n < 3. (\<forall>k < n. LighterCheckRetry J None (tries k) = Ok True) \<and>
    (LighterCheckRetry J None (tries n) = Ok False \<and> got = tries n
     \<or> LighterCheckRetry J None (tries n) = Ok True \<and> n = 2 \<and> (\<exists>e. got = Fail e)
     \<or> (\<exists>e. LighterCheckRetry J None (tries n) = Fail e) \<and> (\<exists>e. got = Fail e)
     \<or> (\<exists>m. LighterCheckRetry J None (tries n) = Panic m \<and> got = Panic m))"
proof -
  have R: "RetryMax (NewLighterAPI J) = 2" "CheckRetry (NewLighterAPI J) = LighterCheckRetry J"
    by (simp_all add: NewLighterAPI_def TX_NOT_FOUND_RETRIES_def)
  obtain n where n: "n \<le> 2" "\<forall>k < n. LighterCheckRetry J None (tries k) = Ok True"
    and c: "case LighterCheckRetry J None (tries n) of
          Ok False \<Rightarrow> got = tries n
        | Ok True \<Rightarrow> n = 2 \<and> (\<exists>e. got = Fail e)
        | Fail e \<Rightarrow> (\<exists>e'. got = Fail e')
        | Panic m \<Rightarrow> got = Panic m"
    using assms unfolding retry_client_ok_def retried_def R by blast
  from c have "LighterCheckRetry J None (tries n) = Ok False \<and> got = tries n
     \<or> LighterCheckRetry J None (tries n) = Ok True \<and> n = 2 \<and> (\<exists>e. got = Fail e)
     \<or> (\<exists>e. LighterCheckRetry J None (tries n) = Fail e) \<and> (\<exists>e. got = Fail e)
     \<or> (\<exists>m. LighterCheckRetry J None (tries n) = Panic m \<and> got = Panic m)"
    by (auto split: res.splits bool.splits)
  with n show ?thesis by (intro exI [of _ n]) simp
qed

section \<open>Looking up a transaction\<close>

text \<open>A transaction is found when the answer to the first, second or third attempt is one and those before
  it said that it was not found yet or had no transfer; nothing else is ever returned, and three such
  answers are an error.\<close>

theorem lighter_lookup:
  assumes "retry_client_ok (NewLighterAPI J) tries (get (''https://mainnet.zklighter.elliot.ai/api/v1/tx?by=hash&value='' @ hash))"
  shows "(GetTx J grow get hash = Ok tx \<longrightarrow>
       (\<exists>n < 3. \<exists>x b. (\<forall>k < n. LighterCheckRetry J None (tries k) = Ok True) \<and> tries n = Ok x \<and> StatusCode x = 200
          \<and> http_Body x = Ok b \<and> unmarshal_tx J grow b = Ok tx))
    \<and> ((\<forall>k < n. LighterCheckRetry J None (tries k) = Ok True) \<and> n < 3 \<and> LighterCheckRetry J None (tries n) = Ok False
         \<and> tries n = Ok x \<and> StatusCode x = 200 \<and> http_Body x = Ok b \<longrightarrow> GetTx J grow get hash = unmarshal_tx J grow b)
    \<and> ((\<forall>k < 3. LighterCheckRetry J None (tries k) = Ok True) \<longrightarrow> (\<exists>e. GetTx J grow get hash = Fail e))"
proof -
  define url where "url = ''https://mainnet.zklighter.elliot.ai/api/v1/tx?by=hash&value='' @ hash"
  define got where "got = get url"
  have G: "GetTx J grow get hash = res_bind (res_wrap ''request failed'' got) (\<lambda>resp.
      res_bind (res_guard (StatusCode resp = 200) (Errorf (''unexpected status code: '' @ show_int (StatusCode resp)
          @ '', '' @ url))) (\<lambda>_.
      res_bind (res_wrap ''failed to read response body'' (http_Body resp)) (unmarshal_tx J grow)))"
    unfolding got_def url_def GetTx_def Let_def by (rule refl)
  have ok: "retry_client_ok (NewLighterAPI J) tries got"
    using assms unfolding got_def url_def .
  from lighter_attempts [OF ok] obtain k where k: "k < 3" "\<forall>i < k. LighterCheckRetry J None (tries i) = Ok True"
    "LighterCheckRetry J None (tries k) = Ok False \<and> got = tries k
     \<or> LighterCheckRetry J None (tries k) = Ok True \<and> k = 2 \<and> (\<exists>e. got = Fail e)
     \<or> (\<exists>e. LighterCheckRetry J None (tries k) = Fail e) \<and> (\<exists>e. got = Fail e)
     \<or> (\<exists>m. LighterCheckRetry J None (tries k) = Panic m \<and> got = Panic m)"
    by blast
  show ?thesis
  proof (intro conjI impI)
    assume "GetTx J grow get hash = Ok tx"
    then obtain x b where x: "got = Ok x" "StatusCode x = 200" "http_Body x = Ok b" "unmarshal_tx J grow b = Ok tx"
      by (auto simp: G res_simps)
    from k(3) x(1) have "tries k = Ok x" by auto
    with k(1,2) x show "\<exists>n < 3. \<exists>x b. (\<forall>k < n. LighterCheckRetry J None (tries k) = Ok True) \<and> tries n = Ok x \<and> StatusCode x = 200
          \<and> http_Body x = Ok b \<and> unmarshal_tx J grow b = Ok tx"
      by blast
  next
    assume a: "(\<forall>k < n. LighterCheckRetry J None (tries k) = Ok True) \<and> n < 3 \<and> LighterCheckRetry J None (tries n) = Ok False
         \<and> tries n = Ok x \<and> StatusCode x = 200 \<and> http_Body x = Ok b"
    then have t: "retried (NewLighterAPI J) n tries"
      by (simp add: retried_def NewLighterAPI_def TX_NOT_FOUND_RETRIES_def)
    from a have "CheckRetry (NewLighterAPI J) None (tries n) = Ok False"
      unfolding NewLighterAPI_def retry_client.simps by blast
    note this = t this
    from retry_outcome [OF ok this(1,2)] a have "got = Ok x" by simp
    with a show "GetTx J grow get hash = unmarshal_tx J grow b"
      by (simp add: G res_guard_def)
  next
    assume a: "\<forall>k < 3. LighterCheckRetry J None (tries k) = Ok True"
    with k(1) have "LighterCheckRetry J None (tries k) = Ok True" by simp
    with k(3) show "\<exists>e. GetTx J grow get hash = Fail e" by (auto simp: G)
  qed
qed

end
