(* ===== verification/Abi.thy ===== *)
theory Abi
  imports Lifi Lighter Evm_Listener
begin

text \<open>
  The contract descriptions of \<open>chains/evm/calls/consts\<close> and the Go values that the code packs by them and
  unpacks into. Encoding itself is go-ethereum's; what the code has to get right is that the topic
  it filters for is that of the event it decodes, that the topics are read in the order of the
  event's indexed inputs, and that every argument and every field has the Go type and, in a
  struct, the name that go-ethereum documents for the type in the description.
\<close>

section \<open>Descriptions\<close>

datatype abi_type =
    AUint nat
  | AAddress
  | AFixedBytes nat
  | ABytes
  | AString
  | ATuple "(string \<times> abi_type) list"
  | ASlice abi_type

datatype abi_entry =
    AbiMethod string "(string \<times> abi_type) list" "(string \<times> abi_type) list"
  | AbiEvent string "(string \<times> abi_type \<times> bool) list"

definition HubPoolABI :: "abi_entry list" where
  "HubPoolABI =
     [AbiMethod ''poolRebalanceRoute'' [(''destinationChainId'', AUint 256), (''l1Token'', AAddress)]
        [(''destinationToken'', AAddress)]]"

definition fillRelay_abi :: abi_entry where
  "fillRelay_abi = AbiMethod ''fillRelay''
     [(''relayData'', ATuple
        [(''depositor'', AFixedBytes 32), (''recipient'', AFixedBytes 32), (''exclusiveRelayer'', AFixedBytes 32),
         (''inputToken'', AFixedBytes 32), (''outputToken'', AFixedBytes 32), (''inputAmount'', AUint 256),
         (''outputAmount'', AUint 256), (''originChainId'', AUint 256), (''depositId'', AUint 256),
         (''fillDeadline'', AUint 32), (''exclusivityDeadline'', AUint 32), (''message'', ABytes)]),
      (''repaymentChainId'', AUint 256), (''repaymentAddress'', AFixedBytes 32)] []"

definition FundsDeposited_abi :: abi_entry where
  "FundsDeposited_abi = AbiEvent ''FundsDeposited''
     [(''inputToken'', AFixedBytes 32, False), (''outputToken'', AFixedBytes 32, False),
      (''inputAmount'', AUint 256, False), (''outputAmount'', AUint 256, False),
      (''destinationChainId'', AUint 256, True), (''depositId'', AUint 256, True),
      (''quoteTimestamp'', AUint 32, False), (''fillDeadline'', AUint 32, False),
      (''exclusivityDeadline'', AUint 32, False), (''depositor'', AFixedBytes 32, True),
      (''recipient'', AFixedBytes 32, False), (''exclusiveRelayer'', AFixedBytes 32, False),
      (''message'', ABytes, False)]"

definition SpokePoolABI :: "abi_entry list" where
  "SpokePoolABI = [fillRelay_abi, FundsDeposited_abi]"

definition LifiABI :: "abi_entry list" where
  "LifiABI =
     [AbiMethod ''fillOrderOutputs''
        [(''orderId'', AFixedBytes 32),
         (''outputs'', ASlice (ATuple
            [(''oracle'', AFixedBytes 32), (''settler'', AFixedBytes 32), (''chainId'', AUint 256),
             (''token'', AFixedBytes 32), (''amount'', AUint 256), (''recipient'', AFixedBytes 32),
             (''callbackData'', ABytes), (''context'', ABytes)])),
         (''fillDeadline'', AUint 48), (''fillerData'', ABytes)] []]"

definition LighterABI :: "abi_entry list" where
  "LighterABI =
     [AbiMethod ''fulfillWithdraw'' [(''txHash'', AFixedBytes 32), (''toAddress'', AAddress), (''amount'', AUint 256)] []]"

text \<open>Of the bridge's description the code uses this event.\<close>

definition KeyRefresh_abi :: abi_entry where
  "KeyRefresh_abi = AbiEvent ''KeyRefresh'' [(''hash'', AString, False)]"

fun entry_name :: "abi_entry \<Rightarrow> string" where
  "entry_name (AbiMethod n ins outs) = n"
| "entry_name (AbiEvent n ins) = n"

fun entry_inputs :: "abi_entry \<Rightarrow> (string \<times> abi_type) list" where
  "entry_inputs (AbiMethod n ins outs) = ins"
| "entry_inputs (AbiEvent n ins) = map (\<lambda>(f, t, i). (f, t)) ins"

definition find_entry :: "abi_entry list \<Rightarrow> string \<Rightarrow> abi_entry option" where
  "find_entry es n = List.find (\<lambda>e. entry_name e = n) es"

section \<open>Signatures and topics\<close>

fun commas :: "string list \<Rightarrow> string" where
  "commas [] = []"
| "commas [s] = s"
| "commas (s # t # ts) = s @ '','' @ commas (t # ts)"

text \<open>The canonical name of a type, and the text whose hash is the first topic of an event.\<close>

fun type_name :: "abi_type \<Rightarrow> string" and member_names :: "(string \<times> abi_type) list \<Rightarrow> string list" where
  "type_name (AUint n) = ''uint'' @ show_nat n"
| "type_name AAddress = ''address''"
| "type_name (AFixedBytes n) = ''bytes'' @ show_nat n"
| "type_name ABytes = ''bytes''"
| "type_name AString = ''string''"
| "type_name (ATuple fs) = ''('' @ commas (member_names fs) @ '')''"
| "type_name (ASlice t) = type_name t @ ''[]''"
| "member_names [] = []"
| "member_names ((f, t) # fs) = type_name t # member_names fs"

definition abi_signature :: "abi_entry \<Rightarrow> string" where
  "abi_signature e = entry_name e @ ''('' @ commas (member_names (entry_inputs e)) @ '')''"

text \<open>Which topic holds an indexed input of an event.\<close>

fun position :: "'a \<Rightarrow> 'a list \<Rightarrow> nat" where
  "position x [] = 0"
| "position x (y # ys) = (if x = y then 0 else Suc (position x ys))"

fun indexed_inputs :: "abi_entry \<Rightarrow> string list" where
  "indexed_inputs (AbiMethod n ins outs) = []"
| "indexed_inputs (AbiEvent n ins) = map fst (filter (\<lambda>(f, t, i). i) ins)"

definition topic_of :: "abi_entry \<Rightarrow> string \<Rightarrow> nat" where
  "topic_of e f = Suc (position f (indexed_inputs e))"

fun data_inputs :: "abi_entry \<Rightarrow> (string \<times> abi_type) list" where
  "data_inputs (AbiMethod n ins outs) = ins"
| "data_inputs (AbiEvent n ins) = map (\<lambda>(f, t, i). (f, t)) (filter (\<lambda>(f, t, i). \<not> i) ins)"

section \<open>Go types\<close>

text \<open>The Go types of what is packed and unpacked into; an array is one of bytes.\<close>

datatype go_type =
    GUint nat
  | GBigInt
  | GArray nat
  | GAddress
  | GBytes
  | GString
  | GStruct "(string \<times> go_type) list"
  | GSlice go_type

text \<open>\<open>abi.ToCamelCase\<close> of a name without underscores.\<close>

fun camel :: "string \<Rightarrow> string" where
  "camel [] = []"
| "camel (c # cs) = (let n = of_char c in if (97::nat) \<le> n \<and> n \<le> 122 then char_of (n - 32) # cs else c # cs)"

text \<open>
  The Go type of an ABI type: the unsigned integers of 8, 16, 32 and 64 bits are Go's, every other is a
  \<open>*big.Int\<close>; the members of a tuple are the fields of a struct with the camel case of their names.
\<close>

fun accepts :: "abi_type \<Rightarrow> go_type \<Rightarrow> bool" and accepts_all :: "(string \<times> abi_type) list \<Rightarrow> (string \<times> go_type) list \<Rightarrow> bool" where
  "accepts (AUint n) g = (if n \<in> {8, 16, 32, 64} then g = GUint n else g = GBigInt)"
| "accepts AAddress g = (g = GAddress)"
| "accepts (AFixedBytes n) g = (g = GArray n)"
| "accepts ABytes g = (g = GBytes)"
| "accepts AString g = (g = GString)"
| "accepts (ATuple fs) g = (case g of GStruct gs \<Rightarrow> accepts_all fs gs | _ \<Rightarrow> False)"
| "accepts (ASlice t) g = (case g of GSlice h \<Rightarrow> accepts t h | _ \<Rightarrow> False)"
| "accepts_all [] gs = True"
| "accepts_all ((f, t) # fs) gs =
     ((case map_of gs (camel f) of None \<Rightarrow> False | Some g \<Rightarrow> accepts t g) \<and> accepts_all fs gs)"

fun call_fits :: "(string \<times> abi_type) list \<Rightarrow> go_type list \<Rightarrow> bool" where
  "call_fits [] [] = True"
| "call_fits ((f, t) # ins) (g # gs) = (accepts t g \<and> call_fits ins gs)"
| "call_fits _ _ = False"

definition packs :: "abi_entry list \<Rightarrow> string \<Rightarrow> go_type list \<Rightarrow> bool" where
  "packs es n args = (case find_entry es n of None \<Rightarrow> False | Some e \<Rightarrow> call_fits (entry_inputs e) args)"

definition unpacks :: "abi_entry \<Rightarrow> (string \<times> go_type) list \<Rightarrow> bool" where
  "unpacks e gs = accepts_all (data_inputs e) gs"

section \<open>The structs and calls of the code\<close>

definition AcrossDeposit_fields :: "(string \<times> go_type) list" where
  "AcrossDeposit_fields =
     [(''InputToken'', GArray 32), (''OutputToken'', GArray 32), (''InputAmount'', GBigInt), (''OutputAmount'', GBigInt),
      (''DestinationChainId'', GBigInt), (''DepositId'', GBigInt), (''QuoteTimestamp'', GUint 32),
      (''ExclusivityDeadline'', GUint 32), (''FillDeadline'', GUint 32), (''Depositor'', GArray 32),
      (''Recipient'', GArray 32), (''ExclusiveRelayer'', GArray 32), (''Message'', GBytes)]"

definition AcrossV3RelayData_fields :: "(string \<times> go_type) list" where
  "AcrossV3RelayData_fields =
     [(''Depositor'', GArray 32), (''Recipient'', GArray 32), (''ExclusiveRelayer'', GArray 32), (''InputToken'', GArray 32),
      (''OutputToken'', GArray 32), (''InputAmount'', GBigInt), (''OutputAmount'', GBigInt), (''OriginChainId'', GBigInt),
      (''DepositId'', GBigInt), (''FillDeadline'', GUint 32), (''ExclusivityDeadline'', GUint 32), (''Message'', GBytes)]"

definition output_fields :: "(string \<times> go_type) list" where
  "output_fields =
     [(''Oracle'', GArray 32), (''Settler'', GArray 32), (''Recipient'', GArray 32), (''ChainId'', GBigInt),
      (''Token'', GArray 32), (''Amount'', GBigInt), (''CallbackData'', GBytes), (''Context'', GBytes)]"

definition Refresh_fields :: "(string \<times> go_type) list" where
  "Refresh_fields = [(''Hash'', GString)]"

text \<open>The types of the arguments of each \<open>Pack\<close>; that of an order's identifier is the order library's.\<close>

definition fillRelay_args :: "go_type list" where
  "fillRelay_args = [GStruct AcrossV3RelayData_fields, GBigInt, GArray 32]"

definition fillOrderOutputs_args :: "go_type \<Rightarrow> go_type list" where
  "fillOrderOutputs_args orderID = [orderID, GSlice (GStruct output_fields), GBigInt, GBytes]"

definition fulfillWithdraw_args :: "go_type list" where
  "fulfillWithdraw_args = [GArray 32, GAddress, GBigInt]"

definition poolRebalanceRoute_args :: "go_type list" where
  "poolRebalanceRoute_args = [GBigInt, GAddress]"

section \<open>Properties\<close>

lemmas abi_defs = HubPoolABI_def fillRelay_abi_def FundsDeposited_abi_def SpokePoolABI_def LifiABI_def LighterABI_def
  KeyRefresh_abi_def AcrossDeposit_fields_def AcrossV3RelayData_fields_def output_fields_def Refresh_fields_def
  fillRelay_args_def fillOrderOutputs_args_def fulfillWithdraw_args_def poolRebalanceRoute_args_def

lemma show_nat_widths [simp]: "show_nat 256 = ''256''" "show_nat 32 = ''32''"
  by (simp_all add: show_nat.simps digit_char_def char_of_def bit_0)

lemma deposit_signature: "abi_signature FundsDeposited_abi = AcrossDepositSig"
  by (simp add: abi_signature_def FundsDeposited_abi_def AcrossDepositSig_def)

lemma refresh_signature: "abi_signature KeyRefresh_abi = KeyRefreshSig"
  by (simp add: abi_signature_def KeyRefresh_abi_def KeyRefreshSig_def)

lemma deposit_topics:
  "topic_of FundsDeposited_abi ''destinationChainId'' = 1" "topic_of FundsDeposited_abi ''depositId'' = 2"
  "topic_of FundsDeposited_abi ''depositor'' = 3"
  by (simp_all add: topic_of_def FundsDeposited_abi_def)


text \<open>C17: a deposit the fetcher returns is read as the event's description says: it stems from a log of the
  receipt whose first topic is the hash of the signature of \<open>FundsDeposited\<close>, each indexed input is
  taken from the topic that the description assigns to it, the identifier being the one asked for,
  and everything else is the log's data, up to a token that is filled in where there is none.\<close>

theorem deposit_read_by_description:
  assumes "Deposit E P F h depositID = Ok d"
  shows "\<exists>logs l d0 i. df_receipt F h = Ok logs \<and> l \<in> set logs \<and> \<not> Removed l \<and> UnpackDeposit P (log_Data l) = Ok d0
    \<and> Topics l ! 0 = GetTopic E (abi_signature FundsDeposited_abi)
    \<and> depositID = Some i \<and> Topics l ! topic_of FundsDeposited_abi ''depositId'' = id_topic E i
    \<and> DepositId d = int (be_nat (Topics l ! topic_of FundsDeposited_abi ''depositId''))
    \<and> DestinationChainId d = int (be_nat (Topics l ! topic_of FundsDeposited_abi ''destinationChainId''))
    \<and> Depositor d = Topics l ! topic_of FundsDeposited_abi ''depositor''
    \<and> d\<lparr>DestinationChainId := DestinationChainId d0, DepositId := DepositId d0, Depositor := Depositor d0,
          OutputToken := OutputToken d0\<rparr> = d0
    \<and> (OutputToken d = OutputToken d0 \<or> OutputToken d0 = zero_hash)"
proof -
  obtain logs l i where l: "df_receipt F h = Ok logs" "l \<in> set logs" "depositID = Some i" "deposit_log E i l"
    "parseDeposit E P F l = Ok d"
    using assms unfolding Deposit_def res_bind_Ok_iff by (metis scan_logs_Ok)
  obtain d0 where d0: "UnpackDeposit P (log_Data l) = Ok d0"
    using l(5) unfolding parseDeposit_def res_bind_Ok_iff by blast
  obtain t0 t1 t2 t3 ts where ts: "Topics l = t0 # t1 # t2 # t3 # ts"
    using l(5) by (auto simp: parseDeposit_def d0 split: list.split_asm)
  have parsed: "(let d' = d0\<lparr>DestinationChainId := int (be_nat t1), DepositId := int (be_nat t2), Depositor := t3\<rparr> in
          if OutputToken d' \<noteq> zero_hash then Ok d'
          else res_bind (ConfigByAddress (df_tokens F) (df_chainID F) (BytesToAddress E (drop 12 (InputToken d'))))
                 (\<lambda>(symbol, _).
               res_bind (df_matcher F (DestinationChainId d') symbol) (\<lambda>address.
               Ok (d'\<lparr>OutputToken := BytesToHash E address\<rparr>)))) = Ok d"
    using l(5) by (simp add: parseDeposit_def d0 ts)
  have "d\<lparr>OutputToken := OutputToken d0\<rparr> = d0\<lparr>DestinationChainId := int (be_nat t1), DepositId := int (be_nat t2), Depositor := t3\<rparr>
      \<and> (OutputToken d = OutputToken d0 \<or> OutputToken d0 = zero_hash)"
    using parsed by (auto simp: Let_def res_simps split: if_splits)
  then have f: "DestinationChainId d = int (be_nat t1)" "DepositId d = int (be_nat t2)" "Depositor d = t3"
    "d\<lparr>DestinationChainId := DestinationChainId d0, DepositId := DepositId d0, Depositor := Depositor d0,
          OutputToken := OutputToken d0\<rparr> = d0" "OutputToken d = OutputToken d0 \<or> OutputToken d0 = zero_hash"
    by (cases d; cases d0; auto)+
  show ?thesis
    using l d0 f by (auto simp: deposit_log_def deposit_signature deposit_topics ts)
qed

theorem deposit_read_by_description_witness:
  "\<exists>logs l d0 i. df_receipt sample_fetcher [] = Ok logs \<and> l \<in> set logs \<and> \<not> Removed l
    \<and> UnpackDeposit sample_pool (log_Data l) = Ok d0
    \<and> Topics l ! 0 = GetTopic sample_eth (abi_signature FundsDeposited_abi)
    \<and> Some 5 = Some i \<and> Topics l ! topic_of FundsDeposited_abi ''depositId'' = id_topic sample_eth i
    \<and> DepositId sample_deposit = int (be_nat (Topics l ! topic_of FundsDeposited_abi ''depositId''))
    \<and> DestinationChainId sample_deposit = int (be_nat (Topics l ! topic_of FundsDeposited_abi ''destinationChainId''))
    \<and> Depositor sample_deposit = Topics l ! topic_of FundsDeposited_abi ''depositor''
    \<and> sample_deposit\<lparr>DestinationChainId := DestinationChainId d0, DepositId := DepositId d0, Depositor := Depositor d0,
          OutputToken := OutputToken d0\<rparr> = d0
    \<and> (OutputToken sample_deposit = OutputToken d0 \<or> OutputToken d0 = zero_hash)"
  by (rule deposit_read_by_description) (rule sample_deposit_found, simp add: sample_fetcher_def)

end
