(* ===== verification/Communication.thy ===== *)
theory Communication
  imports P2p
begin

text \<open>
  \<open>Libp2pCommunication\<close> of \<open>comm/p2p/libp2p.go\<close> as the rest of the program uses it: a host, its
  subscriptions and its streams, with the methods of the interface \<open>Communication\<close>. Streams of
  different peers are read side by side with the calls that subscribe and unsubscribe, so what a
  stream hands out is stated for every way in which its messages fall between those calls.
\<close>

record ('ch, 'st) communication =
  lc_host :: host
  lc_subs :: "'ch sub_manager"
  lc_streams :: "'st stream_manager"

definition NewCommunication :: "host \<Rightarrow> ('ch, 'st) communication" where
  "NewCommunication h = \<lparr>lc_host = h, lc_subs = NewSessionSubscriptionManager, lc_streams = NewStreamManager\<rparr>"

definition Communication_Broadcast ::
  "json_text \<Rightarrow> 'st net \<Rightarrow> peer list \<Rightarrow> bytes \<Rightarrow> message_type \<Rightarrow> string \<Rightarrow> ('ch, 'st) communication
   \<Rightarrow> ('ch, 'st) communication \<times> 'st wire \<times> unit res" where
  "Communication_Broadcast J N peers msg msgType sessionID c =
     (case p2p_Broadcast J N (lc_host c) (lc_streams c) peers msg msgType sessionID of
        (sm, w, r) \<Rightarrow> (c\<lparr>lc_streams := sm\<rparr>, w, r))"

text \<open>\<open>now\<close> is the time in nanoseconds, from which the identifier of a subscription is made.\<close>

definition Communication_Subscribe ::
  "string \<Rightarrow> message_type \<Rightarrow> nat \<Rightarrow> 'ch \<Rightarrow> ('ch, 'st) communication \<Rightarrow> subscription_id \<times> ('ch, 'st) communication" where
  "Communication_Subscribe sessionID msgType now ch c =
     (case SubscribeTo (lc_subs c) sessionID msgType ch now of (i, ms) \<Rightarrow> (i, c\<lparr>lc_subs := ms\<rparr>))"

definition Communication_UnSubscribe :: "subscription_id \<Rightarrow> ('ch, 'st) communication \<Rightarrow> ('ch, 'st) communication" where
  "Communication_UnSubscribe subID c = c\<lparr>lc_subs := UnSubscribeFrom (lc_subs c) subID\<rparr>"

definition Communication_CloseSession :: "string \<Rightarrow> ('ch, 'st) communication \<Rightarrow> ('ch, 'st) communication" where
  "Communication_CloseSession sessionID c = c\<lparr>lc_streams := p2p_CloseSession (lc_streams c) sessionID\<rparr>"

text \<open>
  \<open>StreamHandlerFunc\<close>: what the stream hands out, and whether closing it afterwards is logged as failed;
  \<open>states n\<close> is the communication as it is when message \<open>n\<close> is handed out.
\<close>

definition StreamHandlerFunc ::
  "json_text \<Rightarrow> peer \<Rightarrow> (nat \<Rightarrow> ('ch, 'st) communication) \<Rightarrow> bytes \<Rightarrow> unit res \<Rightarrow> ('ch \<times> wrapped_message) list \<times> bool" where
  "StreamHandlerFunc J remote states input closing =
     (ProcessMessagesFromStream J remote (\<lambda>n. lc_subs (states n)) 0 input, closing \<noteq> Ok ())"

section \<open>Calls in sequence\<close>

datatype 'ch comm_op =
    CallSubscribe string message_type nat 'ch
  | CallUnSubscribe subscription_id
  | CallBroadcast "peer list" bytes message_type string
  | CallCloseSession string

fun comm_call :: "json_text \<Rightarrow> 'st net \<Rightarrow> ('ch, 'st) communication \<Rightarrow> 'ch comm_op \<Rightarrow> ('ch, 'st) communication" where
  "comm_call J N c (CallSubscribe sess t now ch) = snd (Communication_Subscribe sess t now ch c)"
| "comm_call J N c (CallUnSubscribe i) = Communication_UnSubscribe i c"
| "comm_call J N c (CallBroadcast ps msg t sess) = fst (Communication_Broadcast J N ps msg t sess c)"
| "comm_call J N c (CallCloseSession sess) = Communication_CloseSession sess c"

definition comm_run :: "json_text \<Rightarrow> 'st net \<Rightarrow> host \<Rightarrow> 'ch comm_op list \<Rightarrow> ('ch, 'st) communication" where
  "comm_run J N h cs = foldl (comm_call J N) (NewCommunication h) cs"

section \<open>Lemmas\<close>

lemma value_of_update: "c \<in> snd ` set (AList.update k v al) \<Longrightarrow> c = v \<or> c \<in> snd ` set al"
  by (induction al) (auto split: if_splits)

lemma value_of_delete: "c \<in> snd ` set (AList.delete k al) \<Longrightarrow> c \<in> snd ` set al"
  by (auto simp: AList.delete_eq)

lemma subscriber_origin:
  assumes "c \<in> set (GetSubscribers (snd (SubscribeTo ms sess t ch now)) sess' t')"
  shows "c \<in> set (GetSubscribers ms sess' t') \<or> (c = ch \<and> sess' = sess \<and> t' = t)"
proof (cases "sess' = sess \<and> t' = t")
  case True
  with assms have "c \<in> snd ` set (AList.update (SubscriptionIdentifier (NewSubscriptionID sess t now)) ch
      (case subs_of ms sess t of None \<Rightarrow> [] | Some al \<Rightarrow> al))"
    by (simp add: GetSubscribers_def subs_of_SubscribeTo)
  from value_of_update [OF this] True show ?thesis by (auto simp: GetSubscribers_def split: option.splits)
next
  case False
  then have "subs_of (snd (SubscribeTo ms sess t ch now)) sess' t' = subs_of ms sess' t'"
    by (auto simp: subs_of_SubscribeTo)
  with assms show ?thesis by (simp add: GetSubscribers_def)
qed

lemma subs_of_unsubscribed:
  "subs_of (UnSubscribeFrom ms i) sess t = subs_of ms sess t
   \<or> (\<exists>k al. subs_of ms sess t = Some al \<and> subs_of (UnSubscribeFrom ms i) sess t = Some (AList.delete k al))"
  by (auto simp: subs_of_def UnSubscribeFrom_def split: res.splits option.splits)

lemma unsubscribe_only_removes:
  assumes "c \<in> set (GetSubscribers (UnSubscribeFrom ms i) sess t)"
  shows "c \<in> set (GetSubscribers ms sess t)"
  using subs_of_unsubscribed [of ms i sess t]
proof (elim disjE exE conjE)
  fix k al assume al: "subs_of ms sess t = Some al" "subs_of (UnSubscribeFrom ms i) sess t = Some (AList.delete k al)"
  then have "c \<in> snd ` set (AList.delete k al)" using assms by (simp add: GetSubscribers_def)
  from value_of_delete [OF this] al(1) show ?thesis by (simp add: GetSubscribers_def)
qed (use assms in \<open>simp add: GetSubscribers_def\<close>)

lemma comm_run_subscribed:
  "ch \<in> set (GetSubscribers (lc_subs (comm_run J N h cs)) sess t) \<Longrightarrow> \<exists>now. CallSubscribe sess t now ch \<in> set cs"
proof (induction cs rule: rev_induct)
  case Nil
  then show ?case by (simp add: comm_run_def NewCommunication_def GetSubscribers_def subs_of_def NewSessionSubscriptionManager_def)
next
  case (snoc e cs)
  have "ch \<in> set (GetSubscribers (lc_subs (comm_run J N h cs)) sess t) \<or> (\<exists>now. e = CallSubscribe sess t now ch)"
  proof (cases e)
    case (CallSubscribe s' t' now c)
    then show ?thesis
      using snoc.prems subscriber_origin [of ch "lc_subs (comm_run J N h cs)" s' t' c now sess t]
      by (auto simp: comm_run_def Communication_Subscribe_def split: prod.splits)
  next
    case (CallUnSubscribe i)
    then show ?thesis
      using snoc.prems unsubscribe_only_removes by (auto simp: comm_run_def Communication_UnSubscribe_def)
  qed (use snoc.prems in \<open>auto simp: comm_run_def Communication_Broadcast_def Communication_CloseSession_def split: prod.splits\<close>)
  then show ?case using snoc.IH by auto
qed

section \<open>Properties\<close>

text \<open>C34: whatever bytes a peer sends, and however its messages fall between the calls of the program, a
  message reaches only channels that were subscribed to exactly its session and its type, by a call
  before or during the reading of the stream, and bears the identity of the peer at the other end,
  whatever the message itself claims.\<close>

theorem deliveries_subscribed:
  assumes "(ch, m) \<in> set (fst (StreamHandlerFunc J remote (\<lambda>n. comm_run J' N h (take (moment n) calls)) input closing))"
  shows "From m = remote \<and> (\<exists>now n. CallSubscribe (SessionID m) (MessageType m) now ch \<in> set (take (moment n) calls))"
proof -
  obtain n where n: "From m = remote"
    "ch \<in> set (GetSubscribers (lc_subs (comm_run J' N h (take (moment n) calls))) (SessionID m) (MessageType m))"
    using assms ProcessMessages_authentic [of J remote "\<lambda>n. lc_subs (comm_run J' N h (take (moment n) calls))" 0 input]
    by (auto simp: StreamHandlerFunc_def)
  from n(1) comm_run_subscribed [OF n(2)] show ?thesis by blast
qed

text \<open>A message that claims to be from \<open>b\<close>, sent by \<open>a\<close> while its session is subscribed to.\<close>

theorem deliveries_subscribed_witness:
  "let J = one_doc (JObj [(''message_type'', JNum 5), (''message_id'', JStr ''s''), (''from'', JStr ''b'')]) [];
       m = \<lparr>MessageType = 5, SessionID = ''s'', Payload = [], From = ''a''\<rparr>
   in From m = ''a'' \<and> (\<exists>now n. CallSubscribe (SessionID m) (MessageType m) now (3::nat)
        \<in> set (take 1 [CallSubscribe ''s'' 5 7 3, CallUnSubscribe (NewSubscriptionID ''s'' 5 7)]))"
proof -
  let ?J = "one_doc (JObj [(''message_type'', JNum 5), (''message_id'', JStr ''s''), (''from'', JStr ''b'')]) []"
  let ?N = "undefined :: nat net" and ?h = "\<lparr>host_ID = ''h'', Peerstore = []\<rparr>"
  let ?calls = "[CallSubscribe ''s'' 5 7 3, CallUnSubscribe (NewSubscriptionID ''s'' 5 7)] :: nat comm_op list"
  have subs: "GetSubscribers (lc_subs (comm_run ?J ?N ?h (take 1 ?calls))) ''s'' 5 = [3]"
    by (simp add: comm_run_def NewCommunication_def Communication_Subscribe_def SubscribeTo_def NewSessionSubscriptionManager_def
        GetSubscribers_def subs_of_def Let_def)
  have "(3, \<lparr>MessageType = 5, SessionID = ''s'', Payload = [], From = ''a''\<rparr>)
      \<in> set (fst (StreamHandlerFunc ?J ''a'' (\<lambda>n. comm_run ?J ?N ?h (take ((\<lambda>_. 1) n) ?calls)) [1, 10] (Ok ())))"
    unfolding StreamHandlerFunc_def fst_conv
    by (subst ProcessMessagesFromStream.simps)
      (simp add: ReadStream_def newline_def trim_newlines_def unmarshal_wrapped_def json_unmarshal_tree_def
        struct_field_def jfield_def fold_name_def lower_char_def char_of_def subs [simplified])
  from deliveries_subscribed [OF this] show ?thesis unfolding Let_def by blast
qed

end
