(* ===== verification/Mpc_Metrics.thy ===== *)
theory Mpc_Metrics
  imports P2p Ttl_Cache
begin

text \<open>
  What a relayer measures of its sessions and its peers, \<open>metrics/mpc.go\<close> with \<open>metrics/metrics.go\<close> and
  \<open>metrics/host.go\<close>: the gauges that a round of the health check sets, and the durations, in
  nanoseconds, in the order in which they are recorded. Creating an instrument and the meter's own
  metrics are arguments; the expiring map is that of \<open>Ttl_Cache\<close>.
\<close>

record 'c mpc_metrics =
  totalRelayerCount :: int
  availableRelayerCount :: int
  sessionTimes :: "int list"
  initiateTimes :: "int list"
  commSendTimes :: "(string \<times> int) list"
  commDnsResolveTimes :: "int list"
  sessionStartTimeCache :: 'c

definition mpc_instruments :: "string list" where
  "mpc_instruments =
     [''relayer.TotalRelayers'', ''relayer.AvailableRelayers'', ''relayer.SessionTime'', ''relayer.InitiateTime'',
      ''relayer.CommSendTime'', ''relayer.CommDnsResolveTime'']"

definition NewMpcMetrics :: "(string \<Rightarrow> unit res) \<Rightarrow> ('c, int) ttl_cache \<Rightarrow> 'c mpc_metrics res" where
  "NewMpcMetrics meter C =
     res_bind (res_map meter mpc_instruments) (\<lambda>_.
     Ok \<lparr>totalRelayerCount = 0, availableRelayerCount = 0, sessionTimes = [], initiateTimes = [], commSendTimes = [],
         commDnsResolveTimes = [], sessionStartTimeCache = tc_New C\<rparr>)"

definition NewHostMetrics :: "(string \<Rightarrow> unit res) \<Rightarrow> unit res" where
  "NewHostMetrics meter = meter ''relayer.StartTimeSeconds''"

definition NewSprinterMetrics ::
  "unit res \<Rightarrow> (string \<Rightarrow> unit res) \<Rightarrow> ('c, int) ttl_cache \<Rightarrow> 'c mpc_metrics res" where
  "NewSprinterMetrics relayerMetrics meter C =
     res_bind relayerMetrics (\<lambda>_.
     res_bind (NewMpcMetrics meter C) (\<lambda>m.
     res_bind (NewHostMetrics meter) (\<lambda>_. Ok m)))"

definition TrackRelayerStatus :: "peer list \<Rightarrow> peer list \<Rightarrow> 'c mpc_metrics \<Rightarrow> 'c mpc_metrics" where
  "TrackRelayerStatus unavailable all m =
     m\<lparr>totalRelayerCount := int (length all),
       availableRelayerCount := int (length all) - int (length unavailable)\<rparr>"

definition StartProcess :: "('c, int) ttl_cache \<Rightarrow> int \<Rightarrow> string \<Rightarrow> 'c mpc_metrics \<Rightarrow> 'c mpc_metrics" where
  "StartProcess C now sessionID m =
     m\<lparr>sessionStartTimeCache := tc_Set C (sessionStartTimeCache m) sessionID now\<rparr>"

definition EndProcess :: "('c, int) ttl_cache \<Rightarrow> int \<Rightarrow> string \<Rightarrow> 'c mpc_metrics \<Rightarrow> 'c mpc_metrics" where
  "EndProcess C now sessionID m =
     (case tc_Get C (sessionStartTimeCache m) sessionID of
        (None, c) \<Rightarrow> m\<lparr>sessionStartTimeCache := c\<rparr>
      | (Some startTime, c) \<Rightarrow>
          m\<lparr>sessionStartTimeCache := c, sessionTimes := sessionTimes m @ [now - startTime]\<rparr>)"

definition RecordInitiateDuration :: "int \<Rightarrow> 'c mpc_metrics \<Rightarrow> 'c mpc_metrics" where
  "RecordInitiateDuration d m = m\<lparr>initiateTimes := initiateTimes m @ [d]\<rparr>"

definition RecordCommSend :: "string \<Rightarrow> int \<Rightarrow> 'c mpc_metrics \<Rightarrow> 'c mpc_metrics" where
  "RecordCommSend peerID d m = m\<lparr>commSendTimes := commSendTimes m @ [(peerID, d)]\<rparr>"

definition RecordCommDnsResolve :: "int \<Rightarrow> 'c mpc_metrics \<Rightarrow> 'c mpc_metrics" where
  "RecordCommDnsResolve d m = m\<lparr>commDnsResolveTimes := commDnsResolveTimes m @ [d]\<rparr>"

section \<open>Session times\<close>

text \<open>The calls that touch the start times, with the times they happen at, and time passing in the map.\<close>

datatype metric_call = Started_at int string | Ended_at int string | Passed nat

fun measured :: "('c, int) ttl_cache \<Rightarrow> 'c mpc_metrics \<Rightarrow> metric_call \<Rightarrow> 'c mpc_metrics" where
  "measured C m (Started_at t s) = StartProcess C t s m"
| "measured C m (Ended_at t s) = EndProcess C t s m"
| "measured C m (Passed n) = m\<lparr>sessionStartTimeCache := tc_Elapse C (sessionStartTimeCache m) n\<rparr>"

definition measure_calls :: "('c, int) ttl_cache \<Rightarrow> 'c mpc_metrics \<Rightarrow> metric_call list \<Rightarrow> 'c mpc_metrics" where
  "measure_calls C m cs = foldl (measured C) m cs"

text \<open>The last start of a session among the calls.\<close>

fun starts_of :: "string \<Rightarrow> metric_call \<Rightarrow> int list" where
  "starts_of s (Started_at t s') = (if s' = s then [t] else [])"
| "starts_of s _ = []"

definition last_start :: "metric_call list \<Rightarrow> string \<Rightarrow> int option" where
  "last_start cs s = (case rev (concat (map (starts_of s) cs)) of [] \<Rightarrow> None | t # _ \<Rightarrow> Some t)"

lemma last_start_snoc: "last_start (cs @ [c]) s = (case starts_of s c of [] \<Rightarrow> last_start cs s | t # _ \<Rightarrow> Some t)"
  by (cases c) (simp_all add: last_start_def)

lemma EndProcess_view:
  assumes "cache_ok view C"
  shows "view (sessionStartTimeCache (EndProcess C t s m)) = view (sessionStartTimeCache m)"
proof -
  obtain v c where g: "tc_Get C (sessionStartTimeCache m) s = (v, c)" by fastforce
  then have "view c = view (sessionStartTimeCache m)" using assms by (metis cache_ok_def snd_conv)
  with g show ?thesis by (cases v) (simp_all add: EndProcess_def)
qed

lemma measured_view:
  assumes "cache_ok view C" and "view (sessionStartTimeCache m) = Map.empty"
  shows "view (sessionStartTimeCache (measure_calls C m cs)) s \<in> {None, last_start cs s}"
    and "list_all (\<lambda>c. \<forall>n. c \<noteq> Passed n) cs \<Longrightarrow> view (sessionStartTimeCache (measure_calls C m cs)) s = last_start cs s"
proof -
  have ok: "view (tc_Set C c k v) = (view c)(k \<mapsto> v)" "fst (tc_Get C c k) = view c k" "view (snd (tc_Get C c k)) = view c"
    "view (tc_Elapse C c n) k = view c k \<or> view (tc_Elapse C c n) k = None" for c k v n
    using assms(1) by (simp_all add: cache_ok_def)
  have step: "view (sessionStartTimeCache (measured C m' c)) s
      = (case c of Started_at t s' \<Rightarrow> if s' = s then Some t else view (sessionStartTimeCache m') s
           | Ended_at t s' \<Rightarrow> view (sessionStartTimeCache m') s
           | Passed n \<Rightarrow> view (tc_Elapse C (sessionStartTimeCache m') n) s)" for m' c
    by (cases c) (simp_all add: StartProcess_def ok(1) EndProcess_view [OF assms(1)])
  have "view (sessionStartTimeCache (measure_calls C m cs)) s \<in> {None, last_start cs s}
      \<and> (list_all (\<lambda>c. \<forall>n. c \<noteq> Passed n) cs \<longrightarrow> view (sessionStartTimeCache (measure_calls C m cs)) s = last_start cs s)"
  proof (induction cs rule: rev_induct)
    case Nil
    then show ?case by (simp add: measure_calls_def last_start_def assms(2))
  next
    case (snoc c cs)
    have "measure_calls C m (cs @ [c]) = measured C (measure_calls C m cs) c" by (simp add: measure_calls_def)
    then have eq: "view (sessionStartTimeCache (measure_calls C m (cs @ [c]))) s
        = view (sessionStartTimeCache (measured C (measure_calls C m cs) c)) s" by simp
    then show ?case
      unfolding step using snoc
    proof (cases c)
      case (Passed n)
      then show ?thesis
        using snoc ok(4) [of "sessionStartTimeCache (measure_calls C m cs)" n s]
          eq by (auto simp: step last_start_snoc simp del: measured.simps)
    qed (auto simp: last_start_snoc)
  qed
  then show "view (sessionStartTimeCache (measure_calls C m cs)) s \<in> {None, last_start cs s}"
    and "list_all (\<lambda>c. \<forall>n. c \<noteq> Passed n) cs \<Longrightarrow> view (sessionStartTimeCache (measure_calls C m cs)) s = last_start cs s"
    by blast+
qed

text \<open>Whatever sessions start and end, in whatever order and however often, the time recorded when a
  session ends is the time since it was last started; nothing is recorded for a session that was not
  started, and as long as the start times have not expired something is for every other.\<close>

theorem session_times_measured:
  assumes "cache_ok view C" and "NewMpcMetrics meter C = Ok m"
  shows "sessionTimes (measure_calls C m (cs @ [Ended_at t s])) = sessionTimes (measure_calls C m cs)
      \<and> (last_start cs s = None \<or> (\<exists>n. Passed n \<in> set cs))
    \<or> (\<exists>t0. last_start cs s = Some t0
      \<and> sessionTimes (measure_calls C m (cs @ [Ended_at t s])) = sessionTimes (measure_calls C m cs) @ [t - t0])"
proof -
  have "view (sessionStartTimeCache m) = Map.empty"
    using assms by (auto simp: NewMpcMetrics_def res_simps cache_ok_def)
  note v = measured_view [OF assms(1) this, of cs s]
  let ?m = "measure_calls C m cs"
  have e: "measure_calls C m (cs @ [Ended_at t s]) = EndProcess C t s ?m" by (simp add: measure_calls_def)
  have g: "fst (tc_Get C (sessionStartTimeCache ?m) s) = view (sessionStartTimeCache ?m) s"
    using assms(1) by (simp add: cache_ok_def)
  show ?thesis
  proof (cases "view (sessionStartTimeCache ?m) s")
    case None
    with g have "sessionTimes (EndProcess C t s ?m) = sessionTimes ?m"
      by (auto simp: EndProcess_def split: prod.splits option.splits)
    moreover have "last_start cs s = None \<or> (\<exists>n. Passed n \<in> set cs)"
    proof (cases "list_all (\<lambda>c. \<forall>n. c \<noteq> Passed n) cs")
      case True
      then show ?thesis using v(2) None by simp
    next
      case False
      then show ?thesis by (auto simp: list_all_iff)
    qed
    ultimately show ?thesis by (simp add: e)
  next
    case (Some t0)
    with g have "sessionTimes (EndProcess C t s ?m) = sessionTimes ?m @ [t - t0]"
      by (auto simp: EndProcess_def split: prod.splits option.splits)
    with v(1) Some show ?thesis by (auto simp: e)
  qed
qed

theorem session_times_measured_witness:
  "\<exists>m. NewMpcMetrics (\<lambda>_. Ok ()) map_cache = Ok m
     \<and> sessionTimes (measure_calls map_cache m ([Started_at 3 ''1-5'', Started_at 4 ''1-5''] @ [Ended_at 9 ''1-5'']))
       = sessionTimes (measure_calls map_cache m [Started_at 3 ''1-5'', Started_at 4 ''1-5'']) @ [9 - 4]"
proof -
  obtain m where m: "NewMpcMetrics (\<lambda>_. Ok ()) (map_cache :: (string \<rightharpoonup> int, int) ttl_cache) = Ok m"
    by (simp add: NewMpcMetrics_def mpc_instruments_def)
  have "last_start [Started_at 3 ''1-5'', Started_at 4 ''1-5''] ''1-5'' = Some 4" by (simp add: last_start_def)
  with session_times_measured [OF map_cache_ok m, of "[Started_at 3 ''1-5'', Started_at 4 ''1-5'']" 9 "''1-5''"] m
  show ?thesis by auto
qed

section \<open>Gauges\<close>

lemma health_errors_named:
  "health_errors J N h ps sm = (sm', Ok es) \<Longrightarrow>
   length es \<le> length ps \<and> set (map fst es) \<subseteq> set ps - {host_ID h} \<and> (distinct ps \<longrightarrow> distinct (map fst es))"
proof (induction ps arbitrary: sm sm' es)
  case (Cons p ps)
  obtain sm1 w r where b: "p2p_Broadcast J N h sm [p] [] Unknown ''health-session'' = (sm1, w, r)" by (metis prod_cases3)
  have r: "p = host_ID h \<Longrightarrow> r = Ok ()" "r = Fail e \<Longrightarrow> \<exists>e'. e = CommunicationError p e'" for e
    using b by (auto simp: p2p_Broadcast_def split: if_splits prod.splits res.splits)
  show ?case
  proof (cases r)
    case (Ok u)
    then have "health_errors J N h ps sm1 = (sm', Ok es)" using Cons.prems b by simp
    from Cons.IH [OF this] show ?thesis by auto
  next
    case (Fail e)
    then obtain e' where e: "e = CommunicationError p e'" using r(2) by blast
    have "p \<noteq> host_ID h" using r(1) Fail by auto
    obtain sm2 es2 where "health_errors J N h ps sm1 = (sm2, Ok es2)" "es = (p, e') # es2"
      using Cons.prems b Fail e by (auto simp: res_simps split: prod.splits)
    with Cons.IH [OF this(1)] \<open>p \<noteq> host_ID h\<close> show ?thesis by auto
  next
    case (Panic m)
    then show ?thesis using Cons.prems b by simp
  qed
qed simp

text \<open>After a round of the health check the gauges show the peers the relayer knows and those among them
  that it reached: never more than all and never less than none, each peer counted once, and the
  relayer itself, to which nothing is sent, always as reached.\<close>

theorem gauges_show_reached:
  assumes "health_round J N h sm = (sm', Ok (unavailable, all))" and "distinct (Peerstore h)"
    and "m' = TrackRelayerStatus unavailable all m"
  shows "totalRelayerCount m' = int (card (set (Peerstore h)))
    \<and> availableRelayerCount m' = int (card (set (Peerstore h) - set unavailable))
    \<and> 0 \<le> availableRelayerCount m' \<and> availableRelayerCount m' \<le> totalRelayerCount m'
    \<and> set unavailable \<subseteq> set (Peerstore h) - {host_ID h}"
proof -
  obtain es where es: "health_errors J N h (Peerstore h) sm = (sm', Ok es)" "unavailable = map fst es" "all = Peerstore h"
    using assms(1) by (auto simp: health_round_def ExecuteCommHealthCheck_def res_simps split: prod.splits)
  note f = health_errors_named [OF es(1)]
  have "card (set (Peerstore h) - set unavailable) = card (set (Peerstore h)) - card (set unavailable)"
    using f es(2) by (intro card_Diff_subset) auto
  moreover have "card (set unavailable) \<le> card (set (Peerstore h))"
    using f es(2) by (intro card_mono) auto
  moreover have "card (set unavailable) = length unavailable" using f es(2) assms(2) distinct_card [of unavailable] by simp
  moreover have "card (set (Peerstore h)) = length (Peerstore h)" using assms(2) by (simp add: distinct_card)
  ultimately show ?thesis using f es by (auto simp: assms(3) TrackRelayerStatus_def)
qed

definition sample_metrics :: "unit mpc_metrics" where
  "sample_metrics = \<lparr>totalRelayerCount = 0, availableRelayerCount = 0, sessionTimes = [], initiateTimes = [],
     commSendTimes = [], commDnsResolveTimes = [], sessionStartTimeCache = ()\<rparr>"

theorem gauges_show_reached_witness:
  "let h = \<lparr>host_ID = ''a'', Peerstore = [''a'', ''b'']\<rparr>;
       N = \<lparr>PeerInfoAddrs = (\<lambda>p. [p]), NewResolver = Fail (Errorf []), Resolve = (\<lambda>a. Ok [a]), Connect = (\<lambda>_ _. Ok ()),
            NewStream = Ok, Fprintf = (\<lambda>_ _. Ok ()), Flush = (\<lambda>_. Ok ())\<rparr>;
       m' = TrackRelayerStatus [''b''] [''a'', ''b''] sample_metrics
   in health_round (one_doc JNull []) N h NewStreamManager = (NewStreamManager, Ok ([''b''], [''a'', ''b'']))
    \<and> totalRelayerCount m' = int (card (set (Peerstore h)))
    \<and> availableRelayerCount m' = int (card (set (Peerstore h) - set [''b'']))"
proof -
  let ?h = "\<lparr>host_ID = ''a'', Peerstore = [''a'', ''b'']\<rparr>"
  let ?N = "\<lparr>PeerInfoAddrs = (\<lambda>p. [p]), NewResolver = Fail (Errorf []), Resolve = (\<lambda>a. Ok [a]), Connect = (\<lambda>_ _. Ok ()),
            NewStream = Ok, Fprintf = (\<lambda>_ _. Ok ()), Flush = (\<lambda>_. Ok ())\<rparr> :: string net"
  have "health_round (one_doc JNull []) ?N ?h NewStreamManager = (NewStreamManager, Ok ([''b''], [''a'', ''b'']))"
    by (simp add: health_round_def ExecuteCommHealthCheck_def p2p_Broadcast_def sendMessage_def resolveDNS_def)
  with gauges_show_reached [OF this _ refl, of sample_metrics] show ?thesis unfolding Let_def by simp
qed

end
